(* ===== verification/Prelude.thy ===== *)
theory Prelude
  imports Main "HOL-Library.Word"
begin

text \<open>
  Shared vocabulary of the development: the machine integers of the C++ sources, the parts of the
  C++ standard library the sources use on strings (\<^verbatim>\<open>std::to_string\<close>, \<^verbatim>\<open>operator<<\<close> and
  \<^verbatim>\<open>operator>>\<close> on integers, \<^verbatim>\<open>strtoul\<close>, \<^verbatim>\<open>std::stoul\<close>, \<^verbatim>\<open>starts_with\<close>,
  \<^verbatim>\<open>isspace\<close>), ordered finite maps (\<^verbatim>\<open>std::map\<close>), and the lemma collections of the
  component theories.  Strings are byte lists (\<^typ>\<open>string\<close>); the C locale is assumed.
\<close>

type_synonym u8 = "8 word"
type_synonym u16 = "16 word"
type_synonym u32 = "32 word"
type_synonym u64 = "64 word"
type_synonym size_t = "64 word"

text \<open>Rewrite rules that decode what the sources print, and rules about the machine words.\<close>

named_theorems text_simps
named_theorems map_simps

text \<open>Standard exceptions the sources can raise (and, in places, catch).\<close>

datatype std_exception = Invalid_argument | Out_of_range

section \<open>Words\<close>

lemma unat_mult_no_wrap:
  fixes a b :: size_t
  assumes "unat a * unat b < 2 ^ 64"
  shows "unat (a * b) = unat a * unat b"
  using assms by (simp add: unat_word_ariths)

lemma unat_plus_no_wrap:
  fixes a b :: size_t
  assumes "unat a + unat b < 2 ^ 64"
  shows "unat (a + b) = unat a + unat b"
  using assms by (simp add: unat_word_ariths)

lemma unat_minus_no_wrap:
  fixes a b :: size_t
  assumes "unat b \<le> unat a"
  shows "unat (a - b) = unat a - unat b"
  using assms by (simp add: unat_sub word_le_nat_alt)

lemma unat_lt64 [simp]: "unat (x :: 64 word) < 18446744073709551616"
  using unsigned_less [of x] by simp

lemma unat_lt32 [simp]: "unat (x :: 32 word) < 4294967296"
  using unsigned_less [of x] by simp

lemma unat_lt8 [simp]: "unat (x :: 8 word) < 256"
  using unsigned_less [of x] by simp

lemma unat_ucast_32_64 [simp]: "unat (ucast (x :: 32 word) :: 64 word) = unat x"
  by (simp add: unsigned_ucast_eq unsigned_take_bit_eq take_bit_nat_eq_self less_trans [OF unat_lt32])

lemma ucast_32_64_inject [simp]:
  "(ucast (x :: 32 word) :: 64 word) = ucast y \<longleftrightarrow> x = y"
proof
  assume "(ucast x :: 64 word) = ucast y"
  then have "unat (ucast x :: 64 word) = unat (ucast y :: 64 word)" by simp
  then show "x = y" by (simp add: word_unat_eq_iff)
qed simp

lemma ucast_32_64_eq_0 [simp]: "(ucast (x :: 32 word) :: 64 word) = 0 \<longleftrightarrow> x = 0"
  using ucast_32_64_inject [of x 0] by simp

lemma of_nat_unat_32_64: "(of_nat (unat (x :: 32 word)) :: 64 word) = ucast x"
  by (simp add: word_unat_eq_iff unat_of_nat)

lemma ucast_of_nat_unat_32 [simp]: "(ucast (of_nat (unat (x :: 32 word)) :: 64 word) :: 32 word) = x"
  by (simp add: of_nat_unat_32_64 ucast_up_ucast_id is_up)

lemma ucast_64_32_down [simp]: "(ucast (ucast (x :: 32 word) :: 64 word) :: 32 word) = x"
  by (simp add: ucast_up_ucast_id is_up)

section \<open>Characters and string predicates\<close>

definition isspace :: "char \<Rightarrow> bool" where
  "isspace c \<longleftrightarrow> c = CHR '' '' \<or> c = CHR 0x09 \<or> c = CHR 0x0A \<or> c = CHR 0x0B \<or> c = CHR 0x0C \<or> c = CHR 0x0D"

definition is_digit :: "char \<Rightarrow> bool" where
  "is_digit c \<longleftrightarrow> 48 \<le> (of_char c :: nat) \<and> (of_char c :: nat) \<le> 57"

definition digit_val :: "char \<Rightarrow> nat" where
  "digit_val c = of_char c - 48"

definition digit_char :: "nat \<Rightarrow> char" where
  "digit_char d = char_of (48 + d)"

definition starts_with :: "string \<Rightarrow> string \<Rightarrow> bool" where
  "starts_with s p \<longleftrightarrow> take (length p) s = p"

definition ends_with :: "string \<Rightarrow> string \<Rightarrow> bool" where
  "ends_with s p \<longleftrightarrow> length p \<le> length s \<and> drop (length s - length p) s = p"

fun contains :: "string \<Rightarrow> string \<Rightarrow> bool" where
  "contains [] p = (p = [])"
| "contains (c # s) p = (starts_with (c # s) p \<or> contains s p)"

lemma starts_with_iff: "starts_with s p \<longleftrightarrow> (\<exists>r. s = p @ r)"
  unfolding starts_with_def by (metis append_eq_conv_conj append_take_drop_id)

lemma ends_with_iff: "ends_with s p \<longleftrightarrow> (\<exists>r. s = r @ p)"
proof
  assume "ends_with s p"
  then show "\<exists>r. s = r @ p"
    unfolding ends_with_def by (metis append_take_drop_id)
next
  assume "\<exists>r. s = r @ p"
  then show "ends_with s p" by (auto simp: ends_with_def)
qed

lemma starts_with_append [simp]: "starts_with (p @ r) p"
  by (simp add: starts_with_def)

lemma ends_with_append [simp]: "ends_with (r @ p) p"
  by (simp add: ends_with_def)

lemma contains_iff: "contains s p \<longleftrightarrow> (\<exists>a b. s = a @ p @ b)"
proof (induction s)
  case Nil
  then show ?case by auto
next
  case (Cons c s)
  show ?case
  proof
    assume "contains (c # s) p"
    then show "\<exists>a b. c # s = a @ p @ b"
      using Cons by (auto simp: starts_with_iff intro: exI [of _ "[]"])
         (metis append_Cons append_Nil)+
  next
    assume "\<exists>a b. c # s = a @ p @ b"
    then obtain a b where ab: "c # s = a @ p @ b" by blast
    show "contains (c # s) p"
    proof (cases a)
      case Nil
      with ab have "starts_with (c # s) p" by (simp add: starts_with_iff)
      then show ?thesis by simp
    next
      case (Cons x xs)
      with ab have "s = xs @ p @ b" by simp
      with Cons.IH show ?thesis by auto
    qed
  qed
qed

lemma of_char_digit_char: "d < 10 \<Longrightarrow> (of_char (digit_char d) :: nat) = 48 + d"
  by (simp add: digit_char_def)

lemma is_digit_digit_char [simp]: "d < 10 \<Longrightarrow> is_digit (digit_char d)"
  by (simp add: is_digit_def of_char_digit_char)

lemma digit_val_digit_char [simp]: "d < 10 \<Longrightarrow> digit_val (digit_char d) = d"
  by (simp add: digit_val_def of_char_digit_char)

lemma is_digit_not_space: "is_digit c \<Longrightarrow> \<not> isspace c"
  by (auto simp: is_digit_def isspace_def)

lemma not_digit_consts [simp]:
  "\<not> is_digit (CHR '' '')" "\<not> is_digit (CHR ''-'')" "\<not> is_digit (CHR ''+'')" "\<not> is_digit (CHR 0x0A)"
  by (simp_all add: is_digit_def)

lemma isspace_consts [simp]: "isspace (CHR '' '')" "isspace (CHR 0x0A)"
  "\<not> isspace (CHR ''-'')" "\<not> isspace (CHR ''+'')"
  by (simp_all add: isspace_def)

section \<open>Decimal numbers: printing and the C and C++ readers\<close>

fun dec_of_nat :: "nat \<Rightarrow> string" where
  "dec_of_nat n = (if n < 10 then [digit_char n] else dec_of_nat (n div 10) @ [digit_char (n mod 10)])"

declare dec_of_nat.simps [simp del]

text \<open>\<^verbatim>\<open>std::to_string\<close> and \<^verbatim>\<open>operator<<\<close> on unsigned and signed integers.\<close>

definition to_string :: "'w::len word \<Rightarrow> string" where
  "to_string w = dec_of_nat (unat w)"

definition to_string_signed :: "int \<Rightarrow> string" where
  "to_string_signed i = (if i < 0 then CHR ''-'' # dec_of_nat (nat (- i)) else dec_of_nat (nat i))"

text \<open>\<^verbatim>\<open>%lx\<close> and \<^verbatim>\<open>{:x}\<close>.\<close>

fun hex_of_nat :: "nat \<Rightarrow> string" where
  "hex_of_nat n = (if n < 16 then [''0123456789abcdef'' ! n] else hex_of_nat (n div 16) @ [''0123456789abcdef'' ! (n mod 16)])"

declare hex_of_nat.simps [simp del]

definition digits_value :: "string \<Rightarrow> nat" where
  "digits_value ds = foldl (\<lambda>a c. 10 * a + digit_val c) 0 ds"

text \<open>
  The common scanner of \<^verbatim>\<open>strtoul\<close> and its kin, base 10: optional white space, an optional sign,
  digits; the result holds the sign, the magnitude and the unread rest.
\<close>

definition scan_sign :: "string \<Rightarrow> bool \<times> string" where
  "scan_sign t = (case t of [] \<Rightarrow> (False, [])
     | c # r \<Rightarrow> if c = CHR ''-'' then (True, r) else if c = CHR ''+'' then (False, r) else (False, t))"

definition scan_number :: "string \<Rightarrow> (bool \<times> nat \<times> string) option" where
  "scan_number s = (let (neg, u) = scan_sign (dropWhile isspace s); ds = takeWhile is_digit u
     in if ds = [] then None else Some (neg, digits_value ds, dropWhile is_digit u))"

text \<open>\<^verbatim>\<open>strtoul\<close>/\<^verbatim>\<open>strtoull\<close>: 0 when nothing is read, \<^verbatim>\<open>ULONG_MAX\<close> out of range, negation modulo the width.\<close>

definition strtoul :: "string \<Rightarrow> u64" where
  "strtoul s = (case scan_number s of None \<Rightarrow> 0
     | Some (neg, n, r) \<Rightarrow> if 2 ^ 64 \<le> n then - 1 else if neg then - of_nat n else of_nat n)"

text \<open>\<^verbatim>\<open>std::stoul\<close> and \<^verbatim>\<open>std::stoull\<close> (both 64 bits wide): the same with exceptions.\<close>

definition stoul :: "string \<Rightarrow> std_exception + u64" where
  "stoul s = (case scan_number s of None \<Rightarrow> Inl Invalid_argument
     | Some (neg, n, r) \<Rightarrow> if 2 ^ 64 \<le> n then Inl Out_of_range
         else Inr (if neg then - of_nat n else of_nat n))"

text \<open>\<^verbatim>\<open>std::stoi\<close>.\<close>

definition stoi :: "string \<Rightarrow> std_exception + int" where
  "stoi s = (case scan_number s of None \<Rightarrow> Inl Invalid_argument
     | Some (neg, n, r) \<Rightarrow> let i = (if neg then - int n else int n) in
         if i < - (2 ^ 31) \<or> 2 ^ 31 \<le> i then Inl Out_of_range else Inr i)"

text \<open>\<^verbatim>\<open>stream >> value\<close> on a \<^verbatim>\<open>size_t\<close>: the value and the rest of the stream, or failure.\<close>

definition read_size :: "string \<Rightarrow> (size_t \<times> string) option" where
  "read_size s = (case scan_number s of None \<Rightarrow> None
     | Some (neg, n, r) \<Rightarrow> if 2 ^ 64 \<le> n then None
         else Some (if neg then - of_nat n else of_nat n, r))"

lemma dec_of_nat_digits: "\<forall>c \<in> set (dec_of_nat n). is_digit c"
proof (induction n rule: dec_of_nat.induct)
  case (1 n)
  then show ?case by (cases "n < 10") (simp_all add: dec_of_nat.simps [of n])
qed

lemma dec_of_nat_not_Nil [simp]: "dec_of_nat n \<noteq> []"
  by (simp add: dec_of_nat.simps [of n])

lemma digits_value_dec_of_nat [simp]: "digits_value (dec_of_nat n) = n"
proof (induction n rule: dec_of_nat.induct)
  case (1 n)
  then show ?case
    by (cases "n < 10") (simp_all add: dec_of_nat.simps [of n] digits_value_def)
qed

lemma dec_of_nat_hd: "\<exists>c r. dec_of_nat n = c # r \<and> is_digit c"
proof (cases "dec_of_nat n")
  case Nil
  then show ?thesis by simp
next
  case (Cons c r)
  with dec_of_nat_digits [of n] show ?thesis by auto
qed

lemma takeWhile_digits_dec: "takeWhile is_digit (dec_of_nat n @ s) = dec_of_nat n @ takeWhile is_digit s"
  using dec_of_nat_digits [of n] by (simp add: takeWhile_append2)

lemma dropWhile_digits_dec: "dropWhile is_digit (dec_of_nat n @ s) = dropWhile is_digit s"
  using dec_of_nat_digits [of n] by (simp add: dropWhile_append2)

lemma scan_sign_dec: "scan_sign (dec_of_nat n @ s) = (False, dec_of_nat n @ s)"
proof -
  obtain c r where "dec_of_nat n = c # r" "is_digit c" using dec_of_nat_hd by blast
  then show ?thesis by (auto simp: scan_sign_def)
qed

lemma dropWhile_space_dec: "dropWhile isspace (dec_of_nat n @ s) = dec_of_nat n @ s"
proof -
  obtain c r where "dec_of_nat n = c # r" "is_digit c" using dec_of_nat_hd by blast
  then show ?thesis by (auto dest: is_digit_not_space)
qed

lemma scan_number_dec:
  assumes "s = [] \<or> \<not> is_digit (hd s)"
  shows "scan_number (dec_of_nat n @ s) = Some (False, n, s)"
proof -
  from assms have "takeWhile is_digit s = []" "dropWhile is_digit s = s"
    by (cases s; auto)+
  then show ?thesis
    by (simp add: scan_number_def dropWhile_space_dec scan_sign_dec takeWhile_digits_dec dropWhile_digits_dec)
qed

lemma scan_number_dec_Nil: "scan_number (dec_of_nat n) = Some (False, n, [])"
  using scan_number_dec [of "[]" n] by simp

lemma scan_number_space: "scan_number (CHR '' '' # s) = scan_number s"
  by (simp add: scan_number_def)

lemma strtoul_to_string [text_simps]: "strtoul (to_string (w :: 64 word)) = w"
  using unat_lt64 [of w] by (simp add: strtoul_def to_string_def scan_number_dec_Nil del: unat_lt64)

lemma strtoul_to_string_32 [text_simps]: "strtoul (to_string (w :: 32 word)) = ucast w"
proof -
  have "unat w < 18446744073709551616" using unat_lt32 [of w] by linarith
  then show ?thesis
    by (simp add: strtoul_def to_string_def scan_number_dec_Nil of_nat_unat_32_64)
qed

lemma stoul_to_string [text_simps]: "stoul (to_string (w :: 64 word)) = Inr w"
  by (simp add: stoul_def to_string_def scan_number_dec_Nil linorder_not_le)

lemma stoul_to_string_32 [text_simps]: "stoul (to_string (w :: 32 word)) = Inr (ucast w)"
proof -
  have "unat w < 18446744073709551616" using unat_lt32 [of w] by linarith
  then show ?thesis by (simp add: stoul_def to_string_def scan_number_dec_Nil of_nat_unat_32_64)
qed

lemma stoi_to_string_16 [text_simps]: "stoi (to_string (w :: 16 word)) = Inr (uint w)"
proof -
  have "unat w < 65536" using unsigned_less [of w] by simp
  then have "unat w < 2147483648" by linarith
  then show ?thesis by (simp add: stoi_def to_string_def scan_number_dec_Nil Let_def)
qed

lemma read_size_dec:
  assumes "s = [] \<or> \<not> is_digit (hd s)"
  shows "read_size (to_string (w :: 64 word) @ s) = Some (w, s)"
  using assms by (simp add: read_size_def to_string_def scan_number_dec linorder_not_le)

lemma read_size_dec_Nil [text_simps]: "read_size (to_string (w :: 64 word)) = Some (w, [])"
  using read_size_dec [of "[]" w] by simp

lemma read_size_dec_space [text_simps]:
  "read_size (to_string (w :: 64 word) @ CHR '' '' # s) = Some (w, CHR '' '' # s)"
  by (rule read_size_dec) simp

lemma read_size_space [text_simps]: "read_size (CHR '' '' # s) = read_size s"
  by (simp add: read_size_def scan_number_space)

lemma read_size_Nil [text_simps]: "read_size [] = None"
  by (simp add: read_size_def scan_number_def scan_sign_def)

lemma to_string_not_Nil [simp]: "to_string w \<noteq> []"
  by (simp add: to_string_def)

lemma to_string_no_space: "\<forall>c \<in> set (to_string w). \<not> isspace c"
  using dec_of_nat_digits by (auto simp: to_string_def dest: is_digit_not_space)

lemma scan_sign_length: "scan_sign t = (neg, u) \<Longrightarrow> length u \<le> length t"
  by (auto simp: scan_sign_def split: list.splits if_splits)

lemma scan_number_shorter:
  assumes "scan_number s = Some (neg, n, r)"
  shows "length r < length s"
proof -
  obtain b u where bu: "scan_sign (dropWhile isspace s) = (b, u)" by fastforce
  with assms have u: "takeWhile is_digit u \<noteq> []" "r = dropWhile is_digit u"
    by (auto simp: scan_number_def Let_def split: if_splits)
  then have "length r < length u"
    by (metis append_Nil length_append length_greater_0_conv less_add_same_cancel2 takeWhile_dropWhile_id)
  also have "\<dots> \<le> length (dropWhile isspace s)" using bu by (rule scan_sign_length)
  also have "\<dots> \<le> length s" by (rule length_dropWhile_le)
  finally show ?thesis .
qed

lemma read_size_shorter: "read_size s = Some (v, r) \<Longrightarrow> length r < length s"
  by (auto simp: read_size_def split: option.splits prod.splits if_splits dest: scan_number_shorter)

section \<open>Words of a line, as a string stream reads them\<close>

text \<open>\<^verbatim>\<open>stream >> word\<close>: the word and the rest of the stream; the word is empty when the stream fails.\<close>

definition read_word :: "string \<Rightarrow> string \<times> string" where
  "read_word s = (let t = dropWhile isspace s
     in (takeWhile (\<lambda>c. \<not> isspace c) t, dropWhile (\<lambda>c. \<not> isspace c) t))"

definition plain_word :: "string \<Rightarrow> bool" where
  "plain_word w \<longleftrightarrow> w \<noteq> [] \<and> (\<forall>c \<in> set w. \<not> isspace c)"

lemma plain_word_to_string [simp]: "plain_word (to_string w)"
  by (simp add: plain_word_def to_string_no_space)

lemma plain_word_dropWhile: "plain_word w \<Longrightarrow> dropWhile isspace (w @ s) = w @ s"
  by (cases w) (auto simp: plain_word_def)

lemma plain_word_takeWhile:
  "plain_word w \<Longrightarrow> s = [] \<or> isspace (hd s) \<Longrightarrow>
     takeWhile (\<lambda>c. \<not> isspace c) (w @ s) = w \<and> dropWhile (\<lambda>c. \<not> isspace c) (w @ s) = s"
  by (cases s) (auto simp: plain_word_def takeWhile_append2 dropWhile_append2)

lemma read_word_plain:
  "plain_word w \<Longrightarrow> s = [] \<or> isspace (hd s) \<Longrightarrow> read_word (w @ s) = (w, s)"
  by (simp add: read_word_def plain_word_dropWhile plain_word_takeWhile)

lemma read_word_plain_space [text_simps]:
  "plain_word w \<Longrightarrow> read_word (w @ CHR '' '' # s) = (w, CHR '' '' # s)"
  by (simp add: read_word_plain)

lemma read_word_plain_Nil [text_simps]: "plain_word w \<Longrightarrow> read_word w = (w, [])"
  using read_word_plain [of w "[]"] by simp

lemma read_word_space [text_simps]: "read_word (CHR '' '' # s) = read_word s"
  by (simp add: read_word_def)

lemma read_word_shorter:
  assumes "fst (read_word s) \<noteq> []"
  shows "length (snd (read_word s)) < length s"
proof -
  let ?t = "dropWhile isspace s"
  have "length (snd (read_word s)) < length ?t"
    using assms unfolding read_word_def Let_def
    by (metis append_Nil fst_conv length_append length_greater_0_conv less_add_same_cancel2
        snd_conv takeWhile_dropWhile_id)
  also have "\<dots> \<le> length s" by (rule length_dropWhile_le)
  finally show ?thesis .
qed

text \<open>All words of a stream (\<^verbatim>\<open>while (stream >> word)\<close>), and all the numbers it starts with.\<close>

function split_words :: "string \<Rightarrow> string list" where
  "split_words s = (let (w, r) = read_word s in if w = [] then [] else w # split_words r)"
  by pat_completeness auto
termination
  by (relation "measure length") (auto, metis fst_conv snd_conv read_word_shorter)

function read_numbers :: "string \<Rightarrow> size_t list" where
  "read_numbers s = (case read_size s of None \<Rightarrow> [] | Some (v, r) \<Rightarrow> v # read_numbers r)"
  by pat_completeness auto
termination
  by (relation "measure length") (auto dest: read_size_shorter)

declare split_words.simps [simp del] read_numbers.simps [simp del]

lemma split_words_Nil [text_simps]: "split_words [] = []"
  by (simp add: split_words.simps [of "[]"] read_word_def)

lemma split_words_space [text_simps]: "split_words (CHR '' '' # s) = split_words s"
  by (simp add: split_words.simps [of "CHR '' '' # s"] split_words.simps [of s] read_word_space)

lemma split_words_plain [text_simps]:
  "plain_word w \<Longrightarrow> split_words (w @ CHR '' '' # s) = w # split_words s"
  by (simp add: split_words.simps [of "w @ CHR '' '' # s"] read_word_plain_space split_words_space)
     (simp add: plain_word_def)

lemma split_words_last [text_simps]: "plain_word w \<Longrightarrow> split_words w = [w]"
  by (simp add: split_words.simps [of w] read_word_plain_Nil split_words_Nil) (simp add: plain_word_def)

lemma read_numbers_Nil [text_simps]: "read_numbers [] = []"
  by (simp add: read_numbers.simps [of "[]"] read_size_Nil)

lemma read_numbers_space [text_simps]: "read_numbers (CHR '' '' # s) = read_numbers s"
  by (simp add: read_numbers.simps [of "CHR '' '' # s"] read_numbers.simps [of s] read_size_space)

lemma read_numbers_cons [text_simps]:
  "read_numbers (to_string (w :: 64 word) @ CHR '' '' # s) = w # read_numbers s"
  by (simp add: read_numbers.simps [of "to_string w @ CHR '' '' # s"] read_size_dec_space read_numbers_space)

lemma read_numbers_last [text_simps]: "read_numbers (to_string (w :: 64 word)) = [w]"
  by (simp add: read_numbers.simps [of "to_string w"] read_size_dec_Nil read_numbers_Nil)

text \<open>Words and numbers written one after the other with single spaces, as the sources print them.\<close>

fun spaced :: "string list \<Rightarrow> string" where
  "spaced [] = []"
| "spaced [w] = w"
| "spaced (w # v # ws) = w @ CHR '' '' # spaced (v # ws)"

lemma split_words_spaced: "\<forall>w \<in> set ws. plain_word w \<Longrightarrow> split_words (spaced ws) = ws"
  by (induction ws rule: spaced.induct) (simp_all add: text_simps)

lemma read_numbers_spaced: "read_numbers (spaced (map to_string (vs :: size_t list))) = vs"
  by (induction vs rule: induct_list012) (simp_all add: text_simps)

lemma newline_notin_spaced:
  "\<forall>w \<in> set ws. CHR 0x0A \<notin> set w \<Longrightarrow> CHR 0x0A \<notin> set (spaced ws)"
  by (induction ws rule: spaced.induct) auto

lemma newline_notin_to_string [simp]: "CHR 0x0A \<notin> set (to_string w)"
  using to_string_no_space [of w] by auto

section \<open>Lines of a stream\<close>

text \<open>
  \<^verbatim>\<open>std::getline\<close>: the line, the rest of the input, and whether the end of the input was reached before a
  newline; it fails on empty input.
\<close>

definition get_line :: "string \<Rightarrow> (string \<times> string \<times> bool) option" where
  "get_line s = (if s = [] then None else
     Some (takeWhile (\<lambda>c. c \<noteq> CHR 0x0A) s, drop 1 (dropWhile (\<lambda>c. c \<noteq> CHR 0x0A) s), CHR 0x0A \<notin> set s))"

lemma get_line_shorter: "get_line s = Some (l, rest, eof) \<Longrightarrow> length rest < length s"
  using length_dropWhile_le [of "\<lambda>c. c \<noteq> CHR 0x0A" s] by (cases s) (auto simp: get_line_def split: if_splits)

lemma get_line_newline: "CHR 0x0A \<notin> set l \<Longrightarrow> get_line (l @ CHR 0x0A # r) = Some (l, r, False)"
proof -
  assume l: "CHR 0x0A \<notin> set l"
  have "takeWhile (\<lambda>c. c \<noteq> CHR 0x0A) (l @ CHR 0x0A # r) = l @ takeWhile (\<lambda>c. c \<noteq> CHR 0x0A) (CHR 0x0A # r)"
    using l by (intro takeWhile_append2) auto
  moreover have "dropWhile (\<lambda>c. c \<noteq> CHR 0x0A) (l @ CHR 0x0A # r) = dropWhile (\<lambda>c. c \<noteq> CHR 0x0A) (CHR 0x0A # r)"
    using l by (intro dropWhile_append2) auto
  ultimately show ?thesis by (simp add: get_line_def)
qed

lemma get_line_last: "CHR 0x0A \<notin> set l \<Longrightarrow> l \<noteq> [] \<Longrightarrow> get_line l = Some (l, [], True)"
proof -
  assume l: "CHR 0x0A \<notin> set l" "l \<noteq> []"
  then have "\<forall>c \<in> set l. c \<noteq> CHR 0x0A" by auto
  then have eq: "takeWhile (\<lambda>c. c \<noteq> CHR 0x0A) l = l" "dropWhile (\<lambda>c. c \<noteq> CHR 0x0A) l = []"
    by (simp_all only: takeWhile_eq_all_conv dropWhile_eq_Nil_conv)
  show ?thesis unfolding get_line_def eq using l by simp
qed

section \<open>Ordered finite maps\<close>

text \<open>
  \<^verbatim>\<open>std::map\<close> as its sequence of entries in key order, which is the order its iterators visit.
\<close>

type_synonym ('k, 'v) omap = "('k \<times> 'v) list"

fun om_insert :: "'k::linorder \<Rightarrow> 'v \<Rightarrow> ('k, 'v) omap \<Rightarrow> ('k, 'v) omap" where
  "om_insert k v [] = [(k, v)]"
| "om_insert k v ((k', v') # m) =
     (if k < k' then (k, v) # (k', v') # m
      else if k = k' then (k, v) # m
      else (k', v') # om_insert k v m)"

definition om_erase :: "'k \<Rightarrow> ('k, 'v) omap \<Rightarrow> ('k, 'v) omap" where
  "om_erase k m = filter (\<lambda>e. fst e \<noteq> k) m"

abbreviation om_ok :: "('k::linorder, 'v) omap \<Rightarrow> bool" where
  "om_ok m \<equiv> sorted_wrt (<) (map fst m)"

lemma om_ok_distinct: "om_ok m \<Longrightarrow> distinct (map fst m)"
  by (simp add: strict_sorted_iff)

lemma map_of_om_insert [map_simps]: "map_of (om_insert k v m) = (map_of m)(k \<mapsto> v)"
  by (induction k v m rule: om_insert.induct) (auto simp: fun_eq_iff)

lemma map_of_om_erase [map_simps]: "map_of (om_erase k m) = (map_of m)(k := None)"
  by (induction m) (auto simp: om_erase_def fun_eq_iff)

lemma keys_om_insert [map_simps]: "fst ` set (om_insert k v m) = insert k (fst ` set m)"
  by (induction k v m rule: om_insert.induct) auto

lemma keys_om_erase [map_simps]: "fst ` set (om_erase k m) = fst ` set m - {k}"
  by (auto simp: om_erase_def)

lemma om_ok_insert [simp]: "om_ok m \<Longrightarrow> om_ok (om_insert k v m)"
proof (induction k v m rule: om_insert.induct)
  case (2 k v k' v' m)
  have "fst ` set (om_insert k v m) = insert k (fst ` set m)" by (rule keys_om_insert)
  with 2 show ?case by (auto simp: order.strict_trans)
qed simp

lemma om_ok_erase [simp]: "om_ok m \<Longrightarrow> om_ok (om_erase k m)"
  by (induction m) (auto simp: om_erase_def)

end
