(* ===== verification/Types.thy ===== *)
theory Types
  imports Prelude
begin

text \<open>
  The data the whole debugger shares: \<^verbatim>\<open>include/ocldbg/Types.h\<close>, \<^verbatim>\<open>OCLWorkItem.h\<close> and
  \<^verbatim>\<open>LocationBackend.h\<close>.  A work-item's execution context is a handle of the backend, here the type
  parameter \<open>'ctx\<close> under \<open>option\<close> (\<open>None\<close> is the null pointer).
\<close>

record size3 =
  dim_x :: size_t
  dim_y :: size_t
  dim_z :: size_t

abbreviation Size3 :: "size_t \<Rightarrow> size_t \<Rightarrow> size_t \<Rightarrow> size3" where
  "Size3 a b c \<equiv> \<lparr>dim_x = a, dim_y = b, dim_z = c\<rparr>"

definition size3_str :: "size3 \<Rightarrow> string" where
  "size3_str s = ''('' @ to_string (dim_x s) @ '','' @ to_string (dim_y s) @ '','' @ to_string (dim_z s) @ '')''"

record work_group_bound =
  wg_group_id :: size3
  min_wi :: size3
  max_wi :: size3
  item_count :: size_t

record work_item_mapping =
  map_global_id :: size3
  map_group_id :: size3
  map_local_id :: size3

record kernel_launch_info =
  li_kernel_name :: string
  li_work_dim :: size_t
  li_global_size :: size3
  li_local_size :: size3
  li_num_groups :: size3
  li_work_groups :: "work_group_bound list"
  li_sample_work_items :: "work_item_mapping list"

record source_location =
  loc_file :: string
  loc_line :: u32

abbreviation no_location :: source_location where
  "no_location \<equiv> \<lparr>loc_file = [], loc_line = 0\<rparr>"

record 'ctx ocl_work_item =
  global_id :: size3
  local_id :: size3
  group_id :: size3
  work_dim :: size_t
  location :: source_location
  function_name :: string
  exec_ctx :: "'ctx option"

definition empty_work_item :: "'ctx ocl_work_item" where
  "empty_work_item = \<lparr>global_id = Size3 0 0 0, local_id = Size3 0 0 0, group_id = Size3 0 0 0,
     work_dim = 0, location = no_location, function_name = [], exec_ctx = None\<rparr>"

definition work_item_valid :: "'ctx ocl_work_item \<Rightarrow> bool" where
  "work_item_valid wi \<longleftrightarrow> exec_ctx wi \<noteq> None"

definition work_item_str :: "'ctx ocl_work_item \<Rightarrow> string" where
  "work_item_str wi = ''WI'' @ size3_str (global_id wi) @ '' grp'' @ size3_str (group_id wi)"

record 'ctx ocl_stop_context =
  stopped :: "'ctx ocl_work_item"
  visible :: "'ctx ocl_work_item list"

record var_value =
  vv_name :: string
  vv_type_name :: string
  vv_value_str :: string
  vv_address_space :: string
  vv_available :: bool

definition empty_var_value :: var_value where
  "empty_var_value = \<lparr>vv_name = [], vv_type_name = [], vv_value_str = [], vv_address_space = [],
     vv_available = False\<rparr>"

record var_info =
  vi_name :: string
  vi_type_name :: string
  vi_address_space :: string
  vi_location_pc :: u64
  vi_dwarf_location_expr :: "u8 list"

text \<open>The idiom \<^verbatim>\<open>(v > 0) ? v : 1\<close> with which every user of a local size guards its divisions.\<close>

definition at_least_one :: "size_t \<Rightarrow> size_t" where
  "at_least_one v = (if v > 0 then v else 1)"

lemma at_least_one_pos [simp]: "0 < unat (at_least_one v)"
  by (simp add: at_least_one_def unat_gt_0 word_gt_0)

lemma at_least_one_not_0 [simp]: "at_least_one v \<noteq> 0"
  by (simp add: at_least_one_def word_gt_0)

lemma size3_collapse [simp]: "Size3 (dim_x g) (dim_y g) (dim_z g) = g"
  by (cases g) simp

lemma size3_eqI: "dim_x a = dim_x b \<Longrightarrow> dim_y a = dim_y b \<Longrightarrow> dim_z a = dim_z b \<Longrightarrow> a = (b :: size3)"
  by simp

end
