(* ===== verification/NDRange.thy ===== *)
theory NDRange
  imports Types
begin

text \<open>
  Launch bounds inferred from an NDRange: the helpers \<^verbatim>\<open>compute_work_groups\<close> and
  \<^verbatim>\<open>compute_sample_work_items\<close> of \<^verbatim>\<open>ocldbg/DebuggerContext.cpp\<close> and the part of
  \<^verbatim>\<open>infer_kernel_launch\<close> that divides the global range into work-groups.  All arithmetic is on
  \<^typ>\<open>size_t\<close> and wraps, as in the code; \<open>covers\<close> below says where it does not.
\<close>

section \<open>Definitions\<close>

text \<open>\<^verbatim>\<open>for (size_t g = 0; g < n; ++g)\<close>: the values of the loop counter.\<close>

definition counter :: "size_t \<Rightarrow> size_t list" where
  "counter n = map of_nat [0..<unat n]"

definition group_bound :: "size3 \<Rightarrow> size3 \<Rightarrow> size_t \<Rightarrow> size_t \<Rightarrow> size_t \<Rightarrow> work_group_bound" where
  "group_bound global_size local_size gx gy gz =
     (let lx = at_least_one (dim_x local_size);
          ly = at_least_one (dim_y local_size);
          lz = at_least_one (dim_z local_size);
          lo = Size3 (gx * lx) (gy * ly) (gz * lz);
          hi = Size3 (min (dim_x global_size) ((gx + 1) * lx) - 1)
                     (min (dim_y global_size) ((gy + 1) * ly) - 1)
                     (min (dim_z global_size) ((gz + 1) * lz) - 1);
          items = (((dim_x hi - dim_x lo) + 1) * ((dim_y hi - dim_y lo) + 1)) * ((dim_z hi - dim_z lo) + 1)
      in \<lparr>wg_group_id = Size3 gx gy gz, min_wi = lo, max_wi = hi, item_count = items\<rparr>)"

definition compute_work_groups :: "size3 \<Rightarrow> size3 \<Rightarrow> size3 \<Rightarrow> work_group_bound list" where
  "compute_work_groups global_size local_size num_wg =
     concat (map (\<lambda>gz. concat (map (\<lambda>gy. map (\<lambda>gx. group_bound global_size local_size gx gy gz)
       (counter (dim_x num_wg))) (counter (dim_y num_wg)))) (counter (dim_z num_wg)))"

definition sample_coords :: "size3 \<Rightarrow> size3 \<Rightarrow> size3 list" where
  "sample_coords global_size local_size =
     (let lx = at_least_one (dim_x local_size) in
      [Size3 0 0 0]
      @ (if lx > 1 then [Size3 (lx - 1) 0 0] else [])
      @ (if dim_x global_size > lx then [Size3 lx 0 0, Size3 (dim_x global_size - 1) 0 0] else [])
      @ (if dim_y global_size > 1 then [Size3 0 1 0] else [])
      @ (if dim_z global_size > 1 then [Size3 0 0 1] else []))"

definition map_work_item :: "size3 \<Rightarrow> size3 \<Rightarrow> work_item_mapping" where
  "map_work_item local_size gwi =
     (let lx = at_least_one (dim_x local_size);
          ly = at_least_one (dim_y local_size);
          lz = at_least_one (dim_z local_size)
      in \<lparr>map_global_id = gwi,
          map_group_id = Size3 (dim_x gwi div lx) (dim_y gwi div ly) (dim_z gwi div lz),
          map_local_id = Size3 (dim_x gwi mod lx) (dim_y gwi mod ly) (dim_z gwi mod lz)\<rparr>)"

definition compute_sample_work_items :: "size3 \<Rightarrow> size3 \<Rightarrow> work_item_mapping list" where
  "compute_sample_work_items global_size local_size =
     map (map_work_item local_size) (sample_coords global_size local_size)"

definition num_work_groups :: "size3 \<Rightarrow> size3 \<Rightarrow> size3" where
  "num_work_groups global_size local_size =
     (let lx = at_least_one (dim_x local_size);
          ly = at_least_one (dim_y local_size);
          lz = at_least_one (dim_z local_size)
      in Size3 (((dim_x global_size + lx) - 1) div lx)
               (((dim_y global_size + ly) - 1) div ly)
               (((dim_z global_size + lz) - 1) div lz))"

definition make_launch_info :: "string \<Rightarrow> size_t \<Rightarrow> size3 \<Rightarrow> size3 \<Rightarrow> kernel_launch_info" where
  "make_launch_info kname dim global_size local_size =
     (let num_wg = num_work_groups global_size local_size in
      \<lparr>li_kernel_name = kname, li_work_dim = dim, li_global_size = global_size,
       li_local_size = local_size, li_num_groups = num_wg,
       li_work_groups = compute_work_groups global_size local_size num_wg,
       li_sample_work_items = compute_sample_work_items global_size local_size\<rparr>)"

section \<open>One dimension, in natural numbers\<close>

text \<open>The specification of one dimension: group \<open>k\<close> holds the items from \<open>k * l\<close> up to \<open>min g ((k + 1) * l)\<close>.\<close>

definition fits :: "size_t \<Rightarrow> size_t \<Rightarrow> bool" where
  "fits g l \<longleftrightarrow> unat g + unat (at_least_one l) \<le> 2 ^ 64"

definition groups_1d :: "size_t \<Rightarrow> size_t \<Rightarrow> nat" where
  "groups_1d g l = (unat g + unat (at_least_one l) - 1) div unat (at_least_one l)"

definition items_1d :: "size_t \<Rightarrow> size_t \<Rightarrow> nat \<Rightarrow> nat" where
  "items_1d g l k = min (unat g) ((k + 1) * unat (at_least_one l)) - k * unat (at_least_one l)"

lemma unat_minus_one_word_64: "unat (- 1 :: size_t) = 18446744073709551615"
  by (simp add: unsigned_minus_1_eq_mask mask_eq_exp_minus_1)

lemma unat_num_groups_1d:
  assumes "fits g l"
  shows "unat (((g + at_least_one l) - 1) div at_least_one l) = groups_1d g l"
proof -
  let ?l = "at_least_one l"
  have l: "0 < unat ?l" by simp
  have "unat ((g + ?l) - 1) = unat g + unat ?l - 1"
  proof (cases "unat g + unat ?l = 2 ^ 64")
    case True
    then have "g + ?l = 0" by (simp add: word_unat_eq_iff unat_word_ariths)
    then have "(g + ?l) - 1 = - 1" by simp
    then show ?thesis using True by (simp add: unat_minus_one_word_64)
  next
    case False
    with assms have "unat g + unat ?l < 2 ^ 64" by (simp add: fits_def)
    then have s: "unat (g + ?l) = unat g + unat ?l" by (rule unat_plus_no_wrap)
    have "unat ((g + ?l) - 1) = unat (g + ?l) - unat (1 :: size_t)"
      by (rule unat_minus_no_wrap) (simp add: s Suc_le_eq)
    with s show ?thesis by simp
  qed
  then show ?thesis by (simp add: unat_div groups_1d_def)
qed

lemma group_start_nat:
  fixes g l k :: nat
  assumes "k < (g + l - 1) div l" "0 < l"
  shows "k * l < g" "(k + 1) * l < g + l"
proof -
  from assms(1) have "Suc k \<le> (g + l - 1) div l" by simp
  then have "Suc k * l \<le> g + l - 1" using assms(2) by (simp add: less_eq_div_iff_mult_less_eq)
  with assms(2) have "Suc k * l < g + l" by linarith
  then show "k * l < g" "(k + 1) * l < g + l" by simp_all
qed

lemma group_start_lt:
  assumes "k < groups_1d g l"
  shows "k * unat (at_least_one l) < unat g" and "(k + 1) * unat (at_least_one l) < unat g + unat (at_least_one l)"
  using group_start_nat [of k "unat g" "unat (at_least_one l)"] assms
  by (simp_all only: groups_1d_def at_least_one_pos simp_thms)

lemma group_words_1d:
  assumes "fits g l" "k < groups_1d g l"
  shows "unat (of_nat k * at_least_one l) = k * unat (at_least_one l)"
    and "unat (min g ((of_nat k + 1) * at_least_one l) - 1) =
           min (unat g) ((k + 1) * unat (at_least_one l)) - 1"
    and "unat ((min g ((of_nat k + 1) * at_least_one l) - 1 - of_nat k * at_least_one l) + 1) = items_1d g l k"
proof -
  let ?l = "at_least_one l"
  have l: "0 < unat ?l" by simp
  note b = group_start_lt [OF assms(2)]
  from assms(1) b(2) have bound: "(k + 1) * unat ?l < 2 ^ 64" by (simp add: fits_def)
  have "k + 1 \<le> (k + 1) * unat ?l" using l by (metis mult_le_mono2 Suc_leI One_nat_def mult.right_neutral)
  from le_less_trans [OF this bound] have k: "k + 1 < 2 ^ 64" .
  then have uk: "unat (of_nat k :: size_t) = k" "unat (of_nat k + 1 :: size_t) = k + 1"
    by (simp_all add: unat_of_nat unat_word_ariths)
  from bound have bound': "unat (of_nat k :: size_t) * unat ?l < 2 ^ 64" by (simp add: uk)
  show lo: "unat (of_nat k * ?l) = k * unat ?l"
    using unat_mult_no_wrap [OF bound'] by (simp add: uk)
  have hi: "unat ((of_nat k + 1) * ?l) = (k + 1) * unat ?l"
    using unat_mult_no_wrap [of "of_nat k + 1" ?l] bound by (simp add: uk)
  have m: "unat (min g ((of_nat k + 1) * ?l)) = min (unat g) ((k + 1) * unat ?l)"
    by (simp add: min_def word_le_nat_alt hi)
  have mpos: "k * unat ?l < min (unat g) ((k + 1) * unat ?l)" using b(1) l by simp
  show max: "unat (min g ((of_nat k + 1) * ?l) - 1) = min (unat g) ((k + 1) * unat ?l) - 1"
    using mpos by (subst unat_minus_no_wrap) (simp_all add: m Suc_le_eq)
  from mpos have le: "k * unat ?l \<le> min (unat g) ((k + 1) * unat ?l) - 1" by linarith
  have "unat (min g ((of_nat k + 1) * ?l) - 1 - of_nat k * ?l) =
          min (unat g) ((k + 1) * unat ?l) - 1 - k * unat ?l"
    by (subst unat_minus_no_wrap) (simp_all only: max lo le)
  then have d: "unat (min g ((of_nat k + 1) * ?l) - 1 - of_nat k * ?l) = items_1d g l k - 1"
    by (simp only: items_1d_def diff_diff_left add.commute)
  have pos: "1 \<le> items_1d g l k" and "items_1d g l k \<le> unat g"
    unfolding items_1d_def using mpos by linarith+
  then have "items_1d g l k < 2 ^ 64" using unat_lt64 [of g] by (simp, linarith)
  moreover have "unat (min g ((of_nat k + 1) * ?l) - 1 - of_nat k * ?l) + unat (1 :: size_t) = items_1d g l k"
    unfolding d using pos by simp
  ultimately show "unat ((min g ((of_nat k + 1) * ?l) - 1 - of_nat k * ?l) + 1) = items_1d g l k"
    by (simp only: unat_plus_no_wrap)
qed

lemma sum_min_telescope:
  fixes g l :: nat
  shows "(\<Sum>k<n. min g ((k + 1) * l) - min g (k * l)) = min g (n * l)"
proof (induction n)
  case (Suc n)
  have "min g (n * l) \<le> min g ((n + 1) * l)" by (intro min.mono) simp_all
  with Suc show ?case by simp
qed simp

lemma sum_items_1d: "(\<Sum>k<groups_1d g l. items_1d g l k) = unat g"
proof -
  let ?l = "unat (at_least_one l)" and ?n = "groups_1d g l"
  have "(\<Sum>k<?n. items_1d g l k) = (\<Sum>k<?n. min (unat g) ((k + 1) * ?l) - min (unat g) (k * ?l))"
    by (rule sum.cong) (auto simp: items_1d_def dest!: group_start_lt(1))
  also have "\<dots> = min (unat g) (?n * ?l)" by (rule sum_min_telescope)
  also have "unat g \<le> ?n * ?l"
  proof -
    have l: "0 < ?l" by simp
    have "unat g + ?l - 1 < ?n * ?l + ?l"
      unfolding groups_1d_def using l by (metis add.commute dividend_less_div_times)
    with l show ?thesis by linarith
  qed
  then have "min (unat g) (?n * ?l) = unat g" by simp
  finally show ?thesis .
qed

text \<open>An item lies in the box of group \<open>k\<close> exactly when \<open>k\<close> is its quotient by the local size.\<close>

lemma in_box_nat:
  fixes g l k w :: nat
  assumes "0 < l" "w < g"
  shows "k * l \<le> w \<and> w \<le> min g ((k + 1) * l) - 1 \<longleftrightarrow> k = w div l"
proof -
  have "0 < (k + 1) * l" using assms(1) by simp
  with assms(2) have "w \<le> min g ((k + 1) * l) - 1 \<longleftrightarrow> w < (k + 1) * l" by linarith
  moreover have "k * l \<le> w \<and> w < (k + 1) * l \<longleftrightarrow> k = w div l"
  proof
    assume "k * l \<le> w \<and> w < (k + 1) * l"
    then show "k = w div l" by (metis Suc_eq_plus1 div_nat_eqI mult.commute)
  next
    assume "k = w div l"
    then show "k * l \<le> w \<and> w < (k + 1) * l"
      using assms(1) by (metis Suc_eq_plus1 div_times_less_eq_dividend dividend_less_div_times add.commute mult_Suc)
  qed
  ultimately show ?thesis by blast
qed

lemma in_group_1d:
  assumes "fits g l" "k < groups_1d g l" "w < g"
  shows "of_nat k * at_least_one l \<le> w \<and> w \<le> min g ((of_nat k + 1) * at_least_one l) - 1
         \<longleftrightarrow> k = unat (w div at_least_one l)"
proof -
  let ?l = "unat (at_least_one l)"
  note W = group_words_1d [OF assms(1,2)]
  have w: "unat w < unat g" using assms(3) by (simp add: word_less_nat_alt)
  have "of_nat k * at_least_one l \<le> w \<and> w \<le> min g ((of_nat k + 1) * at_least_one l) - 1
        \<longleftrightarrow> k * ?l \<le> unat w \<and> unat w \<le> min (unat g) ((k + 1) * ?l) - 1"
    by (simp only: word_le_nat_alt W)
  also have "\<dots> \<longleftrightarrow> k = unat w div ?l"
    by (rule in_box_nat) (use w in simp_all)
  finally show ?thesis by (simp add: unat_div)
qed

lemma quotient_lt_nat:
  fixes g l w :: nat
  assumes "0 < l" "w < g"
  shows "w div l < (g + l - 1) div l"
proof -
  have "(w + l) div l \<le> (g + l - 1) div l" using assms(2) by (intro div_le_mono) simp
  moreover have "(w + l) div l = w div l + 1" using assms(1) by (metis div_add_self2 less_not_refl)
  ultimately show ?thesis by linarith
qed

lemma quotient_lt_groups:
  assumes "w < g"
  shows "unat (w div at_least_one l) < groups_1d g l"
  using assms quotient_lt_nat [of "unat (at_least_one l)" "unat w" "unat g"]
  by (simp add: unat_div groups_1d_def word_less_nat_alt)

section \<open>The loop nest\<close>

lemma set_counter [simp]: "a \<in> set (counter n) \<longleftrightarrow> a < n"
proof
  assume "a \<in> set (counter n)"
  then obtain k where k: "k < unat n" "a = of_nat k" by (auto simp: counter_def)
  then have "k < 18446744073709551616" using unat_lt64 [of n] by linarith
  with k(2) have "unat a = k" by (simp add: unat_of_nat)
  with k show "a < n" by (simp add: word_less_nat_alt)
next
  assume "a < n"
  then have "unat a < unat n" by (simp add: word_less_nat_alt)
  then show "a \<in> set (counter n)" by (force simp: counter_def intro: image_eqI [of _ _ "unat a"])
qed

lemma unat_of_nat_counter: "k < unat (n :: size_t) \<Longrightarrow> unat (of_nat k :: size_t) = k"
  using less_trans [OF _ unat_lt64 [of n]] by (simp add: unat_of_nat)

lemma distinct_counter [simp]: "distinct (counter n)"
  unfolding counter_def
  by (auto simp: distinct_map inj_on_def) (metis unat_of_nat_counter)

lemma length_counter [simp]: "length (counter n) = unat n"
  by (simp add: counter_def)

lemma sum_list_counter: "sum_list (map f (counter n)) = (\<Sum>k<unat n. f (of_nat k))"
  by (simp add: counter_def o_def interv_sum_list_conv_sum_set_nat atLeast0LessThan)

lemma filter_map_single:
  assumes "distinct xs" "a \<in> set xs" "\<And>x. x \<in> set xs \<Longrightarrow> P (f x) \<longleftrightarrow> x = a"
  shows "filter P (map f xs) = [f a]"
  using assms
proof (induction xs)
  case (Cons x xs)
  show ?case
  proof (cases "x = a")
    case True
    with Cons have "filter P (map f xs) = []" by (auto simp: filter_empty_conv)
    with True Cons show ?thesis by simp
  next
    case False
    with Cons show ?thesis by simp
  qed
qed simp

lemma concat_map_single:
  assumes "distinct xs" "a \<in> set xs" "\<And>x. x \<in> set xs \<Longrightarrow> x \<noteq> a \<Longrightarrow> f x = []"
  shows "concat (map f xs) = f a"
  using assms
proof (induction xs)
  case (Cons x xs)
  show ?case
  proof (cases "x = a")
    case True
    with Cons have "concat (map f xs) = []" by auto
    with True show ?thesis by simp
  next
    case False
    with Cons show ?thesis by simp
  qed
qed simp

lemma filter_loop_nest:
  assumes "distinct xs" "distinct ys" "distinct zs" "a \<in> set xs" "b \<in> set ys" "c \<in> set zs"
    and P: "\<And>x y z. x \<in> set xs \<Longrightarrow> y \<in> set ys \<Longrightarrow> z \<in> set zs \<Longrightarrow> P (f x y z) \<longleftrightarrow> x = a \<and> y = b \<and> z = c"
  shows "filter P (concat (map (\<lambda>z. concat (map (\<lambda>y. map (\<lambda>x. f x y z) xs) ys)) zs)) = [f a b c]"
proof -
  let ?row = "\<lambda>y z. filter P (map (\<lambda>x. f x y z) xs)"
  have row: "?row y z = (if y = b \<and> z = c then [f a b c] else [])" if "y \<in> set ys" "z \<in> set zs" for y z
  proof (cases "y = b \<and> z = c")
    case True
    then show ?thesis
      using filter_map_single [of xs a P "\<lambda>x. f x b c"] assms by simp
  next
    case False
    then show ?thesis using P that by (auto simp: filter_empty_conv)
  qed
  have plane: "concat (map (\<lambda>y. ?row y z) ys) = (if z = c then [f a b c] else [])" if "z \<in> set zs" for z
  proof (cases "z = c")
    case True
    then show ?thesis
      using concat_map_single [of ys b "\<lambda>y. ?row y c"] assms(2,5,6) row by simp
  next
    case False
    then show ?thesis using row that by auto
  qed
  have "filter P (concat (map (\<lambda>z. concat (map (\<lambda>y. map (\<lambda>x. f x y z) xs) ys)) zs))
      = concat (map (\<lambda>z. concat (map (\<lambda>y. ?row y z) ys)) zs)"
    by (simp add: filter_concat o_def)
  also have "\<dots> = [f a b c]"
    using concat_map_single [of zs c "\<lambda>z. concat (map (\<lambda>y. ?row y z) ys)"] assms(3,6) plane by simp
  finally show ?thesis .
qed

lemma sum_list_map_concat: "sum_list (map h (concat xss)) = sum_list (map (\<lambda>xs. sum_list (map h xs)) xss)"
  by (induction xss) simp_all

lemma sum_loop_nest:
  fixes A B C :: "'a \<Rightarrow> nat"
  assumes "\<And>x y z. x \<in> set xs \<Longrightarrow> y \<in> set ys \<Longrightarrow> z \<in> set zs \<Longrightarrow> h (f x y z) = A x * B y * C z"
  shows "sum_list (map h (concat (map (\<lambda>z. concat (map (\<lambda>y. map (\<lambda>x. f x y z) xs) ys)) zs)))
    = sum_list (map A xs) * sum_list (map B ys) * sum_list (map C zs)"
proof -
  have row: "sum_list (map h (map (\<lambda>x. f x y z) xs)) = sum_list (map A xs) * (B y * C z)"
    if "y \<in> set ys" "z \<in> set zs" for y z
  proof -
    have "map h (map (\<lambda>x. f x y z) xs) = map (\<lambda>x. A x * (B y * C z)) xs"
      using assms that by (simp add: mult.assoc)
    then show ?thesis by (simp only: sum_list_mult_const)
  qed
  have plane: "sum_list (map (\<lambda>y. sum_list (map h (map (\<lambda>x. f x y z) xs))) ys)
      = sum_list (map A xs) * sum_list (map B ys) * C z" if "z \<in> set zs" for z
  proof -
    have "map (\<lambda>y. sum_list (map h (map (\<lambda>x. f x y z) xs))) ys
        = map (\<lambda>y. B y * (sum_list (map A xs) * C z)) ys"
      using row that by (simp add: ac_simps)
    then show ?thesis by (simp only: sum_list_mult_const) (simp add: ac_simps)
  qed
  have "map (\<lambda>z. sum_list (map (\<lambda>y. sum_list (map h (map (\<lambda>x. f x y z) xs))) ys)) zs
      = map (\<lambda>z. C z * (sum_list (map A xs) * sum_list (map B ys))) zs"
    using plane by (simp add: ac_simps)
  then show ?thesis
    by (simp only: sum_list_map_concat map_map o_def sum_list_mult_const) (simp add: ac_simps)
qed

section \<open>The work-groups partition the NDRange\<close>

definition launch_fits :: "size3 \<Rightarrow> size3 \<Rightarrow> bool" where
  "launch_fits g l \<longleftrightarrow> fits (dim_x g) (dim_x l) \<and> fits (dim_y g) (dim_y l) \<and> fits (dim_z g) (dim_z l)"

definition in_range :: "size3 \<Rightarrow> size3 \<Rightarrow> bool" where
  "in_range w g \<longleftrightarrow> dim_x w < dim_x g \<and> dim_y w < dim_y g \<and> dim_z w < dim_z g"

definition in_bound :: "size3 \<Rightarrow> work_group_bound \<Rightarrow> bool" where
  "in_bound w b \<longleftrightarrow> dim_x (min_wi b) \<le> dim_x w \<and> dim_x w \<le> dim_x (max_wi b)
     \<and> dim_y (min_wi b) \<le> dim_y w \<and> dim_y w \<le> dim_y (max_wi b)
     \<and> dim_z (min_wi b) \<le> dim_z w \<and> dim_z w \<le> dim_z (max_wi b)"

lemma in_group_word:
  assumes "fits g l" "w < g" "k < ((g + at_least_one l) - 1) div at_least_one l"
  shows "k * at_least_one l \<le> w \<and> w \<le> min g ((k + 1) * at_least_one l) - 1 \<longleftrightarrow> k = w div at_least_one l"
proof -
  have k: "unat k < groups_1d g l"
    using assms(3) by (simp only: word_less_nat_alt unat_num_groups_1d [OF assms(1)])
  show ?thesis
    using in_group_1d [OF assms(1) k assms(2)] by (simp add: word_unat_eq_iff)
qed

lemma quotient_lt_word:
  assumes "fits g l" "w < g"
  shows "w div at_least_one l < ((g + at_least_one l) - 1) div at_least_one l"
  using quotient_lt_groups [OF assms(2)] by (simp only: word_less_nat_alt unat_num_groups_1d [OF assms(1)])

lemma in_bound_group_bound:
  assumes "launch_fits g l" "in_range w g"
    and "a < dim_x (num_work_groups g l)" "b < dim_y (num_work_groups g l)" "c < dim_z (num_work_groups g l)"
  shows "in_bound w (group_bound g l a b c) \<longleftrightarrow>
    a = dim_x w div at_least_one (dim_x l) \<and> b = dim_y w div at_least_one (dim_y l)
    \<and> c = dim_z w div at_least_one (dim_z l)"
  using assms in_group_word [of "dim_x g" "dim_x l" "dim_x w" a]
    in_group_word [of "dim_y g" "dim_y l" "dim_y w" b] in_group_word [of "dim_z g" "dim_z l" "dim_z w" c]
  unfolding in_bound_def group_bound_def Let_def launch_fits_def in_range_def num_work_groups_def
  by (simp only: size3.select_convs work_group_bound.select_convs) blast

text \<open>
  C32.  Every work-item of the NDRange lies in exactly one of the computed work-group bounds, namely
  the one of the group obtained by dividing its coordinates by the local size (which is also the
  group \<open>map_work_item\<close> reports), whenever no dimension's rounding-up overflows \<^verbatim>\<open>size_t\<close>.
\<close>

theorem work_groups_partition:
  assumes "launch_fits g l" "in_range w g"
  shows "\<exists>b. filter (in_bound w) (compute_work_groups g l (num_work_groups g l)) = [b]
             \<and> wg_group_id b = map_group_id (map_work_item l w)"
proof -
  let ?a = "dim_x w div at_least_one (dim_x l)" and ?b = "dim_y w div at_least_one (dim_y l)"
    and ?c = "dim_z w div at_least_one (dim_z l)" and ?n = "num_work_groups g l"
  have lt: "?a < dim_x ?n" "?b < dim_y ?n" "?c < dim_z ?n"
    using assms by (simp_all add: num_work_groups_def Let_def launch_fits_def in_range_def quotient_lt_word)
  have "filter (in_bound w) (compute_work_groups g l ?n) = [group_bound g l ?a ?b ?c]"
    unfolding compute_work_groups_def
    by (rule filter_loop_nest) (use lt assms in_bound_group_bound in simp_all)
  then show ?thesis by (simp add: group_bound_def map_work_item_def Let_def)
qed

theorem work_groups_partition_witness:
  "launch_fits (Size3 10 3 1) (Size3 4 2 0) \<and> in_range (Size3 9 2 0) (Size3 10 3 1)
   \<and> (\<exists>b. filter (in_bound (Size3 9 2 0))
            (compute_work_groups (Size3 10 3 1) (Size3 4 2 0) (num_work_groups (Size3 10 3 1) (Size3 4 2 0))) = [b]
          \<and> wg_group_id b = map_group_id (map_work_item (Size3 4 2 0) (Size3 9 2 0)))"
proof -
  have h: "launch_fits (Size3 10 3 1) (Size3 4 2 0)" "in_range (Size3 9 2 0) (Size3 10 3 1)"
    by (simp_all add: launch_fits_def fits_def at_least_one_def in_range_def)
  show ?thesis using h work_groups_partition [OF h] by simp
qed

lemma unat_item_count:
  assumes "launch_fits g l"
    and total: "unat (dim_x g) * unat (dim_y g) * unat (dim_z g) < 2 ^ 64"
    and "a < dim_x (num_work_groups g l)" "b < dim_y (num_work_groups g l)" "c < dim_z (num_work_groups g l)"
  shows "unat (item_count (group_bound g l a b c)) =
    items_1d (dim_x g) (dim_x l) (unat a) * items_1d (dim_y g) (dim_y l) (unat b)
    * items_1d (dim_z g) (dim_z l) (unat c)"
proof -
  have k: "unat a < groups_1d (dim_x g) (dim_x l)" "unat b < groups_1d (dim_y g) (dim_y l)"
    "unat c < groups_1d (dim_z g) (dim_z l)"
    using assms by (simp_all add: num_work_groups_def Let_def launch_fits_def word_less_nat_alt unat_num_groups_1d)
  let ?X = "items_1d (dim_x g) (dim_x l) (unat a)" and ?Y = "items_1d (dim_y g) (dim_y l) (unat b)"
    and ?Z = "items_1d (dim_z g) (dim_z l) (unat c)"
  have le: "?X \<le> unat (dim_x g)" "?Y \<le> unat (dim_y g)" "?Z \<le> unat (dim_z g)"
    by (simp_all add: items_1d_def)
  have "?X * ?Y * ?Z \<le> unat (dim_x g) * unat (dim_y g) * unat (dim_z g)"
    using le by (intro mult_le_mono)
  with total have xyz: "?X * ?Y * ?Z < 2 ^ 64" by simp
  have "0 < ?Z" using group_start_lt(1) [OF k(3)] by (simp add: items_1d_def)
  then have "?X * ?Y \<le> ?X * ?Y * ?Z" by simp
  from le_less_trans [OF this xyz] have xy: "?X * ?Y < 2 ^ 64" .
  note W = group_words_1d(3) [OF _ k(1)] group_words_1d(3) [OF _ k(2)] group_words_1d(3) [OF _ k(3)]
  show ?thesis
    using assms(1) xyz xy W
    by (simp add: group_bound_def Let_def launch_fits_def unat_mult_no_wrap)
qed

lemma sum_items_counter:
  assumes "fits g l"
  shows "sum_list (map (\<lambda>k. items_1d g l (unat k)) (counter (((g + at_least_one l) - 1) div at_least_one l)))
    = unat g"
proof -
  let ?n = "((g + at_least_one l) - 1) div at_least_one l"
  have "sum_list (map (\<lambda>k. items_1d g l (unat k)) (counter ?n)) = (\<Sum>k<unat ?n. items_1d g l (unat (of_nat k :: size_t)))"
    by (rule sum_list_counter)
  also have "\<dots> = (\<Sum>k<unat ?n. items_1d g l k)"
    by (rule sum.cong) (simp_all add: unat_of_nat_counter [where n = ?n])
  also have "\<dots> = unat g" unfolding unat_num_groups_1d [OF assms] by (rule sum_items_1d)
  finally show ?thesis .
qed

text \<open>
  The item counts of the computed work-groups add up to the size of the NDRange: a group at the
  edge of a range that the local size does not divide is counted with its real, smaller size.
\<close>

theorem work_groups_item_total:
  assumes "launch_fits g l"
    and "unat (dim_x g) * unat (dim_y g) * unat (dim_z g) < 2 ^ 64"
  shows "sum_list (map (\<lambda>b. unat (item_count b)) (compute_work_groups g l (num_work_groups g l)))
    = unat (dim_x g) * unat (dim_y g) * unat (dim_z g)"
proof -
  let ?n = "num_work_groups g l"
  have "sum_list (map (\<lambda>b. unat (item_count b)) (compute_work_groups g l ?n)) =
    sum_list (map (\<lambda>k. items_1d (dim_x g) (dim_x l) (unat k)) (counter (dim_x ?n)))
    * sum_list (map (\<lambda>k. items_1d (dim_y g) (dim_y l) (unat k)) (counter (dim_y ?n)))
    * sum_list (map (\<lambda>k. items_1d (dim_z g) (dim_z l) (unat k)) (counter (dim_z ?n)))"
    unfolding compute_work_groups_def
    by (rule sum_loop_nest) (simp add: unat_item_count [OF assms])
  then show ?thesis
    using assms(1) by (simp add: num_work_groups_def Let_def launch_fits_def sum_items_counter)
qed

theorem work_groups_item_total_witness:
  "sum_list (map (\<lambda>b. unat (item_count b))
     (compute_work_groups (Size3 10 3 1) (Size3 4 2 0) (num_work_groups (Size3 10 3 1) (Size3 4 2 0)))) = 30"
proof -
  have h: "launch_fits (Size3 10 3 1) (Size3 4 2 0)"
    by (simp add: launch_fits_def fits_def at_least_one_def)
  show ?thesis using work_groups_item_total [OF h] by simp
qed

text \<open>The loop nest visits the groups with the x coordinate varying fastest.\<close>

lemma length_concat_const: "(\<And>x. x \<in> set xs \<Longrightarrow> length (f x) = n) \<Longrightarrow> length (concat (map f xs)) = length xs * n"
  by (induction xs) simp_all

lemma length_compute_work_groups:
  "length (compute_work_groups g l n) = unat (dim_z n) * (unat (dim_y n) * unat (dim_x n))"
  by (simp add: compute_work_groups_def length_concat_const [where n = "unat (dim_x n)"]
      length_concat_const [where n = "unat (dim_y n) * unat (dim_x n)"])

text \<open>
  The sample mapping printed for a launch is the decomposition it claims: in every dimension
  the global coordinate is group times local size plus local coordinate, with the local coordinate
  below the local size.
\<close>

theorem sample_mapping_decomposes:
  "\<forall>m \<in> set (compute_sample_work_items g l).
     dim_x (map_global_id m) = dim_x (map_group_id m) * at_least_one (dim_x l) + dim_x (map_local_id m)
   \<and> dim_y (map_global_id m) = dim_y (map_group_id m) * at_least_one (dim_y l) + dim_y (map_local_id m)
   \<and> dim_z (map_global_id m) = dim_z (map_group_id m) * at_least_one (dim_z l) + dim_z (map_local_id m)
   \<and> dim_x (map_local_id m) < at_least_one (dim_x l)
   \<and> dim_y (map_local_id m) < at_least_one (dim_y l)
   \<and> dim_z (map_local_id m) < at_least_one (dim_z l)"
  by (auto simp: compute_sample_work_items_def map_work_item_def Let_def word_gt_0 word_mod_div_equality
      intro!: word_mod_less_divisor)

theorem sample_mapping_decomposes_witness:
  "\<exists>m \<in> set (compute_sample_work_items (Size3 8 2 1) (Size3 4 1 1)). map_global_id m = Size3 7 0 0
     \<and> dim_x (map_global_id m) = dim_x (map_group_id m) * at_least_one 4 + dim_x (map_local_id m)"
proof -
  have "map_work_item (Size3 4 1 1) (Size3 7 0 0) \<in> set (compute_sample_work_items (Size3 8 2 1) (Size3 4 1 1))"
    by (simp add: compute_sample_work_items_def sample_coords_def at_least_one_def Let_def)
  moreover from this have "dim_x (map_global_id (map_work_item (Size3 4 1 1) (Size3 7 0 0)))
      = dim_x (map_group_id (map_work_item (Size3 4 1 1) (Size3 7 0 0))) * at_least_one 4
        + dim_x (map_local_id (map_work_item (Size3 4 1 1) (Size3 7 0 0)))"
    using sample_mapping_decomposes [of "Size3 8 2 1" "Size3 4 1 1"] by fastforce
  ultimately show ?thesis by (auto simp: map_work_item_def Let_def intro!: bexI)
qed

end
