(* ===== verification/CPUABI.thy ===== *)
theory CPUABI
  imports NDRange
begin

text \<open>
  \<^verbatim>\<open>ocldbg/backends/cpu/CPUABI.{h,cpp}\<close>, its two architectures, and \<^verbatim>\<open>WIContextExtractor.cpp\<close>: reading
  launches, work-groups and work-items out of host frames.  LLDB is third-party code: a frame is the
  record of the answers it gives (\<open>None\<close> for an invalid object), and a process is what a read of 8
  bytes of its memory returns (0 on failure).
\<close>

section \<open>LLDB's answers\<close>

record lldb_frame =
  fr_valid :: bool
  fr_register :: "string \<Rightarrow> u64 option"
  fr_variable :: "string \<Rightarrow> u64 option"
  fr_line_entry :: "(u32 \<times> string option) option"   \<comment> \<open>line and file name\<close>
  fr_function :: "string option"
  fr_thread_id :: u64
  fr_pc :: u64
  fr_evaluate :: "string \<Rightarrow> string option"          \<comment> \<open>summary of an expression's value, if it evaluates\<close>

datatype stop_reason = Stop_none | Stop_breakpoint | Stop_plan_complete | Stop_signal | Stop_exception | Stop_other

datatype process_state = State_stopped | State_exited | State_crashed | State_other

record lldb_thread =
  th_valid :: bool
  th_id :: u64
  th_reason :: stop_reason
  th_reason_data :: u64                  \<comment> \<open>\<^verbatim>\<open>GetStopReasonDataAtIndex(0)\<close>\<close>
  th_selected_frame :: lldb_frame
  th_frame_0 :: lldb_frame

record lldb_process =
  pr_valid :: bool
  pr_state :: process_state
  pr_threads :: "lldb_thread list"
  pr_selected :: lldb_thread
  pr_read_u64 :: "u64 \<Rightarrow> u64"

text \<open>\<^verbatim>\<open>GetSelectedFrame\<close>, and frame 0 if that is not valid.\<close>

definition selected_or_first_frame :: "lldb_thread \<Rightarrow> lldb_frame" where
  "selected_or_first_frame t = (if fr_valid (th_selected_frame t) then th_selected_frame t else th_frame_0 t)"

section \<open>The shared part\<close>

definition kArgKernel :: nat where "kArgKernel = 1"
definition kArgWorkDim :: nat where "kArgWorkDim = 2"
definition kArgGlobalSize :: nat where "kArgGlobalSize = 4"
definition kArgLocalSize :: nat where "kArgLocalSize = 5"
definition kArgGroupX :: nat where "kArgGroupX = 2"
definition kArgGroupY :: nat where "kArgGroupY = 3"
definition kArgGroupZ :: nat where "kArgGroupZ = 4"

definition kMaxPlausibleGroupId :: u64 where "kMaxPlausibleGroupId = 0x100000"

lemmas abi_consts = kArgKernel_def kArgWorkDim_def kArgGlobalSize_def kArgLocalSize_def kArgGroupX_def kArgGroupY_def
  kArgGroupZ_def

record arg_registers =
  reg64 :: "string list"
  reg32 :: "string list"

text \<open>The virtual functions of \<^verbatim>\<open>CPUABI\<close>.\<close>

record cpu_abi =
  abi_args :: arg_registers
  abi_register_name :: "nat \<Rightarrow> string option"
  abi_local_id :: "lldb_frame \<Rightarrow> size3 \<Rightarrow> size3 option"

definition read_register :: "lldb_frame \<Rightarrow> string option \<Rightarrow> string option \<Rightarrow> u64 option" where
  "read_register f r64 r32 =
     (if \<not> fr_valid f then None
      else case Option.bind r64 (fr_register f) of
        Some v \<Rightarrow> Some v
      | None \<Rightarrow> Option.bind r32 (fr_register f))"

text \<open>The register's value, 0 when it is not found.\<close>

definition register_or_0 :: "u64 option \<Rightarrow> u64" where
  "register_or_0 r = (case r of None \<Rightarrow> 0 | Some v \<Rightarrow> v)"

definition read_size_array :: "lldb_process \<Rightarrow> u64 \<Rightarrow> u64 \<Rightarrow> size3" where
  "read_size_array pr wdim ptr =
     Size3 (pr_read_u64 pr ptr)
       (if wdim > 1 then pr_read_u64 pr (ptr + 8) else 1)
       (if wdim > 2 then pr_read_u64 pr (ptr + 2 * 8) else 1)"

definition read_enqueue_ndrange :: "cpu_abi \<Rightarrow> lldb_process \<Rightarrow> lldb_frame \<Rightarrow> (size3 \<times> size3 \<times> size_t) option" where
  "read_enqueue_ndrange abi pr f =
     (if \<not> pr_valid pr \<or> \<not> fr_valid f then None
      else let regs = abi_args abi;
               dim = read_register f (Some (reg64 regs ! kArgWorkDim)) (Some (reg32 regs ! kArgWorkDim));
               wdim = (if dim = None \<or> dim = Some 0 then 1 else register_or_0 dim);
               g_ptr = read_register f (Some (reg64 regs ! kArgGlobalSize)) None
           in if g_ptr = None \<or> g_ptr = Some 0 then None
              else let l_ptr = register_or_0 (read_register f (Some (reg64 regs ! kArgLocalSize)) None)
                   in Some (read_size_array pr wdim (register_or_0 g_ptr),
                            if l_ptr \<noteq> 0 then read_size_array pr wdim l_ptr else Size3 1 1 1,
                            wdim))"

definition hex_digit :: "nat \<Rightarrow> char" where
  "hex_digit d = (if d < 10 then char_of (48 + d) else char_of (87 + d))"

fun hex_of_nat :: "nat \<Rightarrow> string" where
  "hex_of_nat n = (if n < 16 then [hex_digit n] else hex_of_nat (n div 16) @ [hex_digit (n mod 16)])"

declare hex_of_nat.simps [simp del]

text \<open>The expression asked of the debuggee, with \<^verbatim>\<open>{:#x}\<close> printing the kernel's address.\<close>

definition kernel_name_expr :: "u64 \<Rightarrow> string" where
  "kernel_name_expr kernel_ptr =
     ''char __kname[128] = {0}; ((int('' @ [CHR 0x2A] @ '')(void*, int, unsigned long, void*, void*))clGetKernelInfo)((void*)''
     @ ''0x'' @ hex_of_nat (unat kernel_ptr) @ '', 0x1190, 128, __kname, (void*)0); __kname''"

definition unquote :: "string \<Rightarrow> string" where
  "unquote s = (if length s \<ge> 2 \<and> hd s = CHR 0x22 \<and> last s = CHR 0x22 then butlast (tl s) else s)"

definition read_enqueue_kernel_name :: "cpu_abi \<Rightarrow> lldb_process \<Rightarrow> lldb_frame \<Rightarrow> string option" where
  "read_enqueue_kernel_name abi pr f =
     (if \<not> pr_valid pr \<or> \<not> fr_valid f then None
      else let kernel_ptr = read_register f (Some (reg64 (abi_args abi) ! kArgKernel)) None
           in if kernel_ptr = None \<or> kernel_ptr = Some 0 then None
              else case fr_evaluate f (kernel_name_expr (register_or_0 kernel_ptr)) of
                None \<Rightarrow> None
              | Some summary \<Rightarrow> let name = unquote summary in if name = [] then None else Some name)"

definition plausible_group :: "u64 option \<Rightarrow> u64" where
  "plausible_group g = (case g of None \<Rightarrow> 0 | Some v \<Rightarrow> if v < kMaxPlausibleGroupId then v else 0)"

definition read_workgroup_id :: "cpu_abi \<Rightarrow> lldb_frame \<Rightarrow> size3 option" where
  "read_workgroup_id abi f =
     (if \<not> fr_valid f then None
      else let regs = abi_args abi;
               gx = read_register f (Some (reg64 regs ! kArgGroupX)) (Some (reg32 regs ! kArgGroupX));
               gy = read_register f (Some (reg64 regs ! kArgGroupY)) (Some (reg32 regs ! kArgGroupY));
               gz = read_register f (Some (reg64 regs ! kArgGroupZ)) (Some (reg32 regs ! kArgGroupZ))
           in case gx of None \<Rightarrow> None | Some x \<Rightarrow> Some (Size3 x (plausible_group gy) (plausible_group gz)))"

fun first_variable :: "lldb_frame \<Rightarrow> string list \<Rightarrow> u64 option" where
  "first_variable f [] = None"
| "first_variable f (name # names) = (case fr_variable f name of Some v \<Rightarrow> Some v | None \<Rightarrow> first_variable f names)"

definition read_local_id_from_variables :: "lldb_frame \<Rightarrow> size3 \<Rightarrow> size3 option" where
  "read_local_id_from_variables f local_size =
     (case first_variable f [''_local_id_x'', ''local_id_x'', ''local_id'', ''_local_id''] of
        Some v \<Rightarrow> Some (Size3 v 0 0)
      | None \<Rightarrow> (case first_variable f [''gx'', ''global_id_x'', ''global_id'', ''_global_id_x''] of
          Some v \<Rightarrow> Some (Size3 (v mod at_least_one (dim_x local_size)) 0 0)
        | None \<Rightarrow> None))"

section \<open>x86-64\<close>

definition x86_arg_registers :: arg_registers where
  "x86_arg_registers = \<lparr>reg64 = [''rdi'', ''rsi'', ''rdx'', ''rcx'', ''r8'', ''r9''],
     reg32 = [''edi'', ''esi'', ''edx'', ''ecx'', ''r8d'', ''r9d'']\<rparr>"

definition x86_registers :: "string list" where
  "x86_registers = [''rax'', ''rdx'', ''rcx'', ''rbx'', ''rsi'', ''rdi'', ''rbp'', ''rsp'', ''r8'', ''r9'', ''r10'',
     ''r11'', ''r12'', ''r13'', ''r14'', ''r15'', ''rip'', ''xmm0'', ''xmm1'', ''xmm2'', ''xmm3'', ''xmm4'',
     ''xmm5'', ''xmm6'', ''xmm7'', ''xmm8'', ''xmm9'', ''xmm10'', ''xmm11'', ''xmm12'', ''xmm13'', ''xmm14'']"

definition x86_register_name :: "nat \<Rightarrow> string option" where
  "x86_register_name n = (if n < length x86_registers then Some (x86_registers ! n) else None)"

text \<open>The ladder of induction registers, after the variables.\<close>

fun induction_local_id :: "lldb_frame \<Rightarrow> size3 \<Rightarrow> (string \<times> string) list \<Rightarrow> size3" where
  "induction_local_id f local_size [] = Size3 0 0 0"
| "induction_local_id f local_size ((r64, r32) # regs) =
     (case read_register f (Some r64) (Some r32) of
        None \<Rightarrow> induction_local_id f local_size regs
      | Some v \<Rightarrow> if dim_x local_size = 0 \<or> v < dim_x local_size then Size3 v 0 0
          else induction_local_id f local_size regs)"

definition x86_read_local_id :: "lldb_frame \<Rightarrow> size3 \<Rightarrow> size3 option" where
  "x86_read_local_id f local_size =
     (if \<not> fr_valid f then None
      else case read_local_id_from_variables f local_size of
        Some l \<Rightarrow> Some l
      | None \<Rightarrow> Some (induction_local_id f local_size [(''r10'', ''r10d''), (''rsi'', ''esi'')]))"

definition x86_abi :: cpu_abi where
  "x86_abi = \<lparr>abi_args = x86_arg_registers, abi_register_name = x86_register_name, abi_local_id = x86_read_local_id\<rparr>"

section \<open>AArch64\<close>

definition aarch64_arg_registers :: arg_registers where
  "aarch64_arg_registers = \<lparr>reg64 = [''x0'', ''x1'', ''x2'', ''x3'', ''x4'', ''x5''],
     reg32 = [''w0'', ''w1'', ''w2'', ''w3'', ''w4'', ''w5'']\<rparr>"

definition aarch64_core_registers :: "string list" where
  "aarch64_core_registers = [''x0'', ''x1'', ''x2'', ''x3'', ''x4'', ''x5'', ''x6'', ''x7'', ''x8'', ''x9'', ''x10'',
     ''x11'', ''x12'', ''x13'', ''x14'', ''x15'', ''x16'', ''x17'', ''x18'', ''x19'', ''x20'', ''x21'',
     ''x22'', ''x23'', ''x24'', ''x25'', ''x26'', ''x27'', ''x28'', ''x29'', ''x30'', ''sp'']"

definition aarch64_simd_registers :: "string list" where
  "aarch64_simd_registers = [''v0'', ''v1'', ''v2'', ''v3'', ''v4'', ''v5'', ''v6'', ''v7'', ''v8'', ''v9'', ''v10'',
     ''v11'', ''v12'', ''v13'', ''v14'', ''v15'', ''v16'', ''v17'', ''v18'', ''v19'', ''v20'', ''v21'',
     ''v22'', ''v23'', ''v24'', ''v25'', ''v26'', ''v27'', ''v28'', ''v29'', ''v30'', ''v31'']"

definition aarch64_register_name :: "nat \<Rightarrow> string option" where
  "aarch64_register_name n =
     (if n < length aarch64_core_registers then Some (aarch64_core_registers ! n)
      else if 64 \<le> n \<and> n < 64 + length aarch64_simd_registers then Some (aarch64_simd_registers ! (n - 64))
      else None)"

definition aarch64_read_local_id :: "lldb_frame \<Rightarrow> size3 \<Rightarrow> size3 option" where
  "aarch64_read_local_id f local_size =
     (if \<not> fr_valid f then None
      else case read_local_id_from_variables f local_size of
        Some l \<Rightarrow> Some l
      | None \<Rightarrow> Some (Size3 0 0 0))"

definition aarch64_abi :: cpu_abi where
  "aarch64_abi = \<lparr>abi_args = aarch64_arg_registers, abi_register_name = aarch64_register_name,
     abi_local_id = aarch64_read_local_id\<rparr>"

section \<open>Work-item contexts\<close>

record cpu_exec_ctx =
  host_thread_id :: u64
  ctx_frame :: "lldb_frame option"       \<comment> \<open>and with it the frame's thread; \<open>None\<close> for a default object\<close>

definition set_source_location :: "lldb_frame \<Rightarrow> 'c ocl_work_item \<Rightarrow> 'c ocl_work_item" where
  "set_source_location f out =
     (if \<not> fr_valid f then out
      else let out1 = (case fr_line_entry f of
                  None \<Rightarrow> out
                | Some (line, file) \<Rightarrow>
                    out\<lparr>location := \<lparr>loc_file = (case file of None \<Rightarrow> loc_file (location out) | Some n \<Rightarrow> n), loc_line = line\<rparr>\<rparr>)
           in case fr_function f of None \<Rightarrow> out1 | Some fn \<Rightarrow> out1\<lparr>function_name := fn\<rparr>)"

definition global_of :: "size3 \<Rightarrow> size3 \<Rightarrow> size3 \<Rightarrow> size3" where
  "global_of wg local_size lid =
     Size3 (dim_x wg * at_least_one (dim_x local_size) + dim_x lid)
       (dim_y wg * at_least_one (dim_y local_size) + dim_y lid)
       (dim_z wg * at_least_one (dim_z local_size) + dim_z lid)"

text \<open>The result is \<open>None\<close> where the code returns false and leaves \<open>out\<close> as it is; \<open>abi = None\<close> is the null ABI.\<close>

definition extract_from_frame :: "cpu_abi option \<Rightarrow> lldb_frame \<Rightarrow> size3 \<Rightarrow> size3 \<Rightarrow> cpu_exec_ctx ocl_work_item
    \<Rightarrow> cpu_exec_ctx ocl_work_item option" where
  "extract_from_frame abi f wg local_size out =
     (case abi of
        None \<Rightarrow> None
      | Some a \<Rightarrow>
          if \<not> fr_valid f then None
          else case abi_local_id a f local_size of
            None \<Rightarrow> None
          | Some lid \<Rightarrow>
              let out1 = out\<lparr>local_id := lid, group_id := wg, global_id := global_of wg local_size lid\<rparr>;
                  out2 = set_source_location f out1
              in Some (out2\<lparr>exec_ctx := Some \<lparr>host_thread_id = fr_thread_id f, ctx_frame = Some f\<rparr>\<rparr>))"

definition extract_from_thread :: "cpu_abi option \<Rightarrow> lldb_thread \<Rightarrow> size3 \<Rightarrow> size3 \<Rightarrow> cpu_exec_ctx ocl_work_item
    \<Rightarrow> cpu_exec_ctx ocl_work_item option" where
  "extract_from_thread abi t wg local_size out =
     (if \<not> th_valid t then None
      else extract_from_frame abi (selected_or_first_frame t) wg local_size out)"

definition extract_unstopped :: "u64 \<Rightarrow> size3 \<Rightarrow> size3 \<Rightarrow> cpu_exec_ctx ocl_work_item \<Rightarrow> cpu_exec_ctx ocl_work_item" where
  "extract_unstopped thread_id wg local_size out =
     out\<lparr>local_id := Size3 0 0 0, group_id := wg, global_id := global_of wg local_size (Size3 0 0 0),
         exec_ctx := Some \<lparr>host_thread_id = thread_id, ctx_frame = None\<rparr>\<rparr>"

section \<open>What every ABI provides\<close>

text \<open>The arguments of a call, in order, are in the frame's argument registers.\<close>

definition passes :: "cpu_abi \<Rightarrow> lldb_frame \<Rightarrow> u64 list \<Rightarrow> bool" where
  "passes abi f args \<longleftrightarrow> fr_valid f \<and> (\<forall>i < length args. fr_register f (reg64 (abi_args abi) ! i) = Some (args ! i))"

text \<open>An array of three \<^verbatim>\<open>size_t\<close>, of which the first \<open>n\<close> are there.\<close>

definition holds_sizes :: "lldb_process \<Rightarrow> u64 \<Rightarrow> u64 \<Rightarrow> size3 \<Rightarrow> bool" where
  "holds_sizes pr ptr n g \<longleftrightarrow> pr_read_u64 pr ptr = dim_x g
     \<and> (if n > 1 then pr_read_u64 pr (ptr + 8) = dim_y g else dim_y g = 1)
     \<and> (if n > 2 then pr_read_u64 pr (ptr + 16) = dim_z g else dim_z g = 1)"

lemma read_size_array_holds: "holds_sizes pr ptr n g \<Longrightarrow> read_size_array pr n ptr = g"
  by (cases g) (auto simp: holds_sizes_def read_size_array_def split: if_splits)

locale calling_convention =
  fixes abi :: cpu_abi
  assumes local_id_valid: "fr_valid f \<Longrightarrow> \<exists>x. abi_local_id abi f ls = Some (Size3 x 0 0)"
    and local_id_invalid: "\<not> fr_valid f \<Longrightarrow> abi_local_id abi f ls = None"
    and local_id_debug_info: "fr_valid f \<Longrightarrow> read_local_id_from_variables f ls = Some l \<Longrightarrow> abi_local_id abi f ls = Some l"
begin

lemma read_argument:
  assumes "passes abi f args" "i < length args"
  shows "read_register f (Some (reg64 (abi_args abi) ! i)) r32 = Some (args ! i)"
  using assms by (simp add: read_register_def passes_def)

lemma read_enqueue:
  assumes "passes abi f [queue, kern, n, off, gptr, lptr]" "pr_valid pr" "n \<noteq> 0" "gptr \<noteq> 0"
    "holds_sizes pr gptr n g" "if lptr = 0 then l = Size3 1 1 1 else holds_sizes pr lptr n l"
  shows "read_enqueue_ndrange abi pr f = Some (g, l, n)"
proof -
  note arg = read_argument [OF assms(1)]
  have "fr_valid f" using assms(1) by (simp add: passes_def)
  with assms(2-6) arg [of 2] arg [of 4] arg [of 5] show ?thesis
    by (auto simp: read_enqueue_ndrange_def abi_consts Let_def register_or_0_def read_size_array_holds
        numeral_eq_Suc split: if_splits)
qed

lemma read_workgroup:
  assumes "passes abi f [args, context, gx, gy, gz]" "gy < kMaxPlausibleGroupId" "gz < kMaxPlausibleGroupId"
  shows "read_workgroup_id abi f = Some (Size3 gx gy gz)"
proof -
  note arg = read_argument [OF assms(1)]
  have "fr_valid f" using assms(1) by (simp add: passes_def)
  with assms(2,3) arg [of 2] arg [of 3] arg [of 4] show ?thesis
    by (simp add: read_workgroup_id_def abi_consts Let_def plausible_group_def numeral_eq_Suc)
qed

lemma extract_valid:
  assumes "fr_valid f"
  shows "\<exists>x wi. abi_local_id abi f ls = Some (Size3 x 0 0) \<and> extract_from_frame (Some abi) f wg ls out = Some wi
    \<and> local_id wi = Size3 x 0 0 \<and> group_id wi = wg \<and> global_id wi = global_of wg ls (Size3 x 0 0)
    \<and> exec_ctx wi = Some \<lparr>host_thread_id = fr_thread_id f, ctx_frame = Some f\<rparr>"
  using local_id_valid [OF assms, of ls] assms
  by (auto simp: extract_from_frame_def Let_def set_source_location_def split: option.split)

end

interpretation x86: calling_convention x86_abi
  by unfold_locales (auto simp: x86_abi_def x86_read_local_id_def read_local_id_from_variables_def split: option.split)

interpretation aarch64: calling_convention aarch64_abi
  by unfold_locales (auto simp: aarch64_abi_def aarch64_read_local_id_def read_local_id_from_variables_def split: option.split)

section \<open>Reading launches\<close>

lemma read_enqueue_either:
  assumes "abi \<in> {x86_abi, aarch64_abi}"
    and "passes abi f [queue, kern, n, off, gptr, lptr]" and "pr_valid pr" and "n \<noteq> 0" and "gptr \<noteq> 0"
    and "holds_sizes pr gptr n g" and "if lptr = 0 then l = Size3 1 1 1 else holds_sizes pr lptr n l"
  shows "read_enqueue_ndrange abi pr f = Some (g, l, n)"
  using assms(1) x86.read_enqueue [OF _ assms(3-7)] aarch64.read_enqueue [OF _ assms(3-7)] assms(2) by blast

text \<open>
  A stop at the entry of \<^verbatim>\<open>clEnqueueNDRangeKernel\<close> gives the launch back: on both architectures,
  when the call's arguments are in the argument registers (\<^verbatim>\<open>work_dim\<close> zero-extended to its register),
  the global size, the local size (1 in every dimension for a null pointer) and the dimension read are
  those of the call, with 1 for the dimensions the call does not have.
\<close>

theorem enqueue_ndrange_read_back:
  assumes "abi \<in> {x86_abi, aarch64_abi}"
    and "passes abi f [queue, kern, n, off, gptr, lptr]" and "pr_valid pr" and "n \<noteq> 0" and "gptr \<noteq> 0"
    and "holds_sizes pr gptr n g" and "if lptr = 0 then l = Size3 1 1 1 else holds_sizes pr lptr n l"
  shows "read_enqueue_ndrange abi pr f = Some (g, l, n)"
  using assms by (rule read_enqueue_either)

definition blank_frame :: lldb_frame where
  "blank_frame = \<lparr>fr_valid = True, fr_register = Map.empty, fr_variable = Map.empty, fr_line_entry = None,
     fr_function = None, fr_thread_id = 77, fr_pc = 0, fr_evaluate = Map.empty\<rparr>"

definition enqueue_frame :: lldb_frame where
  "enqueue_frame = blank_frame\<lparr>fr_register := map_of (zip [''rdi'', ''rsi'', ''rdx'', ''rcx'', ''r8'', ''r9''] [11, 12, 2, 0, 4096, 0])\<rparr>"

definition idle_thread :: lldb_thread where
  "idle_thread = \<lparr>th_valid = True, th_id = 77, th_reason = Stop_breakpoint, th_reason_data = 1,
     th_selected_frame = blank_frame, th_frame_0 = blank_frame\<rparr>"

definition enqueue_process :: lldb_process where
  "enqueue_process = \<lparr>pr_valid = True, pr_state = State_stopped, pr_threads = [idle_thread], pr_selected = idle_thread,
     pr_read_u64 = (\<lambda>a. if a = 4096 then 1024 else if a = 4104 then 8 else 0)\<rparr>"

theorem enqueue_ndrange_read_back_witness:
  "read_enqueue_ndrange x86_abi enqueue_process enqueue_frame = Some (Size3 1024 8 1, Size3 1 1 1, 2)"
proof (rule enqueue_ndrange_read_back)
  show "passes x86_abi enqueue_frame [11, 12, 2, 0, 4096, 0]"
    by (auto simp: passes_def x86_abi_def x86_arg_registers_def enqueue_frame_def blank_frame_def less_Suc_eq numeral_eq_Suc)
  have "\<not> (2 :: u64) < 2" by simp
  moreover have "(1 :: u64) < 2" by simp
  ultimately show "holds_sizes enqueue_process 4096 2 (Size3 1024 8 1)"
    by (simp add: holds_sizes_def enqueue_process_def)
qed (simp_all add: enqueue_process_def)

text \<open>
  At the entry of a work-group function the group id read is the one passed, on both
  architectures, as long as its y and z are below the plausibility bound of \<^verbatim>\<open>0x100000\<close>.
\<close>

theorem workgroup_id_read_back:
  assumes "abi \<in> {x86_abi, aarch64_abi}" and "passes abi f [args, context, gx, gy, gz]"
    and "gy < kMaxPlausibleGroupId" and "gz < kMaxPlausibleGroupId"
  shows "read_workgroup_id abi f = Some (Size3 gx gy gz)"
  using assms(1) x86.read_workgroup [OF _ assms(3,4)] aarch64.read_workgroup [OF _ assms(3,4)] assms(2) by blast

definition workgroup_frame :: lldb_frame where
  "workgroup_frame = blank_frame\<lparr>fr_register := map_of (zip [''x0'', ''x1'', ''x2'', ''x3'', ''x4''] [1, 2, 9, 5, 3])\<rparr>"

lemma workgroup_frame_passes: "passes aarch64_abi workgroup_frame [1, 2, 9, 5, 3]"
  by (auto simp: passes_def aarch64_abi_def aarch64_arg_registers_def workgroup_frame_def blank_frame_def
      less_Suc_eq numeral_eq_Suc)

lemma workgroup_frame_group: "read_workgroup_id aarch64_abi workgroup_frame = Some (Size3 9 5 3)"
  by (rule aarch64.read_workgroup [OF workgroup_frame_passes]) (simp_all add: kMaxPlausibleGroupId_def)

theorem workgroup_id_read_back_witness: "read_workgroup_id aarch64_abi workgroup_frame = Some (Size3 9 5 3)"
  by (rule workgroup_id_read_back [OF _ workgroup_frame_passes]) (simp_all add: kMaxPlausibleGroupId_def)

section \<open>Work-items\<close>

text \<open>The last item of the group is still addressable.\<close>

definition group_fits :: "size_t \<Rightarrow> size_t \<Rightarrow> bool" where
  "group_fits g l \<longleftrightarrow> (unat g + 1) * unat (at_least_one l) \<le> 2 ^ 64"

lemma decompose_word:
  fixes g l x :: size_t
  assumes "(unat g + 1) * unat l \<le> 2 ^ 64" "x < l"
  shows "(g * l + x) div l = g" "(g * l + x) mod l = x"
proof -
  have x: "unat x < unat l" using assms(2) by (simp add: word_less_nat_alt)
  have lt: "unat g * unat l + unat x < 2 ^ 64" using assms(1) x by (simp add: algebra_simps)
  then have "unat g * unat l < 2 ^ 64" by linarith
  then have m: "unat (g * l) = unat g * unat l" by (rule unat_mult_no_wrap)
  with lt have p: "unat (g * l + x) = unat g * unat l + unat x" by (simp add: unat_plus_no_wrap)
  have "unat ((g * l + x) div l) = unat g" using x by (simp add: unat_div p div_mult_self3)
  then show "(g * l + x) div l = g" by (simp add: word_unat_eq_iff)
  have "unat ((g * l + x) mod l) = unat x" using x by (simp add: unat_mod p)
  then show "(g * l + x) mod l = x" by (simp add: word_unat_eq_iff)
qed

lemma zero_lt_at_least_one: "0 < at_least_one l"
  by (simp add: word_gt_0)


definition kernel_frame :: lldb_frame where
  "kernel_frame = blank_frame\<lparr>fr_variable := [''gx'' \<mapsto> 37]\<rparr>"


text \<open>
  A kernel's own global id survives: where the debug info has a global id variable and no local
  one, the item extracted for the group of that id has it as its global x.
\<close>

theorem extracted_global_id_from_debug_info:
  assumes "abi \<in> {x86_abi, aarch64_abi}" and "fr_valid f"
    and "first_variable f [''_local_id_x'', ''local_id_x'', ''local_id'', ''_local_id''] = None"
    and "first_variable f [''gx'', ''global_id_x'', ''global_id'', ''_global_id_x''] = Some v"
    and "dim_x wg = v div at_least_one (dim_x ls)"
  shows "\<exists>wi. extract_from_frame (Some abi) f wg ls out = Some wi \<and> dim_x (global_id wi) = v"
proof -
  let ?l = "Size3 (v mod at_least_one (dim_x ls)) 0 0"
  have vars: "read_local_id_from_variables f ls = Some ?l"
    using assms(3,4) by (simp add: read_local_id_from_variables_def)
  have lid: "abi_local_id abi f ls = Some ?l"
    using assms(1) x86.local_id_debug_info [OF assms(2) vars] aarch64.local_id_debug_info [OF assms(2) vars] by blast
  from assms(1,2) x86.extract_valid [of f] aarch64.extract_valid [of f] obtain x wi where
    x: "abi_local_id abi f ls = Some (Size3 x 0 0)" "extract_from_frame (Some abi) f wg ls out = Some wi"
    "global_id wi = global_of wg ls (Size3 x 0 0)"
    by blast
  have "v div at_least_one (dim_x ls) * at_least_one (dim_x ls) + v mod at_least_one (dim_x ls) = v"
    by (rule div_mult_mod_eq)
  with x lid show ?thesis by (simp add: global_of_def assms(5))
qed

theorem extracted_global_id_from_debug_info_witness:
  "\<exists>wi. extract_from_frame (Some aarch64_abi) kernel_frame (Size3 2 0 0) (Size3 16 1 1) empty_work_item = Some wi
    \<and> dim_x (global_id wi) = 37"
  by (rule extracted_global_id_from_debug_info)
     (simp_all add: kernel_frame_def blank_frame_def at_least_one_def)

end
