(* ===== verification/VectorTypes.thy ===== *)
theory VectorTypes
  imports Types
begin

text \<open>
  \<^verbatim>\<open>ocldbg/ocl_debug_model/OCLVectorTypes.{h,cpp}\<close>: which type names are OpenCL vectors, and how the raw
  bytes of one are printed.  The host is little-endian, as both supported ones are.  A read past the
  buffer is \<open>None\<close>.  \<^verbatim>\<open>std::to_string\<close> on \<^verbatim>\<open>float\<close> and \<^verbatim>\<open>double\<close> is C++20's, \<^verbatim>\<open>printf("%f")\<close>: the exact value
  rounded to six decimals, ties to even.
\<close>

record ocl_vector_type =
  elem_size :: size_t
  lane_count :: size_t
  is_float :: bool
  is_signed :: bool

definition ocl_vector_storage_count :: "ocl_vector_type \<Rightarrow> size_t" where
  "ocl_vector_storage_count vt = (if lane_count vt = 3 then 4 else lane_count vt)"

section \<open>Type names\<close>

definition kElems :: "(string \<times> size_t \<times> bool \<times> bool) list" where
  "kElems = [(''double'', 8, True, False), (''float'', 4, True, False), (''half'', 2, True, False),
     (''ulong'', 8, False, False), (''long'', 8, False, True), (''uint'', 4, False, False), (''int'', 4, False, True),
     (''ushort'', 2, False, False), (''short'', 2, False, True), (''uchar'', 1, False, False), (''char'', 1, False, True)]"

definition lane_suffix :: "string \<Rightarrow> size_t option" where
  "lane_suffix s = (if s = ''2'' then Some 2 else if s = ''3'' then Some 3 else if s = ''4'' then Some 4
     else if s = ''8'' then Some 8 else if s = ''16'' then Some 16 else None)"

fun find_elem :: "(string \<times> size_t \<times> bool \<times> bool) list \<Rightarrow> string \<Rightarrow> ocl_vector_type option" where
  "find_elem [] type_name = None"
| "find_elem ((name, sz, fl, sg) # elems) type_name =
     (if \<not> starts_with type_name name then find_elem elems type_name
      else case lane_suffix (drop (length name) type_name) of
        None \<Rightarrow> find_elem elems type_name
      | Some n \<Rightarrow> Some \<lparr>elem_size = sz, lane_count = n, is_float = fl, is_signed = sg\<rparr>)"

definition parse_ocl_vector_type :: "string \<Rightarrow> ocl_vector_type option" where
  "parse_ocl_vector_type type_name = find_elem kElems type_name"

section \<open>Lanes\<close>

fun le_value :: "u8 list \<Rightarrow> nat" where
  "le_value [] = 0"
| "le_value (b # bs) = unat b + 256 * le_value bs"

text \<open>\<^verbatim>\<open>memcpy\<close> of the first \<open>n\<close> bytes into an integer.\<close>

definition load :: "nat \<Rightarrow> u8 list \<Rightarrow> nat option" where
  "load n bytes = (if n \<le> length bytes then Some (le_value (take n bytes)) else None)"

definition signed_of :: "nat \<Rightarrow> nat \<Rightarrow> int" where
  "signed_of sz n = (if n < 2 ^ (8 * sz - 1) then int n else int n - 2 ^ (8 * sz))"

definition round_half_even :: "nat \<Rightarrow> nat \<Rightarrow> nat" where
  "round_half_even n d = (let q = n div d; r = n mod d in
     if 2 * r < d then q else if d < 2 * r then q + 1 else if even q then q else q + 1)"

text \<open>\<open>m * 2 ^ e\<close> with six decimals.\<close>

definition millionths :: "nat \<Rightarrow> int \<Rightarrow> nat" where
  "millionths m e = (if 0 \<le> e then m * 10 ^ 6 * 2 ^ nat e else round_half_even (m * 10 ^ 6) (2 ^ nat (- e)))"

definition fixed6 :: "bool \<Rightarrow> nat \<Rightarrow> int \<Rightarrow> string" where
  "fixed6 neg m e = (let q = millionths m e; frac = dec_of_nat (q mod 10 ^ 6) in
     (if neg then ''-'' else []) @ dec_of_nat (q div 10 ^ 6) @ ''.'' @ replicate (6 - length frac) (CHR ''0'') @ frac)"

text \<open>An IEEE 754 value of \<open>eb\<close> exponent and \<open>mb\<close> mantissa bits, given by its bit pattern.\<close>

definition ieee_to_string :: "nat \<Rightarrow> nat \<Rightarrow> nat \<Rightarrow> string" where
  "ieee_to_string eb mb n =
     (let neg = odd (n div 2 ^ (eb + mb)); e = n div 2 ^ mb mod 2 ^ eb; m = n mod 2 ^ mb; bias = 2 ^ (eb - 1) - (1 :: int) in
      if e = 2 ^ eb - 1 then (if neg then ''-'' else []) @ (if m = 0 then ''inf'' else ''nan'')
      else if e = 0 then fixed6 neg m (1 - bias - int mb)
      else fixed6 neg (m + 2 ^ mb) (int e - bias - int mb))"

definition int_width :: "size_t \<Rightarrow> nat" where
  "int_width sz = (if sz = 1 then 1 else if sz = 2 then 2 else if sz = 4 then 4 else 8)"

definition decode_vector_lane :: "u8 list \<Rightarrow> ocl_vector_type \<Rightarrow> string option" where
  "decode_vector_lane bytes vt =
     (if is_float vt then
        if elem_size vt = 4 then map_option (ieee_to_string 8 23) (load 4 bytes)
        else if elem_size vt = 8 then map_option (ieee_to_string 11 52) (load 8 bytes)
        else Some ''?''
      else if is_signed vt then
        map_option (\<lambda>n. to_string_signed (signed_of (int_width (elem_size vt)) n)) (load (int_width (elem_size vt)) bytes)
      else map_option dec_of_nat (load (int_width (elem_size vt)) bytes))"

text \<open>The loop of \<^verbatim>\<open>format_ocl_vector_bytes\<close>, from lane \<open>i\<close> on, \<open>n\<close> lanes still to go.\<close>

fun format_lanes :: "u8 list \<Rightarrow> ocl_vector_type \<Rightarrow> nat \<Rightarrow> nat \<Rightarrow> string option" where
  "format_lanes bytes vt i 0 = Some []"
| "format_lanes bytes vt i (Suc n) =
     (case decode_vector_lane (drop (i * unat (elem_size vt)) bytes) vt of
        None \<Rightarrow> None
      | Some lane \<Rightarrow> map_option (\<lambda>rest. (if i > 0 then '', '' else []) @ lane @ rest) (format_lanes bytes vt (i + 1) n))"

definition format_ocl_vector_bytes :: "u8 list \<Rightarrow> ocl_vector_type \<Rightarrow> string option" where
  "format_ocl_vector_bytes bytes vt =
     map_option (\<lambda>lanes. ''('' @ lanes @ '')'') (format_lanes bytes vt 0 (unat (lane_count vt)))"

section \<open>Recognition of type names\<close>

definition kSuffixes :: "(string \<times> size_t) list" where
  "kSuffixes = [(''2'', 2), (''3'', 3), (''4'', 4), (''8'', 8), (''16'', 16)]"

lemma lane_suffix_iff: "lane_suffix s = Some n \<longleftrightarrow> (s, n) \<in> set kSuffixes"
  by (auto simp: lane_suffix_def kSuffixes_def)

definition spelled :: "string \<times> size_t \<times> bool \<times> bool \<Rightarrow> string \<times> size_t \<Rightarrow> string" where
  "spelled e x = fst e @ fst x"

definition vector_of :: "string \<times> size_t \<times> bool \<times> bool \<Rightarrow> string \<times> size_t \<Rightarrow> ocl_vector_type" where
  "vector_of e x = \<lparr>elem_size = fst (snd e), lane_count = snd x, is_float = fst (snd (snd e)),
     is_signed = snd (snd (snd e))\<rparr>"

lemma find_elem_sound:
  "find_elem elems s = Some vt \<Longrightarrow> \<exists>e \<in> set elems. \<exists>x \<in> set kSuffixes. s = spelled e x \<and> vt = vector_of e x"
proof (induction elems s rule: find_elem.induct)
  case (2 name sz fl sg elems s)
  show ?case
  proof (cases "starts_with s name \<and> lane_suffix (drop (length name) s) \<noteq> None")
    case True
    then obtain n r where n: "lane_suffix (drop (length name) s) = Some n" "s = name @ r"
      by (auto simp: starts_with_iff)
    then have x: "(r, n) \<in> set kSuffixes" by (simp add: lane_suffix_iff)
    from True n "2.prems" have "s = spelled (name, sz, fl, sg) (r, n) \<and> vt = vector_of (name, sz, fl, sg) (r, n)"
      by (simp add: spelled_def vector_of_def)
    with x show ?thesis by (metis list.set_intros(1))
  next
    case False
    with "2.prems" have "find_elem elems s = Some vt" by (auto split: if_splits option.splits)
    with False "2.IH" show ?thesis by (metis list.set_intros(2) option.exhaust)
  qed
qed simp

text \<open>No two spellings collide: the element name is the type name without its trailing digits.\<close>

definition elem_name_of :: "string \<Rightarrow> string" where
  "elem_name_of s = takeWhile (\<lambda>c. \<not> is_digit c) s"

lemma names_no_digit: "list_all (\<lambda>e. list_all (\<lambda>c. \<not> is_digit c) (fst e)) kElems"
  by (simp add: kElems_def is_digit_def)

lemma suffixes_digit: "list_all (\<lambda>x. fst x \<noteq> [] \<and> is_digit (hd (fst x))) kSuffixes"
  by (simp add: kSuffixes_def is_digit_def)

lemma elem_name_of_spelling:
  assumes "e \<in> set kElems" "x \<in> set kSuffixes"
  shows "elem_name_of (spelled e x) = fst e"
proof -
  from assms names_no_digit have "\<forall>c \<in> set (fst e). \<not> is_digit c" by (auto simp: list_all_iff)
  moreover from assms suffixes_digit have "takeWhile (\<lambda>c. \<not> is_digit c) (fst x) = []"
    by (cases "fst x") (auto simp: list_all_iff)
  ultimately show ?thesis by (simp add: elem_name_of_def spelled_def takeWhile_append2)
qed

lemma find_elem_complete:
  assumes "e \<in> set elems" "x \<in> set kSuffixes" "set elems \<subseteq> set kElems" "distinct (map fst elems)"
  shows "find_elem elems (spelled e x) = Some (vector_of e x)"
  using assms
proof (induction elems)
  case (Cons d elems)
  obtain name sz fl sg where d: "d = (name, sz, fl, sg)" by (metis prod_cases4)
  have suffix: "lane_suffix (fst x) = Some (snd x)" using Cons.prems(2) lane_suffix_iff [of "fst x" "snd x"] by simp
  show ?case
  proof (cases "name = fst e")
    case True
    with Cons.prems d have "d = e" by (auto simp: image_iff)
    with d suffix show ?thesis by (auto simp: spelled_def vector_of_def)
  next
    case False
    have "find_elem (d # elems) (spelled e x) = find_elem elems (spelled e x)"
    proof (cases "starts_with (spelled e x) name \<and> lane_suffix (drop (length name) (spelled e x)) \<noteq> None")
      case True
      then obtain r where r: "spelled e x = name @ r" unfolding starts_with_iff by blast
      from True obtain m where "lane_suffix (drop (length name) (spelled e x)) = Some m" by blast
      with r have m: "(r, m) \<in> set kSuffixes" by (simp add: lane_suffix_iff)
      have "d \<in> set kElems" "e \<in> set kElems" using Cons.prems by auto
      from elem_name_of_spelling [OF this(1) m] elem_name_of_spelling [OF this(2) Cons.prems(2)] r d have "name = fst e"
        by (simp add: spelled_def)
      with False show ?thesis by simp
    qed (auto simp: d split: option.split)
    with Cons False d show ?thesis by auto
  qed
qed simp

text \<open>
  A type name is a vector exactly when it is one of the eleven element names followed by 2, 3, 4,
  8 or 16, and then the size, lane count and interpretation are those of that element and that number,
  whatever order the table is tried in.
\<close>

theorem vector_type_names:
  "parse_ocl_vector_type s = Some vt \<longleftrightarrow>
     (\<exists>e \<in> set kElems. \<exists>x \<in> set kSuffixes. s = spelled e x \<and> vt = vector_of e x)"
proof -
  have "distinct (map fst kElems)" by (simp add: kElems_def)
  then show ?thesis
    unfolding parse_ocl_vector_type_def using find_elem_complete find_elem_sound by blast
qed

section \<open>Printing integer vectors\<close>

fun le_bytes :: "nat \<Rightarrow> nat \<Rightarrow> u8 list" where
  "le_bytes 0 n = []"
| "le_bytes (Suc k) n = of_nat n # le_bytes k (n div 256)"

lemma length_le_bytes [simp]: "length (le_bytes k n) = k"
  by (induction k n rule: le_bytes.induct) simp_all

lemma le_value_le_bytes: "n < 256 ^ k \<Longrightarrow> le_value (le_bytes k n) = n"
  by (induction k n rule: le_bytes.induct)
     (simp_all add: unat_of_nat less_mult_imp_div_less mult.commute)

text \<open>The bytes of an element: two's complement for the signed ones.\<close>

definition lane_bytes :: "nat \<Rightarrow> int \<Rightarrow> u8 list" where
  "lane_bytes sz v = le_bytes sz (nat (v mod 2 ^ (8 * sz)))"

definition lane_in_range :: "ocl_vector_type \<Rightarrow> int \<Rightarrow> bool" where
  "lane_in_range vt v \<longleftrightarrow> (let bits = 8 * unat (elem_size vt) in
     if is_signed vt then - (2 ^ (bits - 1)) \<le> v \<and> v < 2 ^ (bits - 1) else 0 \<le> v \<and> v < 2 ^ bits)"

fun commas :: "string list \<Rightarrow> string" where
  "commas [] = []"
| "commas [s] = s"
| "commas (s # t # ss) = s @ '', '' @ commas (t # ss)"

lemma length_lane_bytes [simp]: "length (lane_bytes sz v) = sz"
  by (simp add: lane_bytes_def)

lemma load_lane_bytes: "load sz (lane_bytes sz v @ rest) = Some (nat (v mod 2 ^ (8 * sz)))"
proof -
  have "(256 :: nat) ^ sz = 2 ^ (8 * sz)" by (simp add: power_mult)
  moreover have "nat (v mod 2 ^ (8 * sz)) < 2 ^ (8 * sz)"
    by (simp add: nat_less_iff)
  ultimately show ?thesis by (simp add: load_def lane_bytes_def le_value_le_bytes)
qed

lemma signed_of_mod:
  assumes "0 < sz" "- (2 ^ (8 * sz - 1)) \<le> v" "v < 2 ^ (8 * sz - 1)"
  shows "signed_of sz (nat (v mod 2 ^ (8 * sz))) = v"
proof -
  define h :: int where "h = 2 ^ (8 * sz - 1)"
  have two: "(2 :: int) ^ (8 * sz) = 2 * h"
    using assms(1) unfolding h_def by (metis Suc_diff_1 mult_pos_pos power_Suc zero_less_numeral)
  have pos: "0 < h" by (simp add: h_def)
  have "v mod (2 * h) = (if 0 \<le> v then v else v + 2 * h)"
    using assms(2,3) pos unfolding h_def [symmetric]
    by (smt (verit) mod_add_self2 mod_pos_pos_trivial)
  moreover have "int (2 ^ (8 * sz - 1)) = h" by (simp add: h_def)
  ultimately show ?thesis
    using assms(2,3) pos unfolding signed_of_def two h_def [symmetric]
    by (smt (verit) int_nat_eq of_nat_less_iff)
qed

lemma commas_Cons: "commas (l # ls) = l @ concat (map (\<lambda>l. '', '' @ l) ls)"
  by (induction ls arbitrary: l) simp_all

text \<open>The integer types of the table, at the widths the lanes are loaded with.\<close>

definition integer_type :: "ocl_vector_type \<Rightarrow> bool" where
  "integer_type vt \<longleftrightarrow> \<not> is_float vt \<and> elem_size vt \<in> {1, 2, 4, 8}"

lemma integer_width: "integer_type vt \<Longrightarrow> int_width (elem_size vt) = unat (elem_size vt) \<and> 0 < unat (elem_size vt)"
  by (auto simp: integer_type_def int_width_def)

lemma parsed_integer:
  assumes "parse_ocl_vector_type s = Some vt" "\<not> is_float vt"
  shows "integer_type vt \<and> lane_count vt \<in> {2, 3, 4, 8, 16}"
proof -
  have sizes: "list_all (\<lambda>e. fst (snd e) \<in> {1, 2, 4, 8}) kElems" "list_all (\<lambda>x. snd x \<in> {2, 3, 4, 8, 16}) kSuffixes"
    by (simp_all add: kElems_def kSuffixes_def)
  obtain e x where "e \<in> set kElems" "x \<in> set kSuffixes" "vt = vector_of e x"
    using assms(1) find_elem_sound unfolding parse_ocl_vector_type_def by blast
  with sizes assms(2) show ?thesis by (auto simp: list_all_iff integer_type_def vector_of_def)
qed

lemma decode_integer_lane:
  assumes "integer_type vt" "lane_in_range vt v"
  shows "decode_vector_lane (lane_bytes (unat (elem_size vt)) v @ rest) vt = Some (to_string_signed v)"
proof -
  note w = integer_width [OF assms(1)]
  have nf: "\<not> is_float vt" using assms(1) by (simp add: integer_type_def)
  show ?thesis
  proof (cases "is_signed vt")
    case True
    with assms(2) w have "signed_of (unat (elem_size vt)) (nat (v mod 2 ^ (8 * unat (elem_size vt)))) = v"
      by (intro signed_of_mod) (simp_all add: lane_in_range_def Let_def)
    with True nf w show ?thesis by (simp add: decode_vector_lane_def load_lane_bytes)
  next
    case False
    with assms(2) have "0 \<le> v" "v mod 2 ^ (8 * unat (elem_size vt)) = v"
      by (simp_all add: lane_in_range_def Let_def)
    with False nf w show ?thesis by (simp add: decode_vector_lane_def load_lane_bytes to_string_signed_def)
  qed
qed

lemma format_lanes_integers:
  assumes "integer_type vt" "\<forall>v \<in> set vs. lane_in_range vt v" "n \<le> length vs"
    "drop (i * unat (elem_size vt)) bytes = concat (map (lane_bytes (unat (elem_size vt))) vs)"
  shows "format_lanes bytes vt i n = Some (concat (map (\<lambda>(j, v). (if j > 0 then '', '' else []) @ to_string_signed v)
    (enumerate i (take n vs))))"
  using assms
proof (induction n arbitrary: i vs)
  case (Suc n)
  then obtain v ws where vs: "vs = v # ws" by (cases vs) auto
  let ?sz = "unat (elem_size vt)"
  have lane: "decode_vector_lane (drop (i * ?sz) bytes) vt = Some (to_string_signed v)"
    using Suc.prems vs decode_integer_lane [OF Suc.prems(1)] by simp
  have "drop (Suc i * ?sz) bytes = drop ?sz (drop (i * ?sz) bytes)" by (simp add: add.commute)
  also have "\<dots> = concat (map (lane_bytes ?sz) ws)" using Suc.prems(4) vs by simp
  finally have "format_lanes bytes vt (Suc i) n = Some (concat (map (\<lambda>(j, v). (if j > 0 then '', '' else []) @ to_string_signed v)
      (enumerate (Suc i) (take n ws))))"
    using Suc.IH [OF Suc.prems(1)] Suc.prems(2,3) vs by simp
  with lane vs show ?case by simp
qed simp

lemma enumerate_commas:
  "0 < i \<Longrightarrow> concat (map (\<lambda>(j, v). (if j > 0 then '', '' else []) @ f v) (enumerate i vs)) = concat (map (\<lambda>v. '', '' @ f v) vs)"
  by (induction vs arbitrary: i) simp_all

lemma enumerate_commas_0:
  "concat (map (\<lambda>(j, v). (if j > 0 then '', '' else []) @ f v) (enumerate 0 vs)) = commas (map f vs)"
  by (cases vs) (simp_all add: commas_Cons enumerate_commas comp_def)

text \<open>
  C37.  An integer vector is printed as its lanes: for every type name of the table with an integer
  element, the bytes of as many in-range values as the type stores (four for a three-lane type) are
  formatted as the decimal values of the first lanes, signed or not as the type says, between
  parentheses.
\<close>

theorem integer_vectors_print:
  assumes "parse_ocl_vector_type s = Some vt" and "\<not> is_float vt"
    and "length vs = unat (ocl_vector_storage_count vt)" and "\<forall>v \<in> set vs. lane_in_range vt v"
  shows "format_ocl_vector_bytes (concat (map (lane_bytes (unat (elem_size vt))) vs)) vt =
    Some (''('' @ commas (map to_string_signed (take (unat (lane_count vt)) vs)) @ '')'')"
proof -
  from parsed_integer [OF assms(1,2)] have ty: "integer_type vt" "lane_count vt \<in> {2, 3, 4, 8, 16}" by auto
  then have "unat (lane_count vt) \<le> length vs" by (auto simp: assms(3) ocl_vector_storage_count_def)
  from format_lanes_integers [OF ty(1) assms(4) this, of 0] show ?thesis
    by (simp add: format_ocl_vector_bytes_def enumerate_commas_0)
qed

theorem integer_vectors_print_witness:
  "format_ocl_vector_bytes [0xff, 0x80, 0x7f, 0x00] \<lparr>elem_size = 1, lane_count = 3, is_float = False, is_signed = True\<rparr>
     = Some ''(-1, -128, 127)''"
proof -
  let ?vt = "\<lparr>elem_size = 1, lane_count = 3, is_float = False, is_signed = True\<rparr>"
  have name: "parse_ocl_vector_type ''char3'' = Some ?vt"
    by (simp add: parse_ocl_vector_type_def kElems_def starts_with_def lane_suffix_def)
  have bytes: "concat (map (lane_bytes (unat (elem_size ?vt))) [-1, -128, 127, 0]) = [0xff, 0x80, 0x7f, 0x00]"
    by (simp add: lane_bytes_def)
  have printed: "commas (map to_string_signed (take (unat (lane_count ?vt)) [-1, -128, 127, 0])) = ''-1, -128, 127''"
    by code_simp
  have "format_ocl_vector_bytes (concat (map (lane_bytes (unat (elem_size ?vt))) [-1, -128, 127, 0])) ?vt =
    Some (''('' @ commas (map to_string_signed (take (unat (lane_count ?vt)) [-1, -128, 127, 0])) @ '')'')"
    by (rule integer_vectors_print [OF name]) (auto simp: ocl_vector_storage_count_def lane_in_range_def)
  then show ?thesis unfolding bytes printed by simp
qed

end
