(* ===== verification/Leb128.thy ===== *)
theory Leb128
  imports Prelude
begin

unbundle bit_operations_syntax

text \<open>
  The LEB128 readers of \<^verbatim>\<open>ocldbg/backends/cpu/PoclCPUBackend.cpp\<close>.  The pair of pointers is the
  list of the bytes between them; the result holds the value and the bytes left.  Two things the
  readers can do have no defined result in C++: shifting a 64-bit value by 64 or more, and negating
  the least \<^verbatim>\<open>int64_t\<close>; both are \<open>None\<close>.  An \<^verbatim>\<open>int64_t\<close> is a 64-bit word read by \<^const>\<open>sint\<close>
  (C++20 defines its left shift modulo \<open>2 ^ 64\<close>).
\<close>

section \<open>The readers\<close>

definition sleb_finish :: "u64 \<Rightarrow> nat \<Rightarrow> u8 \<Rightarrow> u8 list \<Rightarrow> (u64 \<times> u8 list) option" where
  "sleb_finish result shift byte p =
     (if shift < 64 \<and> byte AND 0x40 \<noteq> 0
      then (if shift = 63 then None else Some (result OR - push_bit shift 1, p))
      else Some (result, p))"

fun sleb_loop :: "u64 \<Rightarrow> nat \<Rightarrow> u8 \<Rightarrow> u8 list \<Rightarrow> (u64 \<times> u8 list) option" where
  "sleb_loop result shift byte [] = sleb_finish result shift byte []"
| "sleb_loop result shift byte (b # p) =
     (if 64 \<le> shift then None
      else (let result' = result OR push_bit shift (ucast (b AND 0x7f)) in
            if b AND 0x80 \<noteq> 0 then sleb_loop result' (shift + 7) b p
            else sleb_finish result' (shift + 7) b p))"

definition decode_sleb128 :: "u8 list \<Rightarrow> (u64 \<times> u8 list) option" where
  "decode_sleb128 p = sleb_loop 0 0 0 p"

fun uleb_loop :: "u64 \<Rightarrow> nat \<Rightarrow> u8 list \<Rightarrow> (u64 \<times> u8 list) option" where
  "uleb_loop result shift [] = Some (result, [])"
| "uleb_loop result shift (byte # p) =
     (if 64 \<le> shift then None
      else (let result' = result OR push_bit shift (ucast (byte AND 0x7f)) in
            if byte AND 0x80 = 0 then Some (result', p) else uleb_loop result' (shift + 7) p))"

definition decode_uleb128 :: "u8 list \<Rightarrow> (u64 \<times> u8 list) option" where
  "decode_uleb128 p = uleb_loop 0 0 p"

section \<open>The encodings the DWARF standard defines\<close>

function encode_uleb128 :: "nat \<Rightarrow> u8 list" where
  "encode_uleb128 n = (if n < 128 then [of_nat n] else (of_nat (n mod 128) OR 0x80) # encode_uleb128 (n div 128))"
  by pat_completeness auto
termination by (relation "measure id") auto

function encode_sleb128 :: "int \<Rightarrow> u8 list" where
  "encode_sleb128 i = (if - 64 \<le> i \<and> i < 64 then [of_int (i mod 128)]
     else (of_int (i mod 128) OR 0x80) # encode_sleb128 (i div 128))"
  by pat_completeness auto
termination
proof (relation "measure (\<lambda>i. nat \<bar>i\<bar>)")
  fix i :: int
  assume "\<not> (- 64 \<le> i \<and> i < 64)"
  then have "\<bar>i div 128\<bar> < \<bar>i\<bar>" by linarith
  then show "(i div 128, i) \<in> measure (\<lambda>i. nat \<bar>i\<bar>)" by simp
qed simp

declare encode_uleb128.simps [simp del] encode_sleb128.simps [simp del]

section \<open>Bytes\<close>

lemma low_bits_int:
  fixes i :: int
  shows "(of_int i :: u64) = of_int (i mod 128) OR push_bit 7 (of_int (i div 128))"
proof -
  have "i = take_bit 7 i OR push_bit 7 (drop_bit 7 i)"
    by (rule bit_eqI) (auto simp: bit_simps, metis le_add_diff_inverse not_less)
  then have "(of_int i :: u64) = of_int (take_bit 7 i OR push_bit 7 (drop_bit 7 i))" by simp
  then show ?thesis by (simp add: of_int_or_eq push_bit_of_int take_bit_eq_mod drop_bit_eq_div)
qed

lemma byte_payload:
  assumes "0 \<le> m" "m < 128"
  shows "(ucast ((of_int m :: u8) AND 0x7f) :: u64) = of_int m"
    and "(ucast (((of_int m :: u8) OR 0x80) AND 0x7f) :: u64) = of_int m"
    and "(of_int m :: u8) AND 0x80 = 0" and "((of_int m :: u8) OR 0x80) AND 0x80 \<noteq> 0"
    and "(of_int m :: u8) AND 0x40 \<noteq> 0 \<longleftrightarrow> 64 \<le> m"
proof -
  have all: "\<forall>m \<in> set [0..127]. (ucast ((of_int m :: u8) AND 0x7f) :: u64) = of_int m
    \<and> (ucast (((of_int m :: u8) OR 0x80) AND 0x7f) :: u64) = of_int m
    \<and> (of_int m :: u8) AND 0x80 = 0 \<and> ((of_int m :: u8) OR 0x80) AND 0x80 \<noteq> 0
    \<and> ((of_int m :: u8) AND 0x40 \<noteq> 0 \<longleftrightarrow> 64 \<le> m)"
    by code_simp
  have "m \<in> set [0..127]" using assms by simp
  with all show "(ucast ((of_int m :: u8) AND 0x7f) :: u64) = of_int m"
    and "(ucast (((of_int m :: u8) OR 0x80) AND 0x7f) :: u64) = of_int m"
    and "(of_int m :: u8) AND 0x80 = 0" and "((of_int m :: u8) OR 0x80) AND 0x80 \<noteq> 0"
    and "(of_int m :: u8) AND 0x40 \<noteq> 0 \<longleftrightarrow> 64 \<le> m"
    by blast+
qed

section \<open>Unsigned\<close>

lemma uleb_loop_encode:
  "of_nat n = (v :: u64) \<Longrightarrow> n * 2 ^ s < 2 ^ 64 \<Longrightarrow> s < 64 \<Longrightarrow>
     uleb_loop r s (encode_uleb128 n @ rest) = Some (r OR push_bit s v, rest)"
proof (induction n arbitrary: r s v rule: encode_uleb128.induct)
  case (1 n)
  let ?m = "int (n mod 128)"
  have m: "0 \<le> ?m" "?m < 128" "(of_nat (n mod 128) :: u8) = of_int ?m" by simp_all
  have v: "v = of_int ?m OR push_bit 7 (of_nat (n div 128))"
  proof -
    have "(of_nat (n div 128) :: u64) = of_int (int n div 128)" "?m = int n mod 128"
      by (metis of_int_of_nat_eq of_nat_div of_nat_numeral, simp add: zmod_int)
    then show ?thesis using low_bits_int [of "int n"] "1.prems"(1) by simp
  qed
  show ?case
  proof (cases "n < 128")
    case True
    then have "encode_uleb128 n = [of_int ?m]" by (simp add: encode_uleb128.simps [of n])
    then show ?thesis using "1.prems"(3) byte_payload [OF m(1,2)] True v by simp
  next
    case False
    have e: "encode_uleb128 n = (of_int ?m OR 0x80) # encode_uleb128 (n div 128)"
      using False by (simp add: encode_uleb128.simps [of n])
    have "n div 128 * 128 \<le> n" by simp
    then have "n div 128 * 128 * 2 ^ s \<le> n * 2 ^ s" by (rule mult_le_mono1)
    also note "1.prems"(2)
    finally have b: "n div 128 * 2 ^ (s + 7) < 2 ^ 64" by (simp add: power_add ac_simps)
    have "1 \<le> n div 128" using False by simp
    then have "2 ^ (s + 7) \<le> n div 128 * 2 ^ (s + 7)" by simp
    from le_less_trans [OF this b] have "(2 :: nat) ^ (s + 7) < 2 ^ 64" .
    then have s: "s + 7 < 64" by (simp only: power_strict_increasing_iff one_less_numeral_iff semiring_norm)
    show ?thesis
      using "1.IH" [OF False refl b s] "1.prems"(3) byte_payload [OF m(1,2)]
      by (simp add: e v push_bit_or or.assoc add.commute)
  qed
qed

lemma decode_encode_uleb: "decode_uleb128 (encode_uleb128 (unat v) @ rest) = Some (v, rest)"
  using uleb_loop_encode [of "unat v" v 0 0 rest] unat_lt64 [of v] by (simp add: decode_uleb128_def)

text \<open>
  The unsigned reader inverts the standard's encoding of every 64-bit value, never shifts out
  of range on it, and stops at its last byte.
\<close>

theorem uleb128_roundtrip:
  "decode_uleb128 (encode_uleb128 (unat v) @ rest) = Some (v, rest)"
  by (rule decode_encode_uleb)

section \<open>Signed\<close>

lemma encode_sleb_not_Nil [simp]: "encode_sleb128 i \<noteq> []"
  by (simp add: encode_sleb128.simps [of i])

text \<open>Width of an encoding: \<open>k\<close> bytes hold the values of \<open>7 * k\<close> bits in two's complement.\<close>

lemma div_128_bounds:
  fixes i p :: int
  shows "- p \<le> i div 128 \<and> i div 128 < p \<longleftrightarrow> - (128 * p) \<le> i \<and> i < 128 * p"
proof -
  have "i = 128 * (i div 128) + i mod 128" "0 \<le> i mod 128" "i mod 128 < 128" by simp_all
  then show ?thesis by linarith
qed

lemma length_encode_sleb_le:
  "0 < k \<Longrightarrow> length (encode_sleb128 i) \<le> k \<longleftrightarrow> - (64 * 128 ^ (k - 1)) \<le> i \<and> i < 64 * 128 ^ (k - 1)"
proof (induction i arbitrary: k rule: encode_sleb128.induct)
  case (1 i)
  have one: "1 \<le> (128 :: int) ^ (k - 1)" by simp
  show ?case
  proof (cases "- 64 \<le> i \<and> i < 64")
    case True
    then have "- (64 * 128 ^ (k - 1)) \<le> i \<and> i < 64 * 128 ^ (k - 1)" using one by linarith
    then show ?thesis using True "1.prems" by (simp add: encode_sleb128.simps [of i])
  next
    case False
    have len: "length (encode_sleb128 i) = Suc (length (encode_sleb128 (i div 128)))"
      using False by (simp add: encode_sleb128.simps [of i])
    show ?thesis
    proof (cases "k = 1")
      case True
      then show ?thesis using False len by simp
    next
      case k: False
      then have k': "0 < k - 1" "k - 1 = Suc (k - 1 - 1)" using "1.prems" by simp_all
      let ?p = "64 * 128 ^ (k - 1 - 1) :: int"
      have "length (encode_sleb128 i) \<le> k \<longleftrightarrow> length (encode_sleb128 (i div 128)) \<le> k - 1"
        using len k' by linarith
      also have "\<dots> \<longleftrightarrow> - ?p \<le> i div 128 \<and> i div 128 < ?p" using "1.IH" [OF False k'(1)] .
      also have "\<dots> \<longleftrightarrow> - (128 * ?p) \<le> i \<and> i < 128 * ?p" by (rule div_128_bounds)
      also have "128 * ?p = 64 * 128 ^ (k - 1)" by (subst (2) k'(2)) simp
      finally show ?thesis .
    qed
  qed
qed

text \<open>The loop at an intermediate shift; it meets the undefined negation exactly when it ends at shift 63.\<close>

lemma sleb_last_byte:
  assumes "- 64 \<le> i" "i < 64" "s \<le> 63" and v: "(v :: u64) = of_int (i mod 128) OR push_bit 7 (of_int (i div 128))"
  shows "sleb_loop r s b0 (of_int (i mod 128) # rest) = (if s + 7 = 63 \<and> i < 0 then None else Some (r OR push_bit s v, rest))"
proof -
  have m: "0 \<le> i mod 128" "i mod 128 < 128" by simp_all
  show ?thesis
  proof (cases "i < 0")
    case False
    with assms(2) have "i div 128 = 0" "\<not> 64 \<le> i mod 128" by simp_all
    then show ?thesis using assms(3) False byte_payload [OF m] v by (simp add: sleb_finish_def)
  next
    case neg: True
    with assms(1) have d: "i div 128 = - 1" "64 \<le> i mod 128" by presburger+
    have ext: "push_bit s v = push_bit s (of_int (i mod 128)) OR push_bit (s + 7) (- 1)"
      by (simp only: v d(1) push_bit_or push_bit_push_bit of_int_minus of_int_1)
    have top: "push_bit (s + 7) (- 1 :: u64) = 0" if "64 \<le> s + 7"
      using that by (auto intro!: bit_eqI simp: bit_simps)
    show ?thesis
      using assms(3) neg byte_payload [OF m] d(2) top
      by (simp add: sleb_finish_def ext minus_exp_eq_not_mask or.assoc Let_def)
  qed
qed

lemma sleb_loop_encode:
  "of_int i = (v :: u64) \<Longrightarrow> s + 7 * length (encode_sleb128 i) \<le> 70 \<Longrightarrow>
     sleb_loop r s b0 (encode_sleb128 i @ rest) =
       (if s + 7 * length (encode_sleb128 i) = 63 \<and> i < 0 then None else Some (r OR push_bit s v, rest))"
proof (induction i arbitrary: r s v b0 rule: encode_sleb128.induct)
  case (1 i)
  let ?m = "i mod 128"
  have m: "0 \<le> ?m" "?m < 128" by simp_all
  have v: "v = of_int ?m OR push_bit 7 (of_int (i div 128))"
    using low_bits_int [of i] "1.prems"(1) by simp
  show ?case
  proof (cases "- 64 \<le> i \<and> i < 64")
    case True
    then have e: "encode_sleb128 i = [of_int ?m]" by (simp add: encode_sleb128.simps [of i])
    with "1.prems"(2) have "s \<le> 63" by simp
    with sleb_last_byte [OF _ _ this v] True show ?thesis by (simp add: e)
  next
    case False
    have e: "encode_sleb128 i = (of_int ?m OR 0x80) # encode_sleb128 (i div 128)"
      by (subst encode_sleb128.simps) (simp only: False if_False)
    then have len: "(s + 7) + 7 * length (encode_sleb128 (i div 128)) = s + 7 * length (encode_sleb128 i)"
      by simp
    have "0 < length (encode_sleb128 (i div 128))" by simp
    with len "1.prems"(2) have s: "s < 64" by linarith
    have neg: "i div 128 < 0 \<longleftrightarrow> i < 0" by presburger
    show ?thesis
      using "1.IH" [OF False refl, of "s + 7"] "1.prems"(2) s byte_payload [OF m] neg
      by (simp add: e v push_bit_or or.assoc add.commute flip: len)
  qed
qed

lemma decode_encode_sleb:
  assumes "- (2 ^ 63) \<le> i" "i < 2 ^ 63"
  shows "decode_sleb128 (encode_sleb128 i @ rest) =
    (if - (2 ^ 62) \<le> i \<and> i < - (2 ^ 55) then None else Some (of_int i, rest))"
proof -
  let ?n = "length (encode_sleb128 i)"
  have "?n \<le> 10" using assms by (subst length_encode_sleb_le) simp_all
  moreover have "?n \<le> 9 \<longleftrightarrow> - (2 ^ 62) \<le> i \<and> i < 2 ^ 62" by (subst length_encode_sleb_le) simp_all
  moreover have "?n \<le> 8 \<longleftrightarrow> - (2 ^ 55) \<le> i \<and> i < 2 ^ 55" by (subst length_encode_sleb_le) simp_all
  moreover have "?n = 9 \<longleftrightarrow> ?n \<le> 9 \<and> \<not> ?n \<le> 8" by linarith
  ultimately have "?n \<le> 10" "?n = 9 \<and> i < 0 \<longleftrightarrow> - (2 ^ 62) \<le> i \<and> i < - (2 ^ 55)" by auto
  then show ?thesis
    using sleb_loop_encode [OF refl, of 0 i 0 0 rest] by (simp add: decode_sleb128_def)
qed

text \<open>
  The signed reader inverts the standard's encoding of every value of an \<^verbatim>\<open>int64_t\<close>, except that
  on the negative values whose encoding has nine bytes (\<open>- 2 ^ 62 \<le> i < - 2 ^ 55\<close>) its sign extension
  negates the least \<^verbatim>\<open>int64_t\<close>, which C++ leaves undefined.
\<close>

theorem sleb128_roundtrip:
  assumes "- (2 ^ 63) \<le> i" "i < 2 ^ 63"
  shows "decode_sleb128 (encode_sleb128 i @ rest) =
    (if - (2 ^ 62) \<le> i \<and> i < - (2 ^ 55) then None else Some (of_int i, rest))"
  using assms by (rule decode_encode_sleb)

theorem sleb128_roundtrip_witness:
  "decode_sleb128 [0x80, 0x7f] = Some (- 128, []) \<and> encode_sleb128 (- 128) = [0x80, 0x7f]
   \<and> decode_sleb128 (encode_sleb128 (- 36028797018963969)) = None"
proof -
  have e: "encode_sleb128 (- 128) = [0x80, 0x7f]"
    by (simp add: encode_sleb128.simps)
  have a: "decode_sleb128 (encode_sleb128 (- 128) @ []) = Some (of_int (- 128), [])"
    by (subst sleb128_roundtrip) simp_all
  have b: "decode_sleb128 (encode_sleb128 (- 36028797018963969) @ []) = None"
    by (subst sleb128_roundtrip) simp_all
  show ?thesis using a b e by simp
qed

end
