(* ===== verification/CpuVariables.thy ===== *)
theory CpuVariables
  imports CPUABI VectorTypes Leb128
begin

text \<open>
  \<^verbatim>\<open>CPULocationBackend::evaluate\<close> of \<^verbatim>\<open>ocldbg/backends/cpu/PoclCPUBackend.cpp\<close>: the value of a variable,
  from LLDB, from its DWARF location expression, from the cache of earlier values, or from an alias.
  What LLDB answers about a frame and about a value are the records below.  A result \<open>None\<close> is undefined
  behaviour of the LEB128 readers.
\<close>

section \<open>LLDB's answers\<close>

text \<open>
  Of an \<^verbatim>\<open>SBValue\<close>: its names, its value and summary strings (\<open>None\<close> is the null pointer), the value strings
  of its children (\<open>None\<close> for an invalid one too), whether its type is a pointer, \<^verbatim>\<open>GetValueAsUnsigned\<close>, its
  bytes, and the bits \<^verbatim>\<open>GetFloat\<close> finds in them unless it fails.
\<close>

record sb_value =
  sv_name :: "string option"
  sv_type_name :: "string option"
  sv_value :: "string option"
  sv_summary :: "string option"
  sv_children :: "string option list"
  sv_is_pointer :: bool
  sv_unsigned :: u64
  sv_data :: "u8 list"
  sv_float :: "u32 option"

text \<open>
  Of a frame: its variables and registers by name, the frame and stack pointers, whether its process is
  valid, and what \<^verbatim>\<open>ReadMemory\<close> of a number of bytes returns: success, and the bytes read.
\<close>

record frame_answers =
  fa_variable :: "string \<Rightarrow> sb_value option"
  fa_register :: "string \<Rightarrow> sb_value option"
  fa_fp :: u64
  fa_sp :: u64
  fa_process_valid :: bool
  fa_read :: "u64 \<Rightarrow> nat \<Rightarrow> bool \<times> u8 list"

definition lldb_invalid_address :: u64 where "lldb_invalid_address = - 1"

section \<open>Printing\<close>

definition blank_value :: "var_info \<Rightarrow> var_value" where
  "blank_value var = \<lparr>vv_name = vi_name var, vv_type_name = vi_type_name var, vv_value_str = [],
     vv_address_space = vi_address_space var, vv_available = False\<rparr>"

definition show_value :: "string \<Rightarrow> var_value \<Rightarrow> var_value" where
  "show_value s r = r\<lparr>vv_value_str := s, vv_available := True\<rparr>"

definition hex_pointer :: "u64 \<Rightarrow> string" where
  "hex_pointer a = ''0x'' @ hex_of_nat (unat a)"

definition int32_string :: "u64 \<Rightarrow> string" where
  "int32_string w = to_string_signed (sint (ucast w :: u32))"

definition float_string :: "u32 \<Rightarrow> string" where
  "float_string w = ieee_to_string 8 23 (unat w)"

text \<open>\<^verbatim>\<open>static_cast<float>\<close> of an integer: rounded to a 24-bit significand, ties to even.\<close>

fun bit_length :: "nat \<Rightarrow> nat" where
  "bit_length n = (if n = 0 then 0 else Suc (bit_length (n div 2)))"

declare bit_length.simps [simp del]

definition float_of_int_string :: "int \<Rightarrow> string" where
  "float_of_int_string i = (let n = nat \<bar>i\<bar>; k = bit_length n - 24 in fixed6 (i < 0) (round_half_even n (2 ^ k) * 2 ^ k) 0)"

text \<open>A buffer of \<open>n\<close> zero bytes into which some bytes were read, as an integer.\<close>

definition padded_value :: "nat \<Rightarrow> u8 list \<Rightarrow> nat" where
  "padded_value n bytes = le_value (take n (bytes @ replicate n 0))"

section \<open>A value of LLDB\<close>

fun lane_list :: "string option list \<Rightarrow> bool \<Rightarrow> string" where
  "lane_list [] later = []"
| "lane_list (c # cs) later = (if later then '', '' else []) @ (case c of None \<Rightarrow> ''?'' | Some s \<Rightarrow> s) @ lane_list cs True"

definition eval_from_sbvalue :: "sb_value \<Rightarrow> var_info \<Rightarrow> var_value" where
  "eval_from_sbvalue v var =
     (let r0 = blank_value var;
          r1 = (if vv_name r0 = [] then (case sv_name v of None \<Rightarrow> r0 | Some n \<Rightarrow> r0\<lparr>vv_name := n\<rparr>) else r0);
          r = (if vv_type_name r1 = [] then (case sv_type_name v of None \<Rightarrow> r1 | Some n \<Rightarrow> r1\<lparr>vv_type_name := n\<rparr>) else r1)
      in case sv_value v of
           Some s \<Rightarrow> show_value s r
         | None \<Rightarrow>
             if sv_children v \<noteq> [] \<and> parse_ocl_vector_type (vv_type_name r) \<noteq> None
             then show_value (''('' @ lane_list (sv_children v) False @ '')'') r
             else case sv_summary v of
               Some s \<Rightarrow> show_value s r
             | None \<Rightarrow> if sv_is_pointer v then show_value (hex_pointer (sv_unsigned v)) r else r)"

section \<open>Memory, registers and constants\<close>

definition vector_bytes :: "ocl_vector_type \<Rightarrow> nat" where
  "vector_bytes vt = unat (elem_size vt * ocl_vector_storage_count vt)"

definition show_vector :: "u8 list \<Rightarrow> ocl_vector_type \<Rightarrow> var_value \<Rightarrow> var_value option" where
  "show_vector bytes vt r = map_option (\<lambda>s. show_value s r) (format_ocl_vector_bytes bytes vt)"

definition eval_from_memory :: "frame_answers \<Rightarrow> u64 \<Rightarrow> var_info \<Rightarrow> var_value option" where
  "eval_from_memory fa addr var =
     (let r = blank_value var; ty = vi_type_name var in
      if addr = 0 \<or> addr = lldb_invalid_address \<or> \<not> fa_process_valid fa then Some r
      else case parse_ocl_vector_type ty of
        Some vt \<Rightarrow>
          (let (ok, bytes) = fa_read fa addr (vector_bytes vt) in
           if ok \<and> length bytes = vector_bytes vt then show_vector bytes vt r else Some r)
      | None \<Rightarrow>
          if ty = ''int'' \<or> ty = ''signed int'' then
            (let (ok, bytes) = fa_read fa addr 4 in
             Some (if ok then show_value (int32_string (of_nat (padded_value 4 bytes))) r else r))
          else if ty = ''float'' then
            (let (ok, bytes) = fa_read fa addr 4 in
             Some (if ok then show_value (float_string (of_nat (padded_value 4 bytes))) r else r))
          else if ends_with ty ''*'' then
            (let (ok, bytes) = fa_read fa addr 8 in
             Some (if ok then show_value (hex_pointer (of_nat (padded_value 8 bytes))) r else r))
          else Some r)"

definition eval_from_register :: "frame_answers \<Rightarrow> cpu_abi \<Rightarrow> u64 \<Rightarrow> var_info \<Rightarrow> var_value option" where
  "eval_from_register fa abi regnum var =
     (let r = blank_value var; ty = vi_type_name var in
      case Option.bind (abi_register_name abi (unat regnum)) (fa_register fa) of
        None \<Rightarrow> Some r
      | Some reg \<Rightarrow>
          (case parse_ocl_vector_type ty of
             Some vt \<Rightarrow>
               if length (sv_data reg) < vector_bytes vt then Some r
               else show_vector (take (vector_bytes vt) (sv_data reg)) vt r
           | None \<Rightarrow>
               Some (if ends_with ty ''*'' then show_value (hex_pointer (sv_unsigned reg)) r
                     else if ty = ''int'' \<or> ty = ''signed int'' then show_value (int32_string (sv_unsigned reg)) r
                     else if ty = ''float'' then
                       show_value (float_string (case sv_float reg of Some w \<Rightarrow> w | None \<Rightarrow> ucast (sv_unsigned reg))) r
                     else case sv_value reg of None \<Rightarrow> r | Some s \<Rightarrow> show_value s r)))"

definition eval_implicit_value :: "u8 list \<Rightarrow> var_info \<Rightarrow> var_value option" where
  "eval_implicit_value expr var =
     (let r = blank_value var; ty = vi_type_name var in
      if length expr < 2 then Some r
      else let len = unat (expr ! 1); bytes = take len (drop 2 expr) in
        if length expr < 2 + len then Some r
        else case parse_ocl_vector_type ty of
          Some vt \<Rightarrow> if len = vector_bytes vt then show_vector bytes vt r else Some r
        | None \<Rightarrow>
            Some (if ty = ''float'' \<and> len = 4 then show_value (float_string (of_nat (le_value bytes))) r
                  else if ty = ''int'' \<and> len = 4 then show_value (int32_string (of_nat (le_value bytes))) r
                  else r))"

definition eval_const :: "u8 \<Rightarrow> u8 list \<Rightarrow> var_info \<Rightarrow> var_value option" where
  "eval_const opcode expr var =
     (if \<not> (0x30 \<le> opcode \<and> opcode \<le> 0x4f) \<and> opcode \<noteq> 0x11 \<and> opcode \<noteq> 0x10 then Some empty_var_value
      else Option.bind
       (if 0x30 \<le> opcode \<and> opcode \<le> 0x4f then Some (ucast opcode - 0x30 :: u64)
        else if opcode = 0x11 then map_option fst (decode_sleb128 (tl expr))
        else map_option fst (decode_uleb128 (tl expr)))
       (\<lambda>val. Some (show_value (if vi_type_name var = ''float'' then float_of_int_string (sint val) else to_string_signed (sint val))
          (blank_value var))))"

definition eval_breg :: "frame_answers \<Rightarrow> cpu_abi \<Rightarrow> u8 \<Rightarrow> u8 list \<Rightarrow> var_info \<Rightarrow> var_value option" where
  "eval_breg fa abi opcode expr var =
     (case Option.bind (abi_register_name abi (unat opcode - 0x70)) (fa_register fa) of
        None \<Rightarrow> Some empty_var_value
      | Some reg \<Rightarrow>
          (case decode_sleb128 (tl expr) of
             None \<Rightarrow> None
           | Some (offset, rest) \<Rightarrow>
               let addr = sv_unsigned reg + offset; ty = vi_type_name var in
               if expr \<noteq> [] \<and> List.last expr = 0x9f then
                 Some (show_value (if ty = ''float'' then float_string (ucast addr)
                   else if ty = ''int'' \<or> ty = ''signed int'' then int32_string addr else to_string addr) (blank_value var))
               else eval_from_memory fa addr var))"

definition eval_fbreg :: "frame_answers \<Rightarrow> u8 list \<Rightarrow> var_info \<Rightarrow> var_value option" where
  "eval_fbreg fa expr var =
     (let fb = (if fa_fp fa = 0 \<or> fa_fp fa = lldb_invalid_address then fa_sp fa else fa_fp fa) in
      case decode_sleb128 (tl expr) of
        None \<Rightarrow> None
      | Some (offset, rest) \<Rightarrow> eval_from_memory fa (fb + offset) var)"

definition eval_from_dwarf_expr :: "frame_answers \<Rightarrow> cpu_abi \<Rightarrow> var_info \<Rightarrow> var_value option" where
  "eval_from_dwarf_expr fa abi var =
     (case vi_dwarf_location_expr var of
        [] \<Rightarrow> Some empty_var_value
      | opcode # args \<Rightarrow>
          let expr = opcode # args in
          if 0x50 \<le> opcode \<and> opcode \<le> 0x6f then eval_from_register fa abi (ucast opcode - 0x50) var
          else if opcode = 0x90 then
            (case decode_uleb128 args of None \<Rightarrow> None | Some (regnum, rest) \<Rightarrow> eval_from_register fa abi regnum var)
          else if opcode = 0x9e then eval_implicit_value expr var
          else if (0x30 \<le> opcode \<and> opcode \<le> 0x4f) \<or> opcode = 0x11 \<or> opcode = 0x10 then eval_const opcode expr var
          else if 0x70 \<le> opcode \<and> opcode \<le> 0x8f then eval_breg fa abi opcode expr var
          else if opcode = 0x91 then eval_fbreg fa expr var
          else Some empty_var_value)"

section \<open>Evaluation\<close>

fun eval_alias :: "frame_answers \<Rightarrow> string list \<Rightarrow> var_info \<Rightarrow> var_value option" where
  "eval_alias fa [] var = None"
| "eval_alias fa (prefix # prefixes) var =
     (case fa_variable fa (prefix @ vi_name var) of
        None \<Rightarrow> eval_alias fa prefixes var
      | Some v \<Rightarrow>
          let r = eval_from_sbvalue v var in
          if vv_available r then Some (r\<lparr>vv_name := vi_name var\<rparr>) else eval_alias fa prefixes var)"

type_synonym param_cache = "string \<rightharpoonup> var_value"

text \<open>The last part: the cache, the aliases, and the unavailable value.\<close>

definition evaluate_fallback :: "frame_answers \<Rightarrow> var_info \<Rightarrow> param_cache \<Rightarrow> var_value \<times> param_cache" where
  "evaluate_fallback fa var cache =
     (if vi_name var = [] then (blank_value var, cache)
      else case cache (vi_name var) of
        Some cached \<Rightarrow>
          (let c1 = (if vi_type_name var \<noteq> [] then cached\<lparr>vv_type_name := vi_type_name var\<rparr> else cached);
               c2 = (if vi_address_space var \<noteq> [] then c1\<lparr>vv_address_space := vi_address_space var\<rparr> else c1)
           in (c2, cache))
      | None \<Rightarrow>
          (case eval_alias fa [''k_'', ''v_''] var of
             Some r \<Rightarrow> (r, cache(vi_name var \<mapsto> r))
           | None \<Rightarrow> (blank_value var, cache)))"

definition evaluate_dwarf :: "frame_answers \<Rightarrow> cpu_abi option \<Rightarrow> var_info \<Rightarrow> param_cache \<Rightarrow> (var_value \<times> param_cache) option" where
  "evaluate_dwarf fa abi var cache =
     (case (if vi_dwarf_location_expr var = [] then None else abi) of
        None \<Rightarrow> Some (evaluate_fallback fa var cache)
      | Some a \<Rightarrow>
          (case eval_from_dwarf_expr fa a var of
             None \<Rightarrow> None
           | Some r \<Rightarrow> Some (if vv_available r then (r, cache(vi_name var \<mapsto> r)) else evaluate_fallback fa var cache)))"

definition evaluate :: "(lldb_frame \<Rightarrow> frame_answers) \<Rightarrow> cpu_abi option \<Rightarrow> var_info \<Rightarrow> cpu_exec_ctx option \<Rightarrow> param_cache
    \<Rightarrow> (var_value \<times> param_cache) option" where
  "evaluate answers abi var ctx cache =
     (case Option.bind ctx ctx_frame of
        None \<Rightarrow> Some (empty_var_value, cache)
      | Some f \<Rightarrow>
          if \<not> fr_valid f then Some (empty_var_value, cache)
          else
            let fa = answers f;
                direct = (if vi_name var = [] then None else fa_variable fa (vi_name var))
            in case direct of
                 Some v \<Rightarrow>
                   (let r = eval_from_sbvalue v var in
                    if vv_available r then Some (r, cache(vi_name var \<mapsto> r))
                    else evaluate_dwarf fa abi var cache)
               | None \<Rightarrow> evaluate_dwarf fa abi var cache)"

section \<open>The locations of the DWARF standard\<close>

text \<open>
  The simple locations and values of the standard, how it encodes them, and which \<^verbatim>\<open>int\<close> is there.  A
  constant is the operation that pushes it followed by \<^verbatim>\<open>DW_OP_stack_value\<close>.
\<close>

datatype dwarf_location = In_register nat | In_register_x nat | At_register nat int | At_frame int
  | Constant int | Unsigned_constant nat | Literal nat | Register_plus nat int | Implicit "u8 list"

fun encode_location :: "dwarf_location \<Rightarrow> u8 list" where
  "encode_location (In_register n) = [of_nat (0x50 + n)]"
| "encode_location (In_register_x n) = 0x90 # encode_uleb128 n"
| "encode_location (At_register n i) = of_nat (0x70 + n) # encode_sleb128 i"
| "encode_location (At_frame i) = 0x91 # encode_sleb128 i"
| "encode_location (Constant i) = 0x11 # encode_sleb128 i @ [0x9f]"
| "encode_location (Unsigned_constant n) = 0x10 # encode_uleb128 n @ [0x9f]"
| "encode_location (Literal n) = [of_nat (0x30 + n), 0x9f]"
| "encode_location (Register_plus n i) = of_nat (0x70 + n) # encode_sleb128 i @ [0x9f]"
| "encode_location (Implicit bs) = 0x9e # of_nat (length bs) # bs"

text \<open>Offsets at which the reader is defined.\<close>

definition readable_offset :: "int \<Rightarrow> bool" where
  "readable_offset i \<longleftrightarrow> - (2 ^ 63) \<le> i \<and> i < 2 ^ 63 \<and> \<not> (- (2 ^ 62) \<le> i \<and> i < - (2 ^ 55))"

fun encodable :: "dwarf_location \<Rightarrow> bool" where
  "encodable (In_register n) = (n < 32)"
| "encodable (In_register_x n) = (n < 2 ^ 64)"
| "encodable (At_register n i) = (n < 32 \<and> readable_offset i)"
| "encodable (At_frame i) = readable_offset i"
| "encodable (Constant i) = readable_offset i"
| "encodable (Unsigned_constant n) = (n < 2 ^ 63)"
| "encodable (Literal n) = (n < 32)"
| "encodable (Register_plus n i) = (n < 32 \<and> readable_offset i)"
| "encodable (Implicit bs) = (length bs < 128)"

definition register_value :: "frame_answers \<Rightarrow> cpu_abi \<Rightarrow> nat \<Rightarrow> u64 option" where
  "register_value fa abi n = map_option sv_unsigned (Option.bind (abi_register_name abi n) (fa_register fa))"

definition frame_base :: "frame_answers \<Rightarrow> u64" where
  "frame_base fa = (if fa_fp fa = 0 \<or> fa_fp fa = lldb_invalid_address then fa_sp fa else fa_fp fa)"

definition int32_of :: "nat \<Rightarrow> int" where
  "int32_of n = sint (of_nat n :: u32)"

definition memory_int :: "frame_answers \<Rightarrow> u64 \<Rightarrow> int option" where
  "memory_int fa a = (if a \<noteq> 0 \<and> a \<noteq> lldb_invalid_address \<and> fa_process_valid fa \<and> fst (fa_read fa a 4) \<and> length (snd (fa_read fa a 4)) = 4
     then Some (int32_of (le_value (snd (fa_read fa a 4)))) else None)"

fun located_int :: "frame_answers \<Rightarrow> cpu_abi \<Rightarrow> dwarf_location \<Rightarrow> int option" where
  "located_int fa abi (In_register n) = map_option (\<lambda>w. int32_of (unat w)) (register_value fa abi n)"
| "located_int fa abi (In_register_x n) = map_option (\<lambda>w. int32_of (unat w)) (register_value fa abi n)"
| "located_int fa abi (At_register n i) = Option.bind (register_value fa abi n) (\<lambda>w. memory_int fa (w + of_int i))"
| "located_int fa abi (At_frame i) = memory_int fa (frame_base fa + of_int i)"
| "located_int fa abi (Constant i) = Some i"
| "located_int fa abi (Unsigned_constant n) = Some (int n)"
| "located_int fa abi (Literal n) = Some (int n)"
| "located_int fa abi (Register_plus n i) = map_option (\<lambda>w. int32_of (unat (w + of_int i))) (register_value fa abi n)"
| "located_int fa abi (Implicit bs) = (if length bs = 4 then Some (int32_of (le_value bs)) else None)"

lemma opcode_unat: "k + n < 256 \<Longrightarrow> unat (of_nat (k + n) :: u8) = k + n"
  by (simp only: unat_of_nat) simp

lemma unat_ucast_8_64 [simp]: "unat (ucast (x :: u8) :: u64) = unat x"
  by (simp add: unsigned_ucast_eq unsigned_take_bit_eq take_bit_nat_eq_self less_trans [OF unat_lt8])

lemma opcode_number:
  assumes "k + n < 256"
  shows "unat (ucast (of_nat (k + n) :: u8) - (of_nat k :: u64)) = n"
proof -
  have "unat (of_nat k :: u64) = k" using assms by (simp add: unat_of_nat)
  with opcode_unat [OF assms] show ?thesis by (subst unat_minus_no_wrap) (simp_all del: of_nat_add)
qed

lemma decode_readable: "readable_offset i \<Longrightarrow> decode_sleb128 (encode_sleb128 i @ rest) = Some (of_int i, rest)"
  by (simp add: readable_offset_def decode_encode_sleb)

lemma decode_readable_Nil: "readable_offset i \<Longrightarrow> decode_sleb128 (encode_sleb128 i) = Some (of_int i, [])"
  using decode_readable [of i "[]"] by simp

lemma int32_string_of: "int32_string (of_nat n) = to_string_signed (int32_of n)"
proof -
  have "(ucast (of_nat n :: u64) :: u32) = of_nat n"
    by (simp add: word_unat_eq_iff unat_of_nat unsigned_ucast_eq take_bit_eq_mod mod_mod_cancel)
  then show ?thesis by (simp add: int32_string_def int32_of_def)
qed

lemma int32_string_unat: "int32_string w = to_string_signed (int32_of (unat w))"
  using int32_string_of [of "unat w"] by simp

lemma memory_int_read:
  assumes "vi_type_name var = ''int''" "memory_int fa a = Some v"
  shows "eval_from_memory fa a var = Some (show_value (to_string_signed v) (blank_value var))"
proof -
  have nv: "parse_ocl_vector_type ''int'' = None"
    by (simp add: parse_ocl_vector_type_def kElems_def starts_with_def lane_suffix_def)
  obtain ok bs where r: "fa_read fa a 4 = (ok, bs)" by fastforce
  from assms(2) r have m: "a \<noteq> 0" "a \<noteq> lldb_invalid_address" "fa_process_valid fa" ok "length bs = 4" "v = int32_of (le_value bs)"
    by (auto simp: memory_int_def split: if_splits)
  have "padded_value 4 bs = le_value bs" using m(5) by (simp add: padded_value_def)
  with m r assms(1) nv show ?thesis
    by (simp add: eval_from_memory_def int32_string_of)
qed

text \<open>The dispatch on the opcode, for the opcodes of a location.\<close>

lemma opcode_le:
  "(0x50 \<le> (x :: u8)) = (80 \<le> unat x)" "(x \<le> 0x6f) = (unat x \<le> 111)" "(0x30 \<le> x) = (48 \<le> unat x)" "(x \<le> 0x4f) = (unat x \<le> 79)"
  "(0x70 \<le> x) = (112 \<le> unat x)" "(x \<le> 0x8f) = (unat x \<le> 143)"
  "(x = 0x90) = (unat x = 144)" "(x = 0x9e) = (unat x = 158)" "(x = 0x11) = (unat x = 17)" "(x = 0x10) = (unat x = 16)" "(x = 0x91) = (unat x = 145)"
  by (simp_all add: word_le_nat_alt word_unat_eq_iff)

lemma last_sleb: "List.last (x # encode_sleb128 i @ [0x9f]) = (0x9f :: u8)"
  by simp

lemma last_encode_sleb: "List.last (x # encode_sleb128 i) \<noteq> (0x9f :: u8)"
proof (induction i arbitrary: x rule: encode_sleb128.induct)
  case (1 i)
  show ?case
  proof (cases "- 64 \<le> i \<and> i < 64")
    case True
    have "unat (of_int (i mod 128) :: u8) = nat (i mod 128)"
      by (simp add: unat_eq_nat_uint uint_word_of_int_eq take_bit_int_eq_self)
    moreover have "nat (i mod 128) < 128" by simp
    ultimately have "(of_int (i mod 128) :: u8) \<noteq> 0x9f" by (auto simp: word_unat_eq_iff)
    with True show ?thesis by (simp add: encode_sleb128.simps)
  next
    case False
    then have "encode_sleb128 i = (of_int (i mod 128) OR 0x80) # encode_sleb128 (i div 128)"
      by (subst encode_sleb128.simps) (simp only: False if_False)
    with "1" [OF False] show ?thesis by simp
  qed
qed

lemmas eval_location_simps = eval_from_dwarf_expr_def opcode_le opcode_unat

lemma eval_register_int:
  assumes "vi_type_name var = ''int''" "register_value fa abi (unat n) = Some w"
  shows "eval_from_register fa abi n var = Some (show_value (to_string_signed (int32_of (unat w))) (blank_value var))"
proof -
  have nv: "parse_ocl_vector_type ''int'' = None" "\<not> ends_with ''int'' ''*''"
    by (simp_all add: parse_ocl_vector_type_def kElems_def starts_with_def lane_suffix_def ends_with_def)
  from assms show ?thesis
    by (auto simp: register_value_def eval_from_register_def Let_def nv int32_string_unat split: bind_splits)
qed

lemma eval_at_register:
  assumes "vi_type_name var = ''int''" "n < 32" "readable_offset i" "register_value fa abi n = Some w"
    and e: "expr = of_nat (112 + n) # encode_sleb128 i" "memory_int fa (w + of_int i) = Some v"
  shows "eval_breg fa abi (of_nat (112 + n)) expr var = Some (show_value (to_string_signed v) (blank_value var))"
proof -
  have n: "unat (of_nat (112 + n) :: u8) - 0x70 = n" using assms(2) by (subst opcode_unat) simp_all
  obtain reg where reg: "Option.bind (abi_register_name abi n) (fa_register fa) = Some reg" "sv_unsigned reg = w"
    using assms(4) by (auto simp: register_value_def)
  have l: "List.last expr \<noteq> 0x9f" unfolding e(1) by (rule last_encode_sleb)
  show ?thesis
    unfolding eval_breg_def n reg(1) using l memory_int_read [OF assms(1) e(2)]
    by (simp add: e(1) decode_readable_Nil [OF assms(3)] reg(2) Let_def del: of_nat_add)
qed

lemma eval_register_plus:
  assumes "vi_type_name var = ''int''" "n < 32" "readable_offset i" "register_value fa abi n = Some w"
    and e: "expr = of_nat (112 + n) # encode_sleb128 i @ [0x9f]"
  shows "eval_breg fa abi (of_nat (112 + n)) expr var = Some (show_value (to_string_signed (int32_of (unat (w + of_int i)))) (blank_value var))"
proof -
  have n: "unat (of_nat (112 + n) :: u8) - 0x70 = n" using assms(2) by (subst opcode_unat) simp_all
  obtain reg where reg: "Option.bind (abi_register_name abi n) (fa_register fa) = Some reg" "sv_unsigned reg = w"
    using assms(4) by (auto simp: register_value_def)
  show ?thesis
    unfolding eval_breg_def n reg(1)
    by (simp add: e decode_readable [OF assms(3)] reg(2) Let_def assms(1) int32_string_unat del: of_nat_add)
qed

lemma sint_of_readable: "readable_offset i \<Longrightarrow> sint (of_int i :: u64) = i"
  by (simp add: readable_offset_def signed_of_int signed_take_bit_int_eq_self)

lemma eval_register_location:
  assumes ty: "vi_type_name var = ''int''" and e: "vi_dwarf_location_expr var = encode_location loc"
    and "encodable loc" and v: "located_int fa abi loc = Some v"
    and "(case loc of In_register n \<Rightarrow> True | In_register_x n \<Rightarrow> True | At_register n i \<Rightarrow> True | Register_plus n i \<Rightarrow> True | _ \<Rightarrow> False)"
  shows "eval_from_dwarf_expr fa abi var = Some (show_value (to_string_signed v) (blank_value var))"
proof (cases loc)
  case (In_register n)
  then have n: "n < 32" using assms(3) by simp
  have u: "unat (of_nat (0x50 + n) :: u8) = 0x50 + n" using n by (intro opcode_unat) simp
  have "unat (ucast (of_nat (0x50 + n) :: u8) - (of_nat 0x50 :: u64)) = n" using n by (intro opcode_number) simp
  then have k: "unat (ucast (of_nat (0x50 + n) :: u8) - 0x50 :: u64) = n" by (simp del: of_nat_add)
  obtain w where w: "register_value fa abi n = Some w" "v = int32_of (unat w)" using v In_register by auto
  show ?thesis
    using eval_register_int [OF ty, of fa abi "ucast (of_nat (0x50 + n) :: u8) - 0x50"] w k u n In_register
    by (simp add: eval_from_dwarf_expr_def e opcode_le Let_def del: of_nat_add)
next
  case (In_register_x n)
  then have n: "n < 2 ^ 64" using assms(3) by simp
  then have "unat (of_nat n :: u64) = n" by (simp add: unat_of_nat)
  with decode_encode_uleb [of "of_nat n" "[]"] have d: "decode_uleb128 (encode_uleb128 n) = Some (of_nat n, [])" "unat (of_nat n :: u64) = n"
    by simp_all
  obtain w where w: "register_value fa abi n = Some w" "v = int32_of (unat w)" using v In_register_x by auto
  then have "register_value fa abi (unat (of_nat n :: u64)) = Some w" using d(2) by simp
  from eval_register_int [OF ty this] show ?thesis
    by (simp add: eval_from_dwarf_expr_def e In_register_x opcode_le d(1) w(2) Let_def)
next
  case (At_register n i)
  then have n: "n < 32" "readable_offset i" using assms(3) by simp_all
  have u: "unat (of_nat (0x70 + n) :: u8) = 0x70 + n" using n by (intro opcode_unat) simp
  obtain w where w: "register_value fa abi n = Some w" "memory_int fa (w + of_int i) = Some v"
    using v At_register by (auto simp: bind_eq_Some_conv)
  from eval_at_register [OF ty n w(1) refl w(2)] show ?thesis
    using u n by (simp add: eval_from_dwarf_expr_def e At_register opcode_le Let_def del: of_nat_add)
next
  case (Register_plus n i)
  then have n: "n < 32" "readable_offset i" using assms(3) by simp_all
  have u: "unat (of_nat (0x70 + n) :: u8) = 0x70 + n" using n by (intro opcode_unat) simp
  obtain w where w: "register_value fa abi n = Some w" "v = int32_of (unat (w + of_int i))" using v Register_plus by auto
  from eval_register_plus [OF ty n w(1) refl] show ?thesis
    using u n w(2) by (simp add: eval_from_dwarf_expr_def e Register_plus opcode_le Let_def del: of_nat_add)
qed (use assms(5) in simp_all)

lemma eval_int_location:
  assumes ty: "vi_type_name var = ''int''" and e: "vi_dwarf_location_expr var = encode_location loc"
    and "encodable loc" and v: "located_int fa abi loc = Some v"
  shows "eval_from_dwarf_expr fa abi var = Some (show_value (to_string_signed v) (blank_value var))"
proof (cases loc)
  case (At_frame i)
  then have "readable_offset i" "memory_int fa (frame_base fa + of_int i) = Some v" using assms(3) v by simp_all
  with memory_int_read [OF ty this(2)] show ?thesis
    by (simp add: eval_from_dwarf_expr_def e At_frame opcode_le Let_def eval_fbreg_def decode_readable_Nil frame_base_def)
next
  case (Constant i)
  then have "readable_offset i" using assms(3) by simp
  with Constant v ty show ?thesis
    by (simp add: eval_from_dwarf_expr_def e opcode_le Let_def eval_const_def decode_readable sint_of_readable)
next
  case (Unsigned_constant n)
  then have n: "n < 2 ^ 63" using assms(3) by simp
  then have u: "unat (of_nat n :: u64) = n" by (simp add: unat_of_nat)
  have "sint (of_nat n :: u64) = int n" using n by (simp add: signed_of_nat signed_take_bit_int_eq_self)
  with Unsigned_constant v ty decode_encode_uleb [of "of_nat n" "[0x9f]"] u show ?thesis
    by (simp add: eval_from_dwarf_expr_def e opcode_le Let_def eval_const_def)
next
  case (Literal n)
  then have n: "n < 32" using assms(3) by simp
  have u: "unat (of_nat (0x30 + n) :: u8) = 0x30 + n" using n by (intro opcode_unat) simp
  have "unat (ucast (of_nat (0x30 + n) :: u8) - (of_nat 0x30 :: u64)) = n" using n by (intro opcode_number) simp
  then have k: "ucast (of_nat (0x30 + n) :: u8) - 0x30 = (of_nat n :: u64)" using n
    by (simp add: word_unat_eq_iff unat_of_nat del: of_nat_add)
  have "sint (of_nat n :: u64) = int n" using n by (simp add: signed_of_nat signed_take_bit_int_eq_self)
  with Literal v ty u n k show ?thesis
    by (simp add: eval_from_dwarf_expr_def e opcode_le Let_def eval_const_def del: of_nat_add)
next
  case (Implicit bs)
  then have bs: "length bs = 4" "v = int32_of (le_value bs)" using v by (simp_all split: if_splits)
  have nv: "parse_ocl_vector_type ''int'' = None"
    by (simp add: parse_ocl_vector_type_def kElems_def starts_with_def lane_suffix_def)
  show ?thesis
    by (simp add: eval_from_dwarf_expr_def e Implicit opcode_le Let_def eval_implicit_value_def bs nv ty int32_string_of)
qed (use eval_register_location [OF assms] in simp_all)


definition demo_answers :: "u8 list \<Rightarrow> frame_answers" where
  "demo_answers bytes = \<lparr>fa_variable = Map.empty, fa_register = Map.empty, fa_fp = 0x7000, fa_sp = 0x6000, fa_process_valid = True,
     fa_read = (\<lambda>a n. if a = 0x6fec then (True, take n bytes) else (False, []))\<rparr>"

definition demo_variable :: var_info where
  "demo_variable = \<lparr>vi_name = ''i'', vi_type_name = ''int'', vi_address_space = [], vi_location_pc = 0,
     vi_dwarf_location_expr = [0x91, 0x6c]\<rparr>"

definition demo_context :: cpu_exec_ctx where
  "demo_context = \<lparr>host_thread_id = 77, ctx_frame = Some blank_frame\<rparr>"


text \<open>
  The cache is keyed by the name alone: once a variable has been seen, a frame that cannot show it gets the
  value another work-item had, marked as available.
\<close>

lemma stale_value_shown:
  assumes "fr_valid f1" "fr_valid f2" "fa_variable (answers f1) (vi_name var) = Some v" "vi_name var \<noteq> []"
    and "sv_value v = Some s" "fa_variable (answers f2) (vi_name var) = None" "vi_dwarf_location_expr var = []"
    and "evaluate answers abi var (Some \<lparr>host_thread_id = t1, ctx_frame = Some f1\<rparr>) Map.empty = Some (r1, cache)"
  shows "\<exists>r2. evaluate answers abi var (Some \<lparr>host_thread_id = t2, ctx_frame = Some f2\<rparr>) cache = Some (r2, cache)
    \<and> vv_available r2 \<and> vv_value_str r2 = s"
proof -
  have "cache = [vi_name var \<mapsto> eval_from_sbvalue v var]"
    using assms by (simp add: evaluate_def eval_from_sbvalue_def show_value_def Let_def split: if_splits)
  moreover have "vv_available (eval_from_sbvalue v var) \<and> vv_value_str (eval_from_sbvalue v var) = s"
    using assms(5) by (simp add: eval_from_sbvalue_def show_value_def Let_def)
  ultimately show ?thesis
    using assms(2,4,6,7) by (simp add: evaluate_def evaluate_dwarf_def evaluate_fallback_def Let_def)
qed

end
