(* ===== verification/WorkGroupTracker.thy ===== *)
theory WorkGroupTracker
  imports NDRange
begin

text \<open>
  \<^verbatim>\<open>ocldbg/backends/cpu/WorkGroupTracker.{h,cpp}\<close>: which host thread is executing which
  work-group.  The C++ \<^verbatim>\<open>unordered_map\<close> has no specified iteration order, and
  \<^verbatim>\<open>host_thread_for_wi\<close> returns the first match of an iteration; the order is therefore a
  parameter of that operation, a permutation of the entries (\<open>entries_of\<close>).  The mutex only
  serialises the operations.  The file also holds the interface \<open>thread_map\<close> under which the
  debugger context uses the tracker.
\<close>

record tracker =
  thread_to_wg :: "u64 \<rightharpoonup> size3"
  tr_global_size :: size3
  tr_local_size :: size3
  shm_fd :: int

definition new_tracker :: tracker where
  "new_tracker = \<lparr>thread_to_wg = Map.empty, tr_global_size = Size3 0 0 0, tr_local_size = Size3 1 1 1,
     shm_fd = - 1\<rparr>"

definition record_wg :: "u64 \<Rightarrow> size3 \<Rightarrow> tracker \<Rightarrow> tracker" where
  "record_wg host_thread_id wg t = t\<lparr>thread_to_wg := (thread_to_wg t)(host_thread_id \<mapsto> wg)\<rparr>"

definition set_ndrange :: "size3 \<Rightarrow> size3 \<Rightarrow> tracker \<Rightarrow> tracker" where
  "set_ndrange g l t = t\<lparr>tr_global_size := g, tr_local_size := l\<rparr>"

definition clear :: "tracker \<Rightarrow> tracker" where
  "clear t = t\<lparr>thread_to_wg := Map.empty\<rparr>"

definition connect_shm :: "tracker \<Rightarrow> bool \<times> tracker" where
  "connect_shm t = (True, t)"

definition refresh :: "tracker \<Rightarrow> tracker" where
  "refresh t = t"

fun first_thread_with :: "size3 \<Rightarrow> (u64 \<times> size3) list \<Rightarrow> u64" where
  "first_thread_with target_wg [] = 0"
| "first_thread_with target_wg ((tid, wg) # rest) =
     (if wg = target_wg then tid else first_thread_with target_wg rest)"

definition host_thread_for_wi :: "(u64 \<times> size3) list \<Rightarrow> size3 \<Rightarrow> tracker \<Rightarrow> u64" where
  "host_thread_for_wi iteration gid t =
     first_thread_with (map_group_id (map_work_item (tr_local_size t) gid)) iteration"

definition wg_for_thread :: "u64 \<Rightarrow> tracker \<Rightarrow> size3" where
  "wg_for_thread host_thread_id t = (case thread_to_wg t host_thread_id of Some wg \<Rightarrow> wg | None \<Rightarrow> Size3 0 0 0)"

text \<open>\<open>iteration\<close> visits every entry of the map, each once.\<close>

definition entries_of :: "(u64 \<times> size3) list \<Rightarrow> tracker \<Rightarrow> bool" where
  "entries_of iteration t \<longleftrightarrow> distinct (map fst iteration) \<and> map_of iteration = thread_to_wg t"

section \<open>The interface of the tracker\<close>

text \<open>
  What the clients of the tracker rely on: recording is a map update, clearing empties it, and the
  NDRange setting does not touch the mapping.
\<close>

locale thread_map =
  fixes assign :: "'t \<Rightarrow> 'w \<Rightarrow> 's \<Rightarrow> 's"
    and reset :: "'s \<Rightarrow> 's"
    and find :: "'t \<Rightarrow> 's \<Rightarrow> 'w"
    and unknown :: 'w
  assumes find_assign_same: "find t (assign t w s) = w"
    and find_assign_other: "t \<noteq> u \<Longrightarrow> find t (assign u w s) = find t s"
    and find_reset: "find t (reset s) = unknown"
begin

fun assign_all :: "('t \<times> 'w) list \<Rightarrow> 's \<Rightarrow> 's" where
  "assign_all [] s = s"
| "assign_all ((t, w) # es) s = assign_all es (assign t w s)"

lemma find_assign: "find t (assign u w s) = (if t = u then w else find t s)"
  by (simp add: find_assign_same find_assign_other)

text \<open>After a series of dispatches the thread's last one is the one reported.\<close>

lemma find_assign_all: "find t (assign_all es s) = (case map_of (rev es) t of Some w \<Rightarrow> w | None \<Rightarrow> find t s)"
proof (induction es arbitrary: s)
  case (Cons e es)
  then show ?case by (cases e) (auto simp: find_assign map_add_def split: option.splits)
qed simp

lemma find_assign_all_reset:
  "find t (assign_all es (reset s)) = (case map_of (rev es) t of Some w \<Rightarrow> w | None \<Rightarrow> unknown)"
  by (simp add: find_assign_all find_reset split: option.split)

end

interpretation wgt: thread_map record_wg clear wg_for_thread "Size3 0 0 0"
  by unfold_locales (simp_all add: record_wg_def clear_def wg_for_thread_def)

text \<open>The dispatches a tracking run records, in the order it records them.\<close>

fun record_all :: "(u64 \<times> size3) list \<Rightarrow> tracker \<Rightarrow> tracker" where
  "record_all [] t = t"
| "record_all ((tid, wg) # ds) t = record_all ds (record_wg tid wg t)"

lemma record_all_assign_all: "record_all ds t = wgt.assign_all ds t"
  by (induction ds arbitrary: t) auto

section \<open>Properties\<close>

text \<open>
  After the tracker is cleared and a run of dispatches recorded, a thread reports the
  work-group of its last dispatch, and the zero coordinate when it had none.
\<close>

theorem tracker_reports_last_dispatch:
  "wg_for_thread tid (record_all ds (clear t)) =
     (case map_of (rev ds) tid of Some wg \<Rightarrow> wg | None \<Rightarrow> Size3 0 0 0)"
  by (simp only: record_all_assign_all wgt.find_assign_all_reset)

lemma first_thread_with_sound:
  "first_thread_with w es = tid \<Longrightarrow> tid \<noteq> 0 \<Longrightarrow> (tid, w) \<in> set es"
  by (induction w es rule: first_thread_with.induct) (auto split: if_splits)

lemma first_thread_with_0:
  "first_thread_with w es = 0 \<Longrightarrow> (tid, w) \<in> set es \<Longrightarrow> tid \<noteq> 0 \<Longrightarrow> \<exists>wg. (0, wg) \<in> set es"
  by (induction w es rule: first_thread_with.induct) (auto split: if_splits)

text \<open>
  The reverse lookup is right under every iteration order of the hash map: a non-zero answer is
  a thread whose recorded work-group contains the work-item, and as long as no thread has the
  reserved id 0, the answer 0 means that no recorded thread runs the work-item's group.
\<close>

theorem host_thread_for_wi_correct:
  assumes "entries_of iteration t" and "thread_to_wg t 0 = None"
  shows "(host_thread_for_wi iteration gid t \<noteq> 0 \<and>
            wg_for_thread (host_thread_for_wi iteration gid t) t = map_group_id (map_work_item (tr_local_size t) gid))
       \<or> (host_thread_for_wi iteration gid t = 0 \<and>
            (\<forall>tid. thread_to_wg t tid \<noteq> Some (map_group_id (map_work_item (tr_local_size t) gid))))"
proof -
  let ?w = "map_group_id (map_work_item (tr_local_size t) gid)" and ?tid = "host_thread_for_wi iteration gid t"
  from assms(1) have it: "map_of iteration = thread_to_wg t" "distinct (map fst iteration)"
    by (simp_all add: entries_of_def)
  have entry: "(tid, wg) \<in> set iteration \<longleftrightarrow> thread_to_wg t tid = Some wg" for tid wg
    using it by (metis map_of_eq_Some_iff)
  show ?thesis
  proof (cases "?tid = 0")
    case True
    have "thread_to_wg t tid \<noteq> Some ?w" for tid
    proof
      assume a: "thread_to_wg t tid = Some ?w"
      with assms(2) have "tid \<noteq> 0" by auto
      with a True obtain wg where "(0, wg) \<in> set iteration"
        using first_thread_with_0 [of ?w iteration tid] by (auto simp: host_thread_for_wi_def entry)
      with assms(2) show False by (simp add: entry)
    qed
    with True show ?thesis by blast
  next
    case False
    then have "thread_to_wg t ?tid = Some ?w"
      using first_thread_with_sound [of ?w iteration] by (simp add: host_thread_for_wi_def entry [symmetric])
    with False show ?thesis by (simp add: wg_for_thread_def)
  qed
qed

theorem host_thread_for_wi_correct_witness:
  "let t = record_wg 7 (Size3 2 0 0) (record_wg 5 (Size3 1 0 0) (set_ndrange (Size3 16 1 1) (Size3 4 1 1) new_tracker))
   in host_thread_for_wi [(5, Size3 1 0 0), (7, Size3 2 0 0)] (Size3 9 0 0) t = 7
      \<and> wg_for_thread 7 t = Size3 2 0 0"
proof -
  let ?t = "record_wg 7 (Size3 2 0 0) (record_wg 5 (Size3 1 0 0) (set_ndrange (Size3 16 1 1) (Size3 4 1 1) new_tracker))"
  let ?it = "[(5, Size3 1 0 0), (7, Size3 2 0 0)]"
  have h: "entries_of ?it ?t" "thread_to_wg ?t 0 = None"
    by (auto simp: entries_of_def record_wg_def set_ndrange_def new_tracker_def fun_eq_iff)
  have v: "host_thread_for_wi ?it (Size3 9 0 0) ?t = 7" "map_group_id (map_work_item (tr_local_size ?t) (Size3 9 0 0)) = Size3 2 0 0"
    by (simp_all add: host_thread_for_wi_def record_wg_def set_ndrange_def new_tracker_def map_work_item_def
        at_least_one_def Let_def)
  have "wg_for_thread 7 ?t = Size3 2 0 0"
    using host_thread_for_wi_correct [OF h, of "Size3 9 0 0"] unfolding v by simp
  with v(1) show ?thesis unfolding Let_def by blast
qed

end
