(* ===== verification/StoppedItems.thy ===== *)
theory StoppedItems
  imports CPUABI WorkGroupTracker
begin

text \<open>
  The part of \<^verbatim>\<open>ocldbg/DebuggerContext.cpp\<close> that looks at a stopped process: which threads run which
  work-groups, which work-items are stopped, and the selection of one.  The target is the debugger's, or
  LLDB's selected one if that is not valid; \<open>target_valid\<close> says whether there is one in the end, and \<open>pr\<close> is
  its process.  \<open>order\<close> is the iteration order of the tracker's unordered map.
\<close>

section \<open>State\<close>

text \<open>The fields of \<^verbatim>\<open>DebuggerContext::Impl\<close> these functions use.\<close>

record item_state =
  is_abi :: "cpu_abi option"
  is_launch_info :: "kernel_launch_info option"
  is_tracker :: tracker
  is_selected :: "cpu_exec_ctx ocl_work_item option"
  is_lldb_thread :: "u64 option"         \<comment> \<open>the thread last passed to \<^verbatim>\<open>SetSelectedThread\<close>\<close>

definition new_item_state :: "cpu_abi option \<Rightarrow> item_state" where
  "new_item_state abi = \<lparr>is_abi = abi, is_launch_info = None, is_tracker = new_tracker, is_selected = None, is_lldb_thread = None\<rparr>"

type_synonym iteration_order = "tracker \<Rightarrow> (u64 \<times> size3) list"

definition lawful_order :: "iteration_order \<Rightarrow> bool" where
  "lawful_order order \<longleftrightarrow> (\<forall>t. finite (dom (thread_to_wg t)) \<longrightarrow> entries_of (order t) t)"

section \<open>Which thread runs which group\<close>

definition read_group :: "cpu_abi option \<Rightarrow> lldb_frame \<Rightarrow> size3 option" where
  "read_group abi f = (case abi of None \<Rightarrow> None | Some a \<Rightarrow> read_workgroup_id a f)"

text \<open>\<^verbatim>\<open>record_stopped_workgroups\<close> of the continue loop.\<close>

fun record_stopped :: "cpu_abi \<Rightarrow> lldb_thread list \<Rightarrow> tracker \<Rightarrow> tracker" where
  "record_stopped abi [] tr = tr"
| "record_stopped abi (t # ts) tr =
     record_stopped abi ts
       (if th_valid t \<and> th_reason t \<noteq> Stop_none then
          (case read_workgroup_id abi (th_frame_0 t) of None \<Rightarrow> tr | Some wg \<Rightarrow> record_wg (th_id t) wg tr)
        else tr)"

definition record_stopped_workgroups :: "lldb_process \<Rightarrow> cpu_abi option \<Rightarrow> tracker \<Rightarrow> tracker" where
  "record_stopped_workgroups pr abi tr = (case abi of None \<Rightarrow> tr | Some a \<Rightarrow> record_stopped a (pr_threads pr) tr)"

text \<open>The overload of the tracking loop: the tracker, the dispatch count and the first thread hit.\<close>

record dispatch_state =
  ds_tracker :: tracker
  ds_count :: size_t
  ds_first :: u64

fun record_dispatches :: "cpu_abi \<Rightarrow> lldb_thread list \<Rightarrow> dispatch_state \<Rightarrow> bool \<times> dispatch_state" where
  "record_dispatches abi [] s = (False, s)"
| "record_dispatches abi (t # ts) s =
     (if \<not> th_valid t \<or> th_reason t \<noteq> Stop_breakpoint then record_dispatches abi ts s
      else case read_workgroup_id abi (selected_or_first_frame t) of
        None \<Rightarrow> record_dispatches abi ts s
      | Some wg \<Rightarrow>
          (True, snd (record_dispatches abi ts \<lparr>ds_tracker = record_wg (th_id t) wg (ds_tracker s), ds_count = ds_count s + 1,
             ds_first = (if ds_first s = 0 then th_id t else ds_first s)\<rparr>)))"

definition check_enqueue_ndrange :: "lldb_process \<Rightarrow> cpu_abi option \<Rightarrow> bool" where
  "check_enqueue_ndrange pr abi =
     (case abi of
        None \<Rightarrow> False
      | Some a \<Rightarrow> \<exists>t \<in> set (pr_threads pr). th_valid t \<and> th_reason t \<noteq> Stop_none
          \<and> read_enqueue_ndrange a pr (th_frame_0 t) \<noteq> None)"

section \<open>Inferring the launch\<close>

definition infer_kernel_launch :: "lldb_process \<Rightarrow> string \<Rightarrow> item_state \<Rightarrow> bool \<times> string \<times> item_state" where
  "infer_kernel_launch pr kernel_name s =
     (if \<not> pr_valid pr \<or> pr_state pr \<noteq> State_stopped then (False, kernel_name, s)
      else let frame = selected_or_first_frame (pr_selected pr) in
        case is_abi s of
          None \<Rightarrow> (False, kernel_name, s)
        | Some abi \<Rightarrow>
            (case read_enqueue_ndrange abi pr frame of
               None \<Rightarrow> (False, kernel_name, s)
             | Some (global_size, local_size, wdim) \<Rightarrow>
                 let kname = (case read_enqueue_kernel_name abi pr frame of None \<Rightarrow> kernel_name | Some n \<Rightarrow> n)
                 in (True, kname, s\<lparr>is_launch_info := Some (make_launch_info kname wdim global_size local_size),
                      is_tracker := set_ndrange global_size local_size (is_tracker s)\<rparr>)))"

section \<open>Selecting a work-item\<close>

definition get_local_dims :: "kernel_launch_info option \<Rightarrow> size3" where
  "get_local_dims info =
     (case info of
        Some i \<Rightarrow> Size3 (at_least_one (dim_x (li_local_size i))) (at_least_one (dim_y (li_local_size i)))
                        (at_least_one (dim_z (li_local_size i)))
      | None \<Rightarrow> Size3 4 1 1)"

definition match_wg :: "size3 \<Rightarrow> size3 \<Rightarrow> bool" where
  "match_wg wg target \<longleftrightarrow> dim_x wg = dim_x target \<and> (dim_y target = 0 \<or> dim_y wg = dim_y target)
     \<and> (dim_z target = 0 \<or> dim_z wg = dim_z target)"

fun match_threads :: "cpu_abi option \<Rightarrow> lldb_thread list \<Rightarrow> size3 \<Rightarrow> tracker \<Rightarrow> lldb_thread option \<times> tracker" where
  "match_threads abi [] target tr = (None, tr)"
| "match_threads abi (t # ts) target tr =
     (if \<not> th_valid t \<or> th_reason t = Stop_none \<or> \<not> fr_valid (th_frame_0 t) then match_threads abi ts target tr
      else case read_group abi (th_frame_0 t) of
        None \<Rightarrow> match_threads abi ts target tr
      | Some wg \<Rightarrow> let tr' = record_wg (th_id t) wg tr in
          if match_wg wg target then (Some t, tr') else match_threads abi ts target tr')"

definition find_thread_for_target_wg :: "iteration_order \<Rightarrow> lldb_process \<Rightarrow> cpu_abi option \<Rightarrow> tracker \<Rightarrow> size3 \<Rightarrow> size3
    \<Rightarrow> lldb_thread option \<times> tracker" where
  "find_thread_for_target_wg order pr abi tr target gid =
     (case match_threads abi (pr_threads pr) target tr of
        (Some t, tr') \<Rightarrow> (Some t, tr')
      | (None, tr') \<Rightarrow>
          let tid = host_thread_for_wi (order tr') gid tr' in
          (if tid \<noteq> 0 then find (\<lambda>t. th_valid t \<and> th_id t = tid \<and> th_reason t \<noteq> Stop_none) (pr_threads pr) else None, tr'))"

definition frame_context :: "lldb_thread \<Rightarrow> lldb_frame \<Rightarrow> cpu_exec_ctx" where
  "frame_context t f = \<lparr>host_thread_id = th_id t, ctx_frame = Some f\<rparr>"

definition select_work_item :: "iteration_order \<Rightarrow> bool \<Rightarrow> lldb_process \<Rightarrow> size3 \<Rightarrow> item_state \<Rightarrow> bool \<times> item_state" where
  "select_work_item order target_valid pr gid s =
     (if \<not> target_valid \<or> \<not> pr_valid pr \<or> pr_state pr \<noteq> State_stopped then (False, s)
      else let dims = get_local_dims (is_launch_info s);
               target_wg = Size3 (dim_x gid div dim_x dims) (dim_y gid div dim_y dims) (dim_z gid div dim_z dims);
               target_local = Size3 (dim_x gid mod dim_x dims) (dim_y gid mod dim_y dims) (dim_z gid mod dim_z dims);
               (matched, tr) = find_thread_for_target_wg order pr (is_abi s) (is_tracker s) target_wg gid;
               s1 = s\<lparr>is_tracker := tr\<rparr>
           in case matched of
                None \<Rightarrow> (False, s1)
              | Some t \<Rightarrow>
                  let frame = selected_or_first_frame t;
                      wd = (case is_launch_info s of None \<Rightarrow> 0 | Some i \<Rightarrow> if li_work_dim i > 0 then li_work_dim i else 0);
                      wi = empty_work_item\<lparr>work_dim := wd, global_id := gid, group_id := target_wg, local_id := target_local\<rparr>;
                      wi' = (set_source_location frame wi)\<lparr>exec_ctx := Some (frame_context t frame)\<rparr>
                  in (True, s1\<lparr>is_selected := Some wi', is_lldb_thread := Some (th_id t)\<rparr>))"

section \<open>Listing the stopped work-items\<close>

definition stopped_item :: "cpu_abi option \<Rightarrow> size_t \<Rightarrow> size_t \<Rightarrow> lldb_thread \<Rightarrow> tracker \<Rightarrow> cpu_exec_ctx ocl_work_item \<times> tracker" where
  "stopped_item abi lx wdim t tr =
     (let f = th_frame_0 t;
          (wg, tr') = (case read_group abi f of
             Some wg \<Rightarrow> (wg, record_wg (th_id t) wg tr)
           | None \<Rightarrow> (wg_for_thread (th_id t) tr, tr));
          group = Size3 (dim_x wg) (if dim_y wg < 0x100000 then dim_y wg else 0) 0;
          lid = (case Option.bind abi (\<lambda>a. abi_local_id a f (Size3 lx 1 1)) of Some l \<Rightarrow> l | None \<Rightarrow> Size3 0 0 0);
          wi = empty_work_item\<lparr>work_dim := wdim, group_id := group, local_id := lid,
                 global_id := Size3 (dim_x group * lx + dim_x lid) (dim_y group * 1 + dim_y lid) (dim_z group * 1 + dim_z lid)\<rparr>
      in ((set_source_location f wi)\<lparr>exec_ctx := Some (frame_context t f)\<rparr>, tr'))"

fun stopped_items :: "cpu_abi option \<Rightarrow> size_t \<Rightarrow> size_t \<Rightarrow> lldb_thread list \<Rightarrow> tracker \<Rightarrow> cpu_exec_ctx ocl_work_item list \<times> tracker" where
  "stopped_items abi lx wdim [] tr = ([], tr)"
| "stopped_items abi lx wdim (t # ts) tr =
     (if \<not> th_valid t \<or> th_reason t = Stop_none \<or> \<not> fr_valid (th_frame_0 t) then stopped_items abi lx wdim ts tr
      else let (wi, tr1) = stopped_item abi lx wdim t tr; (wis, tr2) = stopped_items abi lx wdim ts tr1 in (wi # wis, tr2))"

definition launch_lx :: "kernel_launch_info option \<Rightarrow> size_t" where
  "launch_lx info = (case info of None \<Rightarrow> 4 | Some i \<Rightarrow> if dim_x (li_local_size i) > 0 then dim_x (li_local_size i) else 4)"

definition launch_dim :: "kernel_launch_info option \<Rightarrow> size_t" where
  "launch_dim info = (case info of None \<Rightarrow> 1 | Some i \<Rightarrow> if dim_x (li_local_size i) > 0 then li_work_dim i else 1)"

definition list_stopped_work_items :: "bool \<Rightarrow> lldb_process \<Rightarrow> item_state \<Rightarrow> cpu_exec_ctx ocl_work_item list \<times> item_state" where
  "list_stopped_work_items target_valid pr s =
     (if \<not> target_valid \<or> \<not> pr_valid pr \<or> pr_state pr \<noteq> State_stopped then ([], s)
      else let (wis, tr) = stopped_items (is_abi s) (launch_lx (is_launch_info s)) (launch_dim (is_launch_info s))
                             (pr_threads pr) (is_tracker s)
           in (wis, s\<lparr>is_tracker := tr\<rparr>))"

section \<open>The work-item of a thread\<close>

text \<open>The extractor is made afresh, for the host's ABI; the lookup stops at the first thread with the id.\<close>

definition resolve_stopped_work_item :: "cpu_abi option \<Rightarrow> lldb_process \<Rightarrow> u64 \<Rightarrow> item_state \<Rightarrow> cpu_exec_ctx ocl_work_item option" where
  "resolve_stopped_work_item host_abi pr thread_id s =
     (case is_launch_info s of
        None \<Rightarrow> None
      | Some info \<Rightarrow>
          if is_abi s = None then None
          else case find (\<lambda>t. th_valid t \<and> th_id t = thread_id) (pr_threads pr) of
            None \<Rightarrow> None
          | Some t \<Rightarrow> map_option (\<lambda>wi. wi\<lparr>work_dim := li_work_dim info\<rparr>)
              (extract_from_thread host_abi t (wg_for_thread thread_id (is_tracker s)) (li_local_size info) empty_work_item))"

text \<open>Whether a stop concerns the user: a finished step, a signal, an exception, or one of the breakpoints with the given ids.\<close>

definition check_user_stop :: "lldb_process \<Rightarrow> int set \<Rightarrow> bool" where
  "check_user_stop pr bp_ids \<longleftrightarrow>
     (\<exists>t \<in> set (pr_threads pr). th_valid t \<and> th_reason t \<noteq> Stop_none
        \<and> (th_reason t \<in> {Stop_plan_complete, Stop_signal, Stop_exception}
           \<or> th_reason t = Stop_breakpoint \<and> sint (ucast (th_reason_data t) :: u32) \<in> bp_ids))"

definition find_line_breakpoint_thread :: "lldb_process \<Rightarrow> int \<Rightarrow> u64 option" where
  "find_line_breakpoint_thread pr bp_id =
     map_option th_id (find (\<lambda>t. th_valid t \<and> th_reason t = Stop_breakpoint \<and> uint (th_reason_data t) = bp_id) (pr_threads pr))"

section \<open>The state the functions keep\<close>

text \<open>
  The tracker divides by the local size of the launch, and holds finitely many threads.  Every function
  above keeps this.
\<close>

definition items_ok :: "item_state \<Rightarrow> bool" where
  "items_ok s \<longleftrightarrow> finite (dom (thread_to_wg (is_tracker s)))
     \<and> (\<forall>info. is_launch_info s = Some info \<longrightarrow> tr_local_size (is_tracker s) = li_local_size info)"

definition same_setting :: "tracker \<Rightarrow> tracker \<Rightarrow> bool" where
  "same_setting tr tr' \<longleftrightarrow> tr_local_size tr' = tr_local_size tr
     \<and> (finite (dom (thread_to_wg tr)) \<longrightarrow> finite (dom (thread_to_wg tr')))"

lemma same_setting_refl [simp]: "same_setting tr tr"
  by (simp add: same_setting_def)

lemma same_setting_trans: "same_setting a b \<Longrightarrow> same_setting b c \<Longrightarrow> same_setting a c"
  by (simp add: same_setting_def)

lemma same_setting_record [simp]: "same_setting tr (record_wg t wg tr)"
  by (simp add: same_setting_def record_wg_def)

lemma record_stopped_setting: "same_setting tr (record_stopped abi ts tr)"
proof (induction abi ts tr rule: record_stopped.induct)
  case (2 abi t ts tr)
  let ?tr = "if th_valid t \<and> th_reason t \<noteq> Stop_none
    then case read_workgroup_id abi (th_frame_0 t) of None \<Rightarrow> tr | Some wg \<Rightarrow> record_wg (th_id t) wg tr else tr"
  have "same_setting tr ?tr" by (simp split: option.split)
  from same_setting_trans [OF this 2] show ?case by simp
qed simp

lemma match_threads_setting: "match_threads abi ts target tr = (m, tr') \<Longrightarrow> same_setting tr tr'"
  by (induction abi ts target tr rule: match_threads.induct)
     (auto simp: Let_def split: if_splits option.splits intro: same_setting_trans [OF same_setting_record])

lemma find_thread_setting: "find_thread_for_target_wg order pr abi tr target gid = (m, tr') \<Longrightarrow> same_setting tr tr'"
  by (auto simp: find_thread_for_target_wg_def Let_def split: prod.splits option.splits dest: match_threads_setting)

lemma stopped_item_setting: "stopped_item abi lx wd t tr = (wi, tr') \<Longrightarrow> same_setting tr tr'"
  by (auto simp: stopped_item_def Let_def split: prod.splits option.splits)

lemma stopped_items_setting: "stopped_items abi lx wd ts tr = (wis, tr') \<Longrightarrow> same_setting tr tr'"
proof (induction abi lx wd ts tr arbitrary: wis tr' rule: stopped_items.induct)
  case (2 abi lx wd t ts tr)
  show ?case
  proof (cases "\<not> th_valid t \<or> th_reason t = Stop_none \<or> \<not> fr_valid (th_frame_0 t)")
    case True
    with 2 show ?thesis by simp
  next
    case False
    obtain wi tr1 where 1: "stopped_item abi lx wd t tr = (wi, tr1)" by fastforce
    obtain ws where "stopped_items abi lx wd ts tr1 = (ws, tr')" using "2.prems" False 1 by (auto split: prod.splits)
    with "2.IH"(2) [OF False] 1 stopped_item_setting [OF 1] show ?thesis by (auto intro: same_setting_trans)
  qed
qed simp

lemma items_ok_setting:
  "items_ok s \<Longrightarrow> same_setting (is_tracker s) (is_tracker s') \<Longrightarrow> is_launch_info s' = is_launch_info s \<Longrightarrow> items_ok s'"
  by (simp add: items_ok_def same_setting_def)

lemma items_ok_infer:
  "infer_kernel_launch pr kn s = (ok, kn', s') \<Longrightarrow> items_ok s \<Longrightarrow> items_ok s'"
  by (auto simp: infer_kernel_launch_def Let_def items_ok_def make_launch_info_def set_ndrange_def
      split: if_splits option.splits prod.splits)

lemma items_ok_select:
  assumes "select_work_item order tv pr gid s = (ok, s')" "items_ok s"
  shows "items_ok s'"
proof -
  have "is_launch_info s' = is_launch_info s \<and> same_setting (is_tracker s) (is_tracker s')"
    using assms(1) by (auto simp: select_work_item_def Let_def split: if_splits option.splits prod.splits
        dest: find_thread_setting)
  with items_ok_setting [OF assms(2)] show ?thesis by blast
qed

lemma items_ok_list:
  assumes "list_stopped_work_items tv pr s = (wis, s')" "items_ok s"
  shows "items_ok s'"
proof -
  have "is_launch_info s' = is_launch_info s \<and> same_setting (is_tracker s) (is_tracker s')"
    using assms(1) by (auto simp: list_stopped_work_items_def split: if_splits prod.splits dest: stopped_items_setting)
  with items_ok_setting [OF assms(2)] show ?thesis by blast
qed

section \<open>The tracker after a stop\<close>

lemma wg_for_thread_record:
  "wg_for_thread t (record_wg u wg tr) = (if t = u then wg else wg_for_thread t tr)"
  by (rule wgt.find_assign)

lemma record_stopped_other:
  "(\<And>t. t \<in> set ts \<Longrightarrow> th_id t \<noteq> tid) \<Longrightarrow> wg_for_thread tid (record_stopped abi ts tr) = wg_for_thread tid tr"
proof (induction abi ts tr rule: record_stopped.induct)
  case (2 abi t ts tr)
  then show ?case by (auto simp: wg_for_thread_record split: option.split)
qed simp

text \<open>
  After a stop the tracker is up to date: with distinct thread ids, every stopped thread whose
  first frame gives a group is recorded as running that group, and what is recorded of every other
  thread is as it was.
\<close>

theorem stop_updates_tracker:
  assumes "distinct (map th_id (pr_threads pr))"
  shows "(\<forall>t \<in> set (pr_threads pr). \<forall>wg. th_valid t \<and> th_reason t \<noteq> Stop_none \<and> read_workgroup_id abi (th_frame_0 t) = Some wg
      \<longrightarrow> wg_for_thread (th_id t) (record_stopped_workgroups pr (Some abi) tr) = wg)
    \<and> (\<forall>tid. (\<forall>t \<in> set (pr_threads pr). th_valid t \<and> th_reason t \<noteq> Stop_none \<and> read_workgroup_id abi (th_frame_0 t) \<noteq> None
        \<longrightarrow> th_id t \<noteq> tid)
      \<longrightarrow> wg_for_thread tid (record_stopped_workgroups pr (Some abi) tr) = wg_for_thread tid tr)"
proof -
  have "distinct (map th_id ts) \<Longrightarrow> t \<in> set ts \<Longrightarrow> th_valid t \<Longrightarrow> th_reason t \<noteq> Stop_none
      \<Longrightarrow> read_workgroup_id abi (th_frame_0 t) = Some wg \<Longrightarrow> wg_for_thread (th_id t) (record_stopped abi ts tr) = wg" for ts t wg tr
  proof (induction ts arbitrary: tr)
    case (Cons u ts)
    show ?case
    proof (cases "t = u")
      case True
      with Cons.prems have "\<And>v. v \<in> set ts \<Longrightarrow> th_id v \<noteq> th_id t" by (auto simp: image_iff)
      with True Cons.prems show ?thesis by (simp add: record_stopped_other wg_for_thread_record)
    qed (use Cons in auto)
  qed simp
  moreover have "(\<forall>t \<in> set ts. th_valid t \<and> th_reason t \<noteq> Stop_none \<and> read_workgroup_id abi (th_frame_0 t) \<noteq> None \<longrightarrow> th_id t \<noteq> tid)
      \<Longrightarrow> wg_for_thread tid (record_stopped abi ts tr) = wg_for_thread tid tr" for ts tid
    by (induction ts arbitrary: tr) (auto simp: wg_for_thread_record split: option.split)
  ultimately show ?thesis using assms by (simp add: record_stopped_workgroups_def)
qed

theorem stop_updates_tracker_witness:
  "wg_for_thread 77 (record_stopped_workgroups (enqueue_process\<lparr>pr_threads := [idle_thread\<lparr>th_frame_0 := workgroup_frame\<rparr>]\<rparr>)
     (Some aarch64_abi) new_tracker) = Size3 9 5 3"
proof -
  let ?t = "idle_thread\<lparr>th_frame_0 := workgroup_frame\<rparr>"
  let ?pr = "enqueue_process\<lparr>pr_threads := [?t]\<rparr>"
  have d: "distinct (map th_id (pr_threads ?pr))" by simp
  show ?thesis
    using conjunct1 [OF stop_updates_tracker [OF d, of aarch64_abi new_tracker]] workgroup_frame_group by (simp add: idle_thread_def)
qed

section \<open>Selection\<close>

lemma match_wg_refl [simp]: "match_wg wg wg"
  by (simp add: match_wg_def)

lemma match_threads_found:
  "match_threads abi ts target tr = (Some t, tr') \<Longrightarrow>
     t \<in> set ts \<and> th_valid t \<and> th_reason t \<noteq> Stop_none \<and> match_wg (wg_for_thread (th_id t) tr') target"
  by (induction abi ts target tr rule: match_threads.induct)
     (auto simp: Let_def wg_for_thread_record split: if_splits option.splits)

lemma host_thread_runs_group:
  assumes "entries_of es tr" "host_thread_for_wi es gid tr \<noteq> 0"
  shows "wg_for_thread (host_thread_for_wi es gid tr) tr = map_group_id (map_work_item (tr_local_size tr) gid)"
proof -
  let ?w = "map_group_id (map_work_item (tr_local_size tr) gid)"
  have "(host_thread_for_wi es gid tr, ?w) \<in> set es"
    using first_thread_with_sound [of ?w es] assms(2) by (simp add: host_thread_for_wi_def)
  with assms(1) have "thread_to_wg tr (host_thread_for_wi es gid tr) = Some ?w"
    by (simp add: entries_of_def) (metis map_of_eq_Some_iff)
  then show ?thesis by (simp add: wg_for_thread_def)
qed

lemma find_thread_found:
  assumes f: "find_thread_for_target_wg order pr abi tr target gid = (Some t, tr')"
    and "lawful_order order" "finite (dom (thread_to_wg tr))"
    and target: "map_group_id (map_work_item (tr_local_size tr) gid) = target"
  shows "t \<in> set (pr_threads pr) \<and> th_valid t \<and> th_reason t \<noteq> Stop_none \<and> match_wg (wg_for_thread (th_id t) tr') target"
proof -
  obtain m tr1 where m: "match_threads abi (pr_threads pr) target tr = (m, tr1)" by fastforce
  show ?thesis
  proof (cases m)
    case (Some u)
    with f m match_threads_found show ?thesis by (fastforce simp: find_thread_for_target_wg_def)
  next
    case None
    let ?tid = "host_thread_for_wi (order tr1) gid tr1"
    from f m None have tid: "?tid \<noteq> 0" "tr' = tr1"
      "find (\<lambda>t. th_valid t \<and> th_id t = ?tid \<and> th_reason t \<noteq> Stop_none) (pr_threads pr) = Some t"
      by (auto simp: find_thread_for_target_wg_def Let_def split: if_splits)
    have set: "same_setting tr tr1" using match_threads_setting [OF m] .
    with assms(2,3) have "entries_of (order tr1) tr1" by (simp add: lawful_order_def same_setting_def)
    from host_thread_runs_group [OF this tid(1)] set target have "wg_for_thread ?tid tr1 = target"
      by (simp add: same_setting_def)
    with tid show ?thesis by (auto simp: find_Some_iff)
  qed
qed

lemma target_group:
  "Size3 (dim_x gid div dim_x (get_local_dims (Some i))) (dim_y gid div dim_y (get_local_dims (Some i)))
      (dim_z gid div dim_z (get_local_dims (Some i))) = map_group_id (map_work_item (li_local_size i) gid)"
  "Size3 (dim_x gid mod dim_x (get_local_dims (Some i))) (dim_y gid mod dim_y (get_local_dims (Some i)))
      (dim_z gid mod dim_z (get_local_dims (Some i))) = map_local_id (map_work_item (li_local_size i) gid)"
  by (simp_all add: get_local_dims_def map_work_item_def Let_def)

lemma set_source_location_ids [simp]:
  "global_id (set_source_location f wi) = global_id wi" "group_id (set_source_location f wi) = group_id wi"
  "local_id (set_source_location f wi) = local_id wi"
  by (simp_all add: set_source_location_def Let_def split: option.split)

lemma select_item_equation:
  assumes "is_launch_info s = Some info"
    and "find_thread_for_target_wg order pr (is_abi s) (is_tracker s) (map_group_id (map_work_item (li_local_size info) gid)) gid = (m, tr)"
    and "target_valid" "pr_valid pr" "pr_state pr = State_stopped"
  shows "select_work_item order target_valid pr gid s =
    (case m of
       None \<Rightarrow> (False, s\<lparr>is_tracker := tr\<rparr>)
     | Some t \<Rightarrow>
         let frame = selected_or_first_frame t;
             wd = (if li_work_dim info > 0 then li_work_dim info else 0);
             wi = empty_work_item\<lparr>work_dim := wd, global_id := gid, group_id := map_group_id (map_work_item (li_local_size info) gid),
               local_id := map_local_id (map_work_item (li_local_size info) gid)\<rparr>;
             wi' = (set_source_location frame wi)\<lparr>exec_ctx := Some (frame_context t frame)\<rparr>
         in (True, s\<lparr>is_tracker := tr, is_selected := Some wi', is_lldb_thread := Some (th_id t)\<rparr>))"
  using assms by (simp add: select_work_item_def Let_def target_group cong: option.case_cong)


text \<open>The entries by increasing thread id are a lawful order.\<close>

definition tid_order :: iteration_order where
  "tid_order t = map (\<lambda>k. (k, the (thread_to_wg t k))) (sorted_list_of_set (dom (thread_to_wg t)))"

lemma lawful_tid_order: "lawful_order tid_order"
  by (auto simp: lawful_order_def entries_of_def tid_order_def comp_def map_of_map_keys)

definition group_thread :: lldb_thread where
  "group_thread = idle_thread\<lparr>th_frame_0 := workgroup_frame\<rparr>"

definition group_process :: lldb_process where
  "group_process = enqueue_process\<lparr>pr_threads := [group_thread]\<rparr>"

definition launched_state :: "size3 \<Rightarrow> item_state" where
  "launched_state ls = (new_item_state (Some aarch64_abi))
     \<lparr>is_launch_info := Some (make_launch_info ''vadd'' 3 (Size3 1024 1024 64) ls),
      is_tracker := set_ndrange (Size3 1024 1024 64) ls new_tracker\<rparr>"

lemma items_ok_launched: "items_ok (launched_state ls)"
  by (simp add: items_ok_def launched_state_def new_item_state_def make_launch_info_def set_ndrange_def new_tracker_def Let_def)

lemma group_thread_matched:
  "match_threads (Some aarch64_abi) [group_thread] (Size3 9 5 3) tr = (Some group_thread, record_wg 77 (Size3 9 5 3) tr)"
proof -
  have "read_group (Some aarch64_abi) (th_frame_0 group_thread) = Some (Size3 9 5 3)"
    by (simp add: read_group_def group_thread_def workgroup_frame_group)
  moreover have "fr_valid (th_frame_0 group_thread)"
    by (simp add: group_thread_def workgroup_frame_def blank_frame_def)
  ultimately show ?thesis by (simp add: Let_def) (simp add: group_thread_def idle_thread_def)
qed


section \<open>The list and the single lookup agree\<close>

definition stopped_at_frame :: "lldb_thread \<Rightarrow> bool" where
  "stopped_at_frame t \<longleftrightarrow> th_valid t \<and> th_reason t \<noteq> Stop_none \<and> fr_valid (th_frame_0 t)"

text \<open>The group that a stop or the tracker gives for a thread lies in a launch without z groups.\<close>

definition flat_group :: "cpu_abi \<Rightarrow> tracker \<Rightarrow> lldb_thread \<Rightarrow> bool" where
  "flat_group abi tr t = (let wg = (case read_workgroup_id abi (th_frame_0 t) of Some wg \<Rightarrow> wg | None \<Rightarrow> wg_for_thread (th_id t) tr)
     in dim_y wg < 0x100000 \<and> dim_z wg = 0)"

definition at_own_frame :: "lldb_thread \<Rightarrow> bool" where
  "at_own_frame t \<longleftrightarrow> selected_or_first_frame t = th_frame_0 t \<and> fr_thread_id (th_frame_0 t) = th_id t"

lemma find_by_id:
  "distinct (map th_id ts) \<Longrightarrow> t \<in> set ts \<Longrightarrow> th_valid t \<Longrightarrow> find (\<lambda>u. th_valid u \<and> th_id u = th_id t) ts = Some t"
  by (induction ts) (auto simp: image_iff)

lemma stopped_item_tracker:
  "stopped_item (Some abi) lx wd t tr = (wi, tr') \<Longrightarrow> wg_for_thread tid tr' = (if tid = th_id t
     then (case read_workgroup_id abi (th_frame_0 t) of Some wg \<Rightarrow> wg | None \<Rightarrow> wg_for_thread tid tr) else wg_for_thread tid tr)"
  by (auto simp: stopped_item_def read_group_def Let_def wg_for_thread_record split: option.splits)

lemma stopped_items_other:
  "stopped_items (Some abi) lx wd ts tr = (wis, tr') \<Longrightarrow> tid \<notin> th_id ` set ts \<Longrightarrow> wg_for_thread tid tr' = wg_for_thread tid tr"
proof (induction ts arbitrary: wis tr)
  case (Cons t ts)
  show ?case
  proof (cases "stopped_at_frame t")
    case True
    obtain wi tr1 where 1: "stopped_item (Some abi) lx wd t tr = (wi, tr1)" by fastforce
    with Cons.prems True obtain ws where "stopped_items (Some abi) lx wd ts tr1 = (ws, tr')"
      by (auto simp: stopped_at_frame_def split: prod.splits)
    with Cons.IH Cons.prems(2) stopped_item_tracker [OF 1] show ?thesis by simp
  next
    case False
    with Cons show ?thesis by (auto simp: stopped_at_frame_def)
  qed
qed simp

definition item_of :: "cpu_abi \<Rightarrow> size_t \<Rightarrow> size_t \<Rightarrow> tracker \<Rightarrow> lldb_thread \<Rightarrow> cpu_exec_ctx ocl_work_item option" where
  "item_of abi lx wd tr t = map_option (\<lambda>wi. wi\<lparr>work_dim := wd\<rparr>)
     (extract_from_thread (Some abi) t (wg_for_thread (th_id t) tr) (Size3 lx 1 1) empty_work_item)"

lemma set_source_location_work_dim [simp]:
  "(set_source_location f wi)\<lparr>work_dim := d\<rparr> = set_source_location f (wi\<lparr>work_dim := d\<rparr>)"
  by (simp add: set_source_location_def Let_def split: option.split)

lemma exec_ctx_work_dim:
  fixes wi :: "'a ocl_work_item"
  shows "wi\<lparr>exec_ctx := c, work_dim := d\<rparr> = wi\<lparr>work_dim := d, exec_ctx := c\<rparr>"
  by (cases wi) simp

lemma stopped_item_extracted:
  assumes "stopped_item (Some abi) lx wd t tr = (wi, tr1)" and "stopped_at_frame t" and "at_own_frame t"
    and "flat_group abi tr t" and "0 < lx" and lid: "abi_local_id abi (th_frame_0 t) (Size3 lx 1 1) = Some l"
    and "wg_for_thread (th_id t) tr' = wg_for_thread (th_id t) tr1"
  shows "item_of abi lx wd tr' t = Some wi"
proof -
  let ?wg = "case read_workgroup_id abi (th_frame_0 t) of Some wg \<Rightarrow> wg | None \<Rightarrow> wg_for_thread (th_id t) tr"
  have wg: "wg_for_thread (th_id t) tr' = ?wg" using stopped_item_tracker [OF assms(1)] assms(7) by simp
  obtain x y where xy: "?wg = Size3 x y 0" "y < 0x100000"
    using assms(4) by (cases ?wg) (simp add: flat_group_def Let_def)
  have one: "at_least_one lx = lx" "at_least_one 1 = 1" using assms(5) by (simp_all add: at_least_one_def)
  have "stopped_item (Some abi) lx wd t tr = ((set_source_location (th_frame_0 t) (empty_work_item\<lparr>work_dim := wd, group_id := ?wg,
      local_id := l, global_id := global_of ?wg (Size3 lx 1 1) l\<rparr>))\<lparr>exec_ctx := Some (frame_context t (th_frame_0 t))\<rparr>,
      snd (stopped_item (Some abi) lx wd t tr))"
  proof (cases "read_workgroup_id abi (th_frame_0 t)")
    case None
    with xy lid show ?thesis by (simp add: stopped_item_def read_group_def Let_def global_of_def one)
  next
    case (Some wg)
    with xy lid show ?thesis by (simp add: stopped_item_def read_group_def Let_def global_of_def one)
  qed
  with assms(1) have "wi = (set_source_location (th_frame_0 t) (empty_work_item\<lparr>work_dim := wd, group_id := ?wg, local_id := l,
      global_id := global_of ?wg (Size3 lx 1 1) l\<rparr>))\<lparr>exec_ctx := Some (frame_context t (th_frame_0 t))\<rparr>"
    by simp
  with assms(2,3) lid show ?thesis
    by (simp add: item_of_def extract_from_thread_def extract_from_frame_def stopped_at_frame_def at_own_frame_def wg
        frame_context_def exec_ctx_work_dim empty_work_item_def)
qed

lemma stopped_items_extracted:
  assumes "stopped_items (Some abi) lx wd ts tr = (wis, tr')" and "distinct (map th_id ts)" and "0 < lx"
    and "\<And>t. t \<in> set ts \<Longrightarrow> stopped_at_frame t \<Longrightarrow> at_own_frame t \<and> flat_group abi tr t
      \<and> (\<exists>l. abi_local_id abi (th_frame_0 t) (Size3 lx 1 1) = Some l)"
  shows "map Some wis = map (item_of abi lx wd tr') (List.filter stopped_at_frame ts)"
  using assms
proof (induction ts arbitrary: wis tr)
  case (Cons t ts)
  show ?case
  proof (cases "stopped_at_frame t")
    case True
    obtain wi tr1 where 1: "stopped_item (Some abi) lx wd t tr = (wi, tr1)" by fastforce
    with Cons.prems(1) True obtain ws where 2: "stopped_items (Some abi) lx wd ts tr1 = (ws, tr')" "wis = wi # ws"
      by (auto simp: stopped_at_frame_def split: prod.splits)
    have new: "th_id t \<notin> th_id ` set ts" using Cons.prems(2) by auto
    have "flat_group abi tr1 u" if "u \<in> set ts" "stopped_at_frame u" for u
    proof -
      have "th_id u \<noteq> th_id t" using that new by (metis imageI)
      with stopped_item_tracker [OF 1] have "flat_group abi tr1 u = flat_group abi tr u" by (simp add: flat_group_def split: option.split)
      with Cons.prems(4) that show ?thesis by simp
    qed
    with Cons.IH [OF 2(1)] Cons.prems(2-4) have "map Some ws = map (item_of abi lx wd tr') (List.filter stopped_at_frame ts)"
      by simp
    moreover obtain l where l: "abi_local_id abi (th_frame_0 t) (Size3 lx 1 1) = Some l" using Cons.prems(4) True by auto
    have "item_of abi lx wd tr' t = Some wi"
      using stopped_item_extracted [OF 1 True _ _ Cons.prems(3) l stopped_items_other [OF 2(1) new]] Cons.prems(4) True by simp
    ultimately show ?thesis using True 2(2) by simp
  next
    case False
    with Cons show ?thesis by (simp add: stopped_at_frame_def)
  qed
qed simp

text \<open>
  The two ways the debugger finds stopped work-items agree.  In a one-dimensional launch with
  distinct thread ids, the work-items listed are, in the order of the threads, the ones that looking up
  each stopped thread afterwards gives: same ids, same source location, same context.
\<close>

theorem listed_items_resolve:
  assumes list: "list_stopped_work_items True pr s = (wis, s')"
    and abi: "abi \<in> {x86_abi, aarch64_abi}" "is_abi s = Some abi"
    and info: "is_launch_info s = Some info" "li_local_size info = Size3 lx 1 1" "0 < lx"
    and stopped: "pr_valid pr" "pr_state pr = State_stopped"
    and threads: "distinct (map th_id (pr_threads pr))"
      "\<forall>t \<in> set (pr_threads pr). stopped_at_frame t \<longrightarrow> at_own_frame t \<and> flat_group abi (is_tracker s) t"
  shows "map Some wis = map (\<lambda>t. resolve_stopped_work_item (Some abi) pr (th_id t) s') (List.filter stopped_at_frame (pr_threads pr))"
proof -
  have lx: "launch_lx (Some info) = lx" "launch_dim (Some info) = li_work_dim info"
    using info(2,3) by (simp_all add: launch_lx_def launch_dim_def)
  from list obtain tr where tr: "stopped_items (Some abi) lx (li_work_dim info) (pr_threads pr) (is_tracker s) = (wis, tr)"
    "s' = s\<lparr>is_tracker := tr\<rparr>"
    using stopped by (auto simp: list_stopped_work_items_def abi(2) info(1) lx split: prod.splits)
  have lid: "\<exists>l. abi_local_id abi (th_frame_0 t) (Size3 lx 1 1) = Some l" if "stopped_at_frame t" for t
    using that abi(1) x86.local_id_valid [of "th_frame_0 t"] aarch64.local_id_valid [of "th_frame_0 t"]
    by (fastforce simp: stopped_at_frame_def)
  have "map Some wis = map (item_of abi lx (li_work_dim info) tr) (List.filter stopped_at_frame (pr_threads pr))"
    using stopped_items_extracted [OF tr(1) threads(1) info(3)] threads(2) lid by blast
  moreover have "item_of abi lx (li_work_dim info) tr t = resolve_stopped_work_item (Some abi) pr (th_id t) s'"
    if "t \<in> set (pr_threads pr)" "stopped_at_frame t" for t
    using find_by_id [OF threads(1) that(1)] that(2)
    by (simp add: resolve_stopped_work_item_def item_of_def tr(2) info(1,2) abi(2) stopped_at_frame_def)
  ultimately show ?thesis by simp
qed

definition flat_frame :: lldb_frame where
  "flat_frame = blank_frame\<lparr>fr_register := map_of (zip [''x0'', ''x1'', ''x2'', ''x3'', ''x4''] [1, 2, 9, 5, 0])\<rparr>"

definition flat_process :: lldb_process where
  "flat_process = enqueue_process\<lparr>pr_threads :=
     [idle_thread\<lparr>th_frame_0 := flat_frame, th_selected_frame := flat_frame\<rparr>, idle_thread\<lparr>th_id := 78, th_reason := Stop_none\<rparr>]\<rparr>"

lemma flat_frame_group: "read_workgroup_id aarch64_abi flat_frame = Some (Size3 9 5 0)"
proof (rule aarch64.read_workgroup)
  show "passes aarch64_abi flat_frame [1, 2, 9, 5, 0]"
    by (auto simp: passes_def aarch64_abi_def aarch64_arg_registers_def flat_frame_def blank_frame_def
        less_Suc_eq numeral_eq_Suc)
qed (simp_all add: kMaxPlausibleGroupId_def)

theorem listed_items_resolve_witness:
  "\<exists>wi s'. list_stopped_work_items True flat_process (launched_state (Size3 8 1 1)) = ([wi], s')
     \<and> resolve_stopped_work_item (Some aarch64_abi) flat_process 77 s' = Some wi"
proof -
  let ?s = "launched_state (Size3 8 1 1)" and ?t = "idle_thread\<lparr>th_frame_0 := flat_frame, th_selected_frame := flat_frame\<rparr>"
  obtain wis s' where l: "list_stopped_work_items True flat_process ?s = (wis, s')" by fastforce
  have threads: "pr_threads flat_process = [?t, idle_thread\<lparr>th_id := 78, th_reason := Stop_none\<rparr>]" by (simp add: flat_process_def)
  have own: "at_own_frame ?t"
    by (simp add: at_own_frame_def selected_or_first_frame_def idle_thread_def flat_frame_def blank_frame_def)
  have flat: "flat_group aarch64_abi (is_tracker ?s) ?t" by (simp add: flat_group_def flat_frame_group)
  have at: "List.filter stopped_at_frame (pr_threads flat_process) = [?t]"
    unfolding threads by (simp add: stopped_at_frame_def idle_thread_def flat_frame_def blank_frame_def)
  have "map Some wis = map (\<lambda>t. resolve_stopped_work_item (Some aarch64_abi) flat_process (th_id t) s') [?t]"
    unfolding at [symmetric]
  proof (rule listed_items_resolve [OF l, where lx = 8 and info = "make_launch_info ''vadd'' 3 (Size3 1024 1024 64) (Size3 8 1 1)"])
    show "distinct (map th_id (pr_threads flat_process))" unfolding threads by (simp add: idle_thread_def)
    show "\<forall>t \<in> set (pr_threads flat_process). stopped_at_frame t \<longrightarrow> at_own_frame t \<and> flat_group aarch64_abi (is_tracker ?s) t"
      using own flat unfolding threads by (simp add: stopped_at_frame_def)
  qed (simp_all add: launched_state_def new_item_state_def make_launch_info_def flat_process_def enqueue_process_def Let_def)
  with l show ?thesis by (auto simp: idle_thread_def)
qed

section \<open>Counting dispatches\<close>

text \<open>A thread at the work-group breakpoint whose group can be read.\<close>

definition dispatches :: "cpu_abi \<Rightarrow> lldb_thread \<Rightarrow> bool" where
  "dispatches abi t \<longleftrightarrow> th_valid t \<and> th_reason t = Stop_breakpoint \<and> read_workgroup_id abi (selected_or_first_frame t) \<noteq> None"

lemma record_dispatches_count:
  "record_dispatches abi ts s = (hit, s') \<Longrightarrow>
     hit = (\<exists>t \<in> set ts. dispatches abi t)
     \<and> ds_count s' = ds_count s + of_nat (length (List.filter (dispatches abi) ts))
     \<and> ds_tracker s' = record_all (List.map (\<lambda>t. (th_id t, the (read_workgroup_id abi (selected_or_first_frame t))))
          (List.filter (dispatches abi) ts)) (ds_tracker s)"
proof (induction ts arbitrary: s hit)
  case (Cons t ts)
  show ?case
  proof (cases "dispatches abi t")
    case True
    then obtain wg where wg: "read_workgroup_id abi (selected_or_first_frame t) = Some wg" "th_valid t" "th_reason t = Stop_breakpoint"
      by (auto simp: dispatches_def)
    let ?s = "\<lparr>ds_tracker = record_wg (th_id t) wg (ds_tracker s), ds_count = ds_count s + 1,
      ds_first = (if ds_first s = 0 then th_id t else ds_first s)\<rparr>"
    obtain h s2 where r: "record_dispatches abi ts ?s = (h, s2)" by fastforce
    with Cons.prems wg have "hit" "s' = s2" by simp_all
    with Cons.IH [OF r [folded \<open>s' = s2\<close>]] wg True show ?thesis by simp
  next
    case False
    then have "record_dispatches abi ts s = (hit, s')"
      using Cons.prems by (simp add: dispatches_def split: if_splits option.splits)
    from Cons.IH [OF this] False show ?thesis by simp
  qed
qed simp

end
