(* ===== verification/DwarfSource.thy ===== *)
theory DwarfSource
  imports Types
begin

text \<open>
  \<^verbatim>\<open>ocldbg/dwarf/DWARFSourceModel.{h,cpp}\<close>: lines to addresses, type names, variables in scope.  LLVM parses
  the DWARF; what it hands over is the data below: line tables with the file name of each row (\<open>None\<close>
  when it cannot be formed), the tree of DIEs of a subprogram, and the DIE at an offset.  A chain of
  type references may be cyclic in a malformed file; then \<^verbatim>\<open>type_name\<close> does not return, which is \<open>None\<close>.
\<close>

section \<open>What LLVM hands over\<close>

record line_row =
  row_address :: u64
  row_line :: u32
  row_file :: "string option"

datatype die_tag = DW_TAG_variable | DW_TAG_formal_parameter | DW_TAG_inlined_subroutine | DW_TAG_lexical_block
  | DW_TAG_subprogram | DW_TAG_base_type | DW_TAG_typedef | DW_TAG_structure_type | DW_TAG_union_type
  | DW_TAG_class_type | DW_TAG_pointer_type | DW_TAG_const_type | DW_TAG_volatile_type | DW_TAG_restrict_type
  | DW_TAG_array_type | DW_TAG_other nat

text \<open>
  Of a DIE: its tag, its short name, the offset its \<^verbatim>\<open>DW_AT_type\<close> refers to, its abstract origin, its location
  list (each with its range, if it has one), its \<^verbatim>\<open>DW_AT_location\<close> attribute (a block or another form), its
  address ranges, and its children.
\<close>

datatype die = Die (tag_of: die_tag) (name_of: "string option") (type_of_die: "u64 option") (origin_of: "die option")
  (locations_of: "((u64 \<times> u64) option \<times> u8 list) list option") (location_attr: "u8 list option option")
  (ranges_of: "(u64 \<times> u64) list") (children_of: "die list")

record compile_unit =
  cu_lines :: "line_row list option"
  cu_subprogram_at :: "u64 \<Rightarrow> die option"
  cu_children :: "die list"

record dwarf_model =
  dm_loaded :: bool
  dm_units :: "compile_unit list"
  dm_die_at :: "u64 \<Rightarrow> die option"
  dm_line_info :: "u64 \<Rightarrow> (string \<times> u32) option"

text \<open>\<^verbatim>\<open>load\<close> and \<^verbatim>\<open>loaded\<close>: \<open>parsed\<close> is what LLVM makes of the file, \<open>None\<close> if it cannot.\<close>

definition dwarf_load :: "dwarf_model option \<Rightarrow> dwarf_model \<Rightarrow> bool \<times> dwarf_model" where
  "dwarf_load parsed m = (case parsed of None \<Rightarrow> (False, m) | Some d \<Rightarrow> (True, d\<lparr>dm_loaded := True\<rparr>))"

section \<open>Lines and addresses\<close>

definition pc_to_source :: "dwarf_model \<Rightarrow> u64 \<Rightarrow> source_location" where
  "pc_to_source m pc =
     (if \<not> dm_loaded m then no_location
      else case dm_line_info m pc of
        None \<Rightarrow> no_location
      | Some (file, line) \<Rightarrow> if line \<noteq> 0 then \<lparr>loc_file = file, loc_line = line\<rparr> else no_location)"

definition matches_source_file :: "string \<Rightarrow> string \<Rightarrow> bool" where
  "matches_source_file filter_file path \<longleftrightarrow> filter_file = [] \<or> ends_with path filter_file
     \<or> (ends_with filter_file ''.cl'' \<and> ends_with path ''.cl'')"

definition row_matches :: "string \<Rightarrow> line_row \<Rightarrow> bool" where
  "row_matches filter_file row = (case row_file row of None \<Rightarrow> False | Some path \<Rightarrow> matches_source_file filter_file path)"

definition unit_rows :: "compile_unit \<Rightarrow> line_row list" where
  "unit_rows cu = (case cu_lines cu of None \<Rightarrow> [] | Some rows \<Rightarrow> rows)"

definition find_pcs_for_line :: "compile_unit list \<Rightarrow> u32 \<Rightarrow> string \<Rightarrow> u64 list" where
  "find_pcs_for_line cus target_line filter_file =
     concat (map (\<lambda>cu. map row_address (filter (\<lambda>row. row_line row = target_line \<and> row_matches filter_file row) (unit_rows cu))) cus)"

definition better_line :: "u32 \<Rightarrow> string \<Rightarrow> u32 \<Rightarrow> line_row \<Rightarrow> u32" where
  "better_line min_line filter_file best row =
     (if row_line row > min_line \<and> row_line row < best \<and> row_matches filter_file row then row_line row else best)"

definition max_u32 :: u32 where "max_u32 = - 1"

definition find_next_line :: "compile_unit list \<Rightarrow> u32 \<Rightarrow> string \<Rightarrow> u32" where
  "find_next_line cus min_line filter_file =
     foldl (\<lambda>best cu. foldl (better_line min_line filter_file) best (unit_rows cu)) max_u32 cus"

definition source_to_pcs :: "dwarf_model \<Rightarrow> source_location \<Rightarrow> u64 list" where
  "source_to_pcs m loc =
     (if \<not> dm_loaded m then []
      else let cus = dm_units m;
               pcs = find_pcs_for_line cus (loc_line loc) (loc_file loc);
               pcs' = (if pcs = [] \<and> loc_line loc > 0 then
                         let best_line = find_next_line cus (loc_line loc) (loc_file loc) in
                         if best_line \<noteq> max_u32 then find_pcs_for_line cus best_line (loc_file loc) else pcs
                       else pcs)
           in remdups_adj (sort pcs'))"

section \<open>Type names\<close>

text \<open>\<^verbatim>\<open>getAttributeValueAsReferencedDie(DW_AT_type)\<close>: the offset of a valid DIE.\<close>

definition referenced_type :: "(u64 \<Rightarrow> die option) \<Rightarrow> die \<Rightarrow> u64 option" where
  "referenced_type die_at d = (case type_of_die d of None \<Rightarrow> None | Some off \<Rightarrow> if die_at off = None then None else Some off)"

definition name_or_unknown :: "die \<Rightarrow> string" where
  "name_or_unknown d = (case name_of d of None \<Rightarrow> ''<unknown>'' | Some n \<Rightarrow> n)"

partial_function (option) type_name :: "(u64 \<Rightarrow> die option) \<Rightarrow> u64 \<Rightarrow> string option" where
  "type_name die_at off =
     (case die_at off of
        None \<Rightarrow> Some ''<unknown>''
      | Some d \<Rightarrow>
          (if tag_of d = DW_TAG_pointer_type then
             (case referenced_type die_at d of
                None \<Rightarrow> Some ''void *''
              | Some r \<Rightarrow> Option.bind (type_name die_at r) (\<lambda>n. Some (n @ '' *'')))
           else if tag_of d = DW_TAG_const_type then
             (case referenced_type die_at d of
                None \<Rightarrow> Some ''const''
              | Some r \<Rightarrow> Option.bind (type_name die_at r) (\<lambda>n. Some (''const '' @ n)))
           else if tag_of d = DW_TAG_volatile_type \<or> tag_of d = DW_TAG_restrict_type then
             (case referenced_type die_at d of
                None \<Rightarrow> Some ''void''
              | Some r \<Rightarrow> Option.bind (type_name die_at r) (\<lambda>n. Some n))
           else if tag_of d = DW_TAG_array_type then
             (case referenced_type die_at d of
                None \<Rightarrow> Some ''[]''
              | Some r \<Rightarrow> Option.bind (type_name die_at r) (\<lambda>n. Some (n @ ''[]'')))
           else Some (name_or_unknown d)))"

text \<open>\<^verbatim>\<open>DWARFSourceModel::type_name\<close>, which first asks whether anything is loaded.\<close>

definition model_type_name :: "dwarf_model \<Rightarrow> u64 \<Rightarrow> string option" where
  "model_type_name m off = (if \<not> dm_loaded m then Some ''<unknown>'' else type_name (dm_die_at m) off)"

section \<open>Variables in scope\<close>

definition in_range_pc :: "u64 \<Rightarrow> (u64 \<times> u64) \<Rightarrow> bool" where
  "in_range_pc pc r \<longleftrightarrow> fst r \<le> pc \<and> pc < snd r"

definition covering_location :: "u64 \<Rightarrow> ((u64 \<times> u64) option \<times> u8 list) list \<Rightarrow> ((u64 \<times> u64) option \<times> u8 list) option" where
  "covering_location pc locs = find (\<lambda>l. case fst l of None \<Rightarrow> True | Some r \<Rightarrow> in_range_pc pc r) locs"

definition extract_location_expr :: "die \<Rightarrow> u64 \<Rightarrow> u8 list" where
  "extract_location_expr d pc =
     (case Option.bind (locations_of d) (covering_location pc) of
        Some (rng, expr) \<Rightarrow> expr
      | None \<Rightarrow>
          let attr = (case location_attr d of
                        Some a \<Rightarrow> Some a
                      | None \<Rightarrow> Option.bind (origin_of d) location_attr)
          in (case attr of Some (Some block) \<Rightarrow> block | _ \<Rightarrow> []))"

definition variable_type :: "(u64 \<Rightarrow> die option) \<Rightarrow> die \<Rightarrow> u64 option" where
  "variable_type die_at d =
     (case referenced_type die_at d of
        Some off \<Rightarrow> Some off
      | None \<Rightarrow> Option.bind (origin_of d) (referenced_type die_at))"

definition extract_var_info :: "dwarf_model \<Rightarrow> die \<Rightarrow> u64 \<Rightarrow> var_info option" where
  "extract_var_info m d pc =
     Option.bind (case variable_type (dm_die_at m) d of None \<Rightarrow> Some [] | Some off \<Rightarrow> model_type_name m off)
       (\<lambda>tn. Some \<lparr>vi_name = (case name_of d of None \<Rightarrow> [] | Some n \<Rightarrow> n), vi_type_name = tn, vi_address_space = [],
          vi_location_pc = pc, vi_dwarf_location_expr = extract_location_expr d pc\<rparr>)"

definition append_unique_var :: "var_info list \<Rightarrow> var_info \<Rightarrow> var_info list" where
  "append_unique_var vars v =
     (if vi_name v = [] then vars
      else if \<exists>existing \<in> set vars. vi_name existing = vi_name v then vars else vars @ [v])"

text \<open>The loop over the children of a DIE.\<close>

fun collect_die_vars :: "dwarf_model \<Rightarrow> u64 \<Rightarrow> die list \<Rightarrow> var_info list \<Rightarrow> var_info list option" where
  "collect_die_vars m pc [] vars = Some vars"
| "collect_die_vars m pc (Die t n ty org locs attr ranges children # ds) vars =
     (if t = DW_TAG_variable \<or> t = DW_TAG_formal_parameter then
        (case extract_var_info m (Die t n ty org locs attr ranges children) pc of
           None \<Rightarrow> None
         | Some v \<Rightarrow> collect_die_vars m pc ds (append_unique_var vars v))
      else if t = DW_TAG_inlined_subroutine
           \<or> t = DW_TAG_lexical_block \<and> (pc = 0 \<or> (\<exists>r \<in> set ranges. in_range_pc pc r)) then
        (case collect_die_vars m pc children vars of
           None \<Rightarrow> None
         | Some vars' \<Rightarrow> collect_die_vars m pc ds vars')
      else collect_die_vars m pc ds vars)"

fun collect_subprograms :: "dwarf_model \<Rightarrow> u64 \<Rightarrow> die list \<Rightarrow> var_info list \<Rightarrow> var_info list option" where
  "collect_subprograms m pc [] vars = Some vars"
| "collect_subprograms m pc (d # ds) vars =
     (if tag_of d = DW_TAG_subprogram then
        (case collect_die_vars m pc (children_of d) vars of
           None \<Rightarrow> None
         | Some vars' \<Rightarrow> collect_subprograms m pc ds vars')
      else collect_subprograms m pc ds vars)"

fun unit_variables :: "dwarf_model \<Rightarrow> u64 \<Rightarrow> compile_unit list \<Rightarrow> var_info list \<Rightarrow> var_info list option" where
  "unit_variables m pc [] vars = Some vars"
| "unit_variables m pc (cu # cus) vars =
     (case (case cu_subprogram_at cu pc of
              None \<Rightarrow> Some vars
            | Some subprog \<Rightarrow> collect_die_vars m pc (children_of subprog) vars) of
        None \<Rightarrow> None
      | Some vars1 \<Rightarrow>
          (case (if vars1 = [] then collect_subprograms m pc (cu_children cu) vars1 else Some vars1) of
             None \<Rightarrow> None
           | Some vars2 \<Rightarrow> unit_variables m pc cus vars2))"

definition variables_in_scope :: "dwarf_model \<Rightarrow> u64 \<Rightarrow> var_info list option" where
  "variables_in_scope m pc = (if \<not> dm_loaded m then Some [] else unit_variables m pc (dm_units m) [])"

section \<open>Addresses of a line\<close>

definition lines_with_code :: "dwarf_model \<Rightarrow> string \<Rightarrow> u32 set" where
  "lines_with_code m file = {row_line row | row cu. cu \<in> set (dm_units m) \<and> row \<in> set (unit_rows cu) \<and> row_matches file row}"

definition addresses_of_line :: "dwarf_model \<Rightarrow> string \<Rightarrow> u32 \<Rightarrow> u64 set" where
  "addresses_of_line m file line = {row_address row | row cu. cu \<in> set (dm_units m) \<and> row \<in> set (unit_rows cu)
     \<and> row_matches file row \<and> row_line row = line}"

lemma set_find_pcs: "set (find_pcs_for_line (dm_units m) line file) = addresses_of_line m file line"
  by (auto simp: find_pcs_for_line_def addresses_of_line_def)

lemma addresses_of_line_empty: "addresses_of_line m file line = {} \<longleftrightarrow> line \<notin> lines_with_code m file"
  by (auto simp: addresses_of_line_def lines_with_code_def)

lemma find_pcs_empty: "find_pcs_for_line (dm_units m) line file = [] \<longleftrightarrow> line \<notin> lines_with_code m file"
  by (metis addresses_of_line_empty empty_set set_empty set_find_pcs)

text \<open>The best line of a series of rows: the least of the candidates and the line to start from.\<close>

definition candidate_lines :: "u32 \<Rightarrow> string \<Rightarrow> line_row list \<Rightarrow> u32 set" where
  "candidate_lines min_line file rows = {row_line row | row. row \<in> set rows \<and> row_line row > min_line \<and> row_matches file row}"

lemma foldl_better_line:
  "foldl (better_line min_line file) best rows = Min (insert best (candidate_lines min_line file rows))"
proof (induction rows arbitrary: best)
  case Nil
  then show ?case by (simp add: candidate_lines_def)
next
  case (Cons row rows)
  have fin: "finite (candidate_lines min_line file rows)" for rows
    by (rule finite_subset [of _ "row_line ` set rows"]) (auto simp: candidate_lines_def)
  have cons: "candidate_lines min_line file (row # rows) =
      (if row_line row > min_line \<and> row_matches file row then insert (row_line row) (candidate_lines min_line file rows)
       else candidate_lines min_line file rows)"
    by (auto simp: candidate_lines_def)
  show ?case
    using Cons [of "better_line min_line file best row"] fin [of rows]
    by (cases "candidate_lines min_line file rows = {}")
       (auto simp: cons better_line_def min_def)
qed

lemma find_next_line_Min:
  "find_next_line (dm_units m) min_line file = Min (insert max_u32 {l \<in> lines_with_code m file. min_line < l})"
proof -
  have "foldl (\<lambda>best cu. foldl (better_line min_line file) best (unit_rows cu)) b cus
      = foldl (better_line min_line file) b (concat (map unit_rows cus))" for b cus
    by (induction cus arbitrary: b) simp_all
  moreover have "candidate_lines min_line file (concat (map unit_rows (dm_units m))) = {l \<in> lines_with_code m file. min_line < l}"
    by (auto simp: candidate_lines_def lines_with_code_def)
  ultimately show ?thesis by (simp add: find_next_line_def foldl_better_line)
qed

text \<open>The line the debugger settles on: the one asked for, or the next one that has code.\<close>

definition settled_line :: "dwarf_model \<Rightarrow> source_location \<Rightarrow> u32 option" where
  "settled_line m loc =
     (let lines = lines_with_code m (loc_file loc); later = {l \<in> lines. loc_line loc < l \<and> l \<noteq> max_u32} in
      if loc_line loc \<in> lines then Some (loc_line loc)
      else if loc_line loc > 0 \<and> later \<noteq> {} then Some (Min later) else None)"

lemma le_max_u32: "(l :: u32) \<le> max_u32"
  by (simp add: max_u32_def)

lemma finite_lines: "finite (lines_with_code m file)"
proof -
  have "lines_with_code m file \<subseteq> row_line ` (\<Union>cu \<in> set (dm_units m). set (unit_rows cu))"
    by (auto simp: lines_with_code_def)
  then show ?thesis by (rule finite_subset) auto
qed

lemma next_line_settled:
  assumes "later = {l \<in> lines_with_code m file. min_line < l \<and> l \<noteq> max_u32}"
  shows "find_next_line (dm_units m) min_line file = (if later = {} then max_u32 else Min later)"
proof -
  let ?all = "{l \<in> lines_with_code m file. min_line < l}"
  have ins: "insert max_u32 ?all = insert max_u32 later" using assms by auto
  have fin: "finite later" using finite_lines assms by auto
  show ?thesis
  proof (cases "later = {}")
    case False
    have "Min (insert max_u32 later) = min max_u32 (Min later)" using fin False by (rule Min_insert)
    also have "\<dots> = Min later" using le_max_u32 by (rule min_absorb2)
    finally have "Min (insert max_u32 later) = Min later" .
    with False show ?thesis by (simp add: find_next_line_Min ins)
  qed (simp add: find_next_line_Min ins)
qed

lemma strictly_sorted_remdups_adj: "sorted xs \<Longrightarrow> sorted_wrt (<) (remdups_adj (xs :: u64 list))"
proof (induction xs rule: remdups_adj.induct)
  case (3 x y xs)
  then show ?case by (cases "x = y") (auto simp: order.strict_iff_order dest: order.trans)
qed simp_all

lemma strictly_sorted_remdups_adj_sort: "sorted_wrt (<) (remdups_adj (sort (xs :: u64 list)))"
  by (simp add: strictly_sorted_remdups_adj)

text \<open>
  C34.  A breakpoint line goes to the right addresses: the addresses found for a source line are, each
  once and in increasing order, exactly those of the rows of the line table for that line in a matching
  file; for a line without code, of the next later line that has code; and there are none if there is
  no such line (or the model is not loaded).
\<close>

theorem source_to_pcs_correct:
  "sorted_wrt (<) (source_to_pcs m loc) \<and>
   set (source_to_pcs m loc) =
     (if dm_loaded m then (case settled_line m loc of None \<Rightarrow> {} | Some line \<Rightarrow> addresses_of_line m (loc_file loc) line) else {})"
proof -
  let ?file = "loc_file loc" and ?line = "loc_line loc"
  define later where "later = {l \<in> lines_with_code m ?file. ?line < l \<and> l \<noteq> max_u32}"
  have nl: "find_next_line (dm_units m) ?line ?file = (if later = {} then max_u32 else Min later)"
    by (rule next_line_settled) (simp add: later_def)
  have "finite later" using finite_lines by (simp add: later_def)
  then have "later \<noteq> {} \<Longrightarrow> Min later \<noteq> max_u32" using Min_in [of later] by (auto simp: later_def)
  then have "set (source_to_pcs m loc) =
     (if dm_loaded m then (case settled_line m loc of None \<Rightarrow> {} | Some line \<Rightarrow> addresses_of_line m ?file line) else {})"
    by (simp add: source_to_pcs_def Let_def find_pcs_empty nl settled_line_def set_find_pcs later_def [symmetric]
        addresses_of_line_empty)
  then show ?thesis by (simp add: source_to_pcs_def Let_def strictly_sorted_remdups_adj_sort)
qed

definition demo_model :: dwarf_model where
  "demo_model = \<lparr>dm_loaded = True, dm_units = [\<lparr>cu_lines = Some
       [\<lparr>row_address = 0x30, row_line = 17, row_file = Some ''/k/vadd.cl''\<rparr>, \<lparr>row_address = 0x10, row_line = 12, row_file = Some ''/k/vadd.cl''\<rparr>,
        \<lparr>row_address = 0x20, row_line = 17, row_file = Some ''/k/vadd.cl''\<rparr>, \<lparr>row_address = 0x30, row_line = 17, row_file = Some ''/k/vadd.cl''\<rparr>],
       cu_subprogram_at = Map.empty, cu_children = []\<rparr>], dm_die_at = Map.empty, dm_line_info = Map.empty\<rparr>"

text \<open>A breakpoint at line 13, which has no code, goes to line 17, at both of its addresses.\<close>

lemma source_to_pcs_example: "source_to_pcs demo_model \<lparr>loc_file = ''vadd.cl'', loc_line = 13\<rparr> = [0x20, 0x30]"
proof -
  have "(12 :: u32) < 13" "(13 :: u32) < 17" "\<not> (13 :: u32) < 12" "(17 :: u32) < max_u32" "(17 :: u32) \<noteq> max_u32"
    by (simp_all add: max_u32_def)
  then show ?thesis
    by (simp add: source_to_pcs_def demo_model_def find_pcs_for_line_def find_next_line_def better_line_def
        row_matches_def unit_rows_def matches_source_file_def ends_with_def)
qed

section \<open>Type names terminate\<close>

definition acyclic_types :: "(u64 \<Rightarrow> die option) \<Rightarrow> bool" where
  "acyclic_types die_at \<longleftrightarrow> (\<exists>rank :: u64 \<Rightarrow> nat. \<forall>off d r. die_at off = Some d \<longrightarrow> referenced_type die_at d = Some r
     \<longrightarrow> rank r < rank off)"

lemma type_name_terminates:
  assumes "\<And>off d r. die_at off = Some d \<Longrightarrow> referenced_type die_at d = Some r \<Longrightarrow> rank r < (rank off :: nat)"
  shows "\<exists>n. type_name die_at off = Some n"
proof (induction "rank off" arbitrary: off rule: less_induct)
  case less
  show ?case
  proof (cases "die_at off")
    case None
    then show ?thesis by (simp add: type_name.simps [of die_at off])
  next
    case (Some d)
    show ?thesis
    proof (cases "referenced_type die_at d")
      case None
      with Some show ?thesis by (simp add: type_name.simps [of die_at off])
    next
      case r: (Some r)
      with less assms [OF Some] obtain n where "type_name die_at r = Some n" by blast
      with Some r show ?thesis by (simp add: type_name.simps [of die_at off])
    qed
  qed
qed

lemma model_type_name_total:
  assumes "acyclic_types (dm_die_at m)"
  shows "\<exists>n. model_type_name m off = Some n"
proof -
  obtain rank :: "u64 \<Rightarrow> nat" where "\<forall>off d r. dm_die_at m off = Some d \<longrightarrow> referenced_type (dm_die_at m) d = Some r \<longrightarrow> rank r < rank off"
    using assms unfolding acyclic_types_def by blast
  then have "\<exists>n. type_name (dm_die_at m) off = Some n" by (intro type_name_terminates [of _ rank]) blast
  then show ?thesis by (simp add: model_type_name_def)
qed

lemma extract_var_info_total:
  assumes "acyclic_types (dm_die_at m)"
  shows "\<exists>v. extract_var_info m d pc = Some v"
proof (cases "variable_type (dm_die_at m) d")
  case (Some off)
  with model_type_name_total [OF assms, of off] show ?thesis by (auto simp: extract_var_info_def)
qed (simp add: extract_var_info_def)

section \<open>Variables in scope\<close>

text \<open>What the collection keeps: every name once, none empty, all asked for at the same address.\<close>

definition proper_vars :: "u64 \<Rightarrow> var_info list \<Rightarrow> bool" where
  "proper_vars pc vars \<longleftrightarrow> distinct (map vi_name vars) \<and> (\<forall>v \<in> set vars. vi_name v \<noteq> [] \<and> vi_location_pc v = pc)"

lemma proper_append: "proper_vars pc vars \<Longrightarrow> vi_location_pc v = pc \<Longrightarrow> proper_vars pc (append_unique_var vars v)"
  by (auto simp: proper_vars_def append_unique_var_def)

lemma extract_var_info_pc: "extract_var_info m d pc = Some v \<Longrightarrow> vi_location_pc v = pc"
  by (auto simp: extract_var_info_def split: option.splits bind_splits)

lemma collect_proper:
  "collect_die_vars m pc ds vars = Some vars' \<Longrightarrow> proper_vars pc vars \<Longrightarrow> proper_vars pc vars'"
proof (induction m pc ds vars arbitrary: vars' rule: collect_die_vars.induct)
  case (2 m pc t n ty org locs attr ranges children ds vars)
  let ?d = "Die t n ty org locs attr ranges children"
  show ?case
  proof (cases "t = DW_TAG_variable \<or> t = DW_TAG_formal_parameter")
    case True
    with "2.prems"(1) obtain v where v: "extract_var_info m ?d pc = Some v"
      "collect_die_vars m pc ds (append_unique_var vars v) = Some vars'" by (auto split: option.splits)
    from "2.IH"(1) [OF True v] proper_append [OF "2.prems"(2) extract_var_info_pc [OF v(1)]] show ?thesis by blast
  next
    case no_var: False
    show ?thesis
    proof (cases "t = DW_TAG_inlined_subroutine \<or> t = DW_TAG_lexical_block \<and> (pc = 0 \<or> (\<exists>r \<in> set ranges. in_range_pc pc r))")
      case True
      with no_var "2.prems"(1) obtain w where w: "collect_die_vars m pc children vars = Some w"
        "collect_die_vars m pc ds w = Some vars'" by (auto split: option.splits)
      from "2.IH"(2) [OF no_var True w(1) "2.prems"(2)] "2.IH"(3) [OF no_var True w] show ?thesis by blast
    next
      case False
      with no_var "2.prems"(1) have "collect_die_vars m pc ds vars = Some vars'" by (auto split: if_splits)
      from "2.IH"(4) [OF no_var False this "2.prems"(2)] show ?thesis .
    qed
  qed
qed simp

lemma collect_subprograms_proper:
  "collect_subprograms m pc ds vars = Some vars' \<Longrightarrow> proper_vars pc vars \<Longrightarrow> proper_vars pc vars'"
  by (induction m pc ds vars arbitrary: vars' rule: collect_subprograms.induct)
     (auto split: if_splits option.splits dest: collect_proper)

lemma unit_variables_proper:
  "unit_variables m pc cus vars = Some vars' \<Longrightarrow> proper_vars pc vars \<Longrightarrow> proper_vars pc vars'"
  by (induction m pc cus vars arbitrary: vars' rule: unit_variables.induct)
     (auto split: if_splits option.splits dest: collect_proper collect_subprograms_proper)

lemma collect_total:
  "acyclic_types (dm_die_at m) \<Longrightarrow> \<exists>vars'. collect_die_vars m pc ds vars = Some vars'"
proof (induction m pc ds vars rule: collect_die_vars.induct)
  case (2 m pc t n ty org locs attr ranges children ds vars)
  obtain v where v: "extract_var_info m (Die t n ty org locs attr ranges children) pc = Some v"
    using extract_var_info_total [OF "2.prems"] by blast
  show ?case
  proof (cases "t = DW_TAG_variable \<or> t = DW_TAG_formal_parameter")
    case True
    with v "2.IH"(1) [OF True v "2.prems"] show ?thesis by auto
  next
    case no_var: False
    show ?thesis
    proof (cases "t = DW_TAG_inlined_subroutine \<or> t = DW_TAG_lexical_block \<and> (pc = 0 \<or> (\<exists>r \<in> set ranges. in_range_pc pc r))")
      case True
      from "2.IH"(2) [OF no_var True "2.prems"] obtain w where w: "collect_die_vars m pc children vars = Some w" by blast
      from "2.IH"(3) [OF no_var True w "2.prems"] w no_var True show ?thesis by auto
    next
      case False
      from "2.IH"(4) [OF no_var False "2.prems"] no_var False show ?thesis by auto
    qed
  qed
qed simp

lemma collect_subprograms_total:
  "acyclic_types (dm_die_at m) \<Longrightarrow> \<exists>vars'. collect_subprograms m pc ds vars = Some vars'"
proof (induction ds arbitrary: vars)
  case (Cons d ds)
  with collect_total [of m pc "children_of d" vars] show ?case by (auto split: option.split)
qed simp

lemma unit_variables_total:
  assumes "acyclic_types (dm_die_at m)"
  shows "\<exists>vars'. unit_variables m pc cus vars = Some vars'"
proof (induction cus arbitrary: vars)
  case (Cons cu cus)
  obtain vars1 where 1: "(case cu_subprogram_at cu pc of None \<Rightarrow> Some vars
      | Some subprog \<Rightarrow> collect_die_vars m pc (children_of subprog) vars) = Some vars1"
    using collect_total [OF assms, of pc _ vars] by (cases "cu_subprogram_at cu pc") fastforce+
  obtain vars2 where 2: "(if vars1 = [] then collect_subprograms m pc (cu_children cu) vars1 else Some vars1) = Some vars2"
    using collect_subprograms_total [OF assms, of pc "cu_children cu" vars1] by (cases "vars1 = []") auto
  obtain vars3 where "unit_variables m pc cus vars2 = Some vars3" using Cons by blast
  with 1 2 show ?case by simp
qed simp

text \<open>
  C39.  Listing the variables in scope returns, when no type refers to itself through a chain of
  references, and every variable in the list has a name, a name of its own, and the address asked for.
\<close>

theorem variables_in_scope_proper:
  assumes "acyclic_types (dm_die_at m)"
  shows "\<exists>vars. variables_in_scope m pc = Some vars \<and> distinct (map vi_name vars)
    \<and> (\<forall>v \<in> set vars. vi_name v \<noteq> [] \<and> vi_location_pc v = pc)"
proof -
  obtain vars where vars: "variables_in_scope m pc = Some vars"
    using unit_variables_total [OF assms, of pc "dm_units m" "[]"] by (cases "dm_loaded m") (auto simp: variables_in_scope_def)
  then have "proper_vars pc vars"
    by (auto simp: variables_in_scope_def proper_vars_def [of _ "[]"] split: if_splits dest: unit_variables_proper)
  with vars show ?thesis by (auto simp: proper_vars_def)
qed

text \<open>A kernel with a variable \<^verbatim>\<open>i\<close> in its body and another one in a block that covers the address.\<close>

definition variable_die :: "string \<Rightarrow> u64 \<Rightarrow> u8 list \<Rightarrow> die" where
  "variable_die n ty expr = Die DW_TAG_variable (Some n) (Some ty) None None (Some (Some expr)) [] []"

definition shadowing_kernel :: die where
  "shadowing_kernel = Die DW_TAG_subprogram (Some ''k'') None None None None [(0, 100)]
     [variable_die ''i'' 1 [0x91, 0], Die DW_TAG_lexical_block None None None None None [(10, 50)] [variable_die ''i'' 2 [0x91, 8], variable_die ''x'' 1 [0x91, 16]]]"

definition shadowing_model :: dwarf_model where
  "shadowing_model = \<lparr>dm_loaded = True,
     dm_units = [\<lparr>cu_lines = None, cu_subprogram_at = (\<lambda>pc. if pc < 100 then Some shadowing_kernel else None), cu_children = [shadowing_kernel]\<rparr>],
     dm_die_at = [1 \<mapsto> Die DW_TAG_pointer_type None (Some 2) None None None [] [], 2 \<mapsto> Die DW_TAG_base_type (Some ''float'') None None None None [] []],
     dm_line_info = Map.empty\<rparr>"

lemma shadowing_acyclic: "acyclic_types (dm_die_at shadowing_model)"
  unfolding acyclic_types_def
  by (rule exI [of _ "\<lambda>off. if off = 1 then 1 else 0"])
     (auto simp: shadowing_model_def referenced_type_def split: if_splits option.splits)

theorem variables_in_scope_proper_witness:
  "\<exists>vars. variables_in_scope shadowing_model 20 = Some vars \<and> distinct (map vi_name vars) \<and> (\<forall>v \<in> set vars. vi_location_pc v = 20)"
  using variables_in_scope_proper [OF shadowing_acyclic, of 20] by blast

text \<open>
  Where a block declares a name again, the variable listed is the outer one: an entry once in the list
  keeps any later one of its name out.
\<close>

lemma collect_extends:
  "collect_die_vars m pc ds vars = Some vars' \<Longrightarrow> set vars \<subseteq> set vars'"
proof (induction m pc ds vars arbitrary: vars' rule: collect_die_vars.induct)
  case (2 m pc t n ty org locs attr ranges children ds vars)
  have "set vars \<subseteq> set (append_unique_var vars v)" for v by (auto simp: append_unique_var_def)
  with 2 show ?case by (auto split: if_splits option.splits) blast+
qed simp

lemma inner_declaration_hidden:
  assumes "collect_die_vars m pc ds vars = Some vars'" "proper_vars pc vars" "v \<in> set vars"
    "w \<in> set vars'" "vi_name w = vi_name v"
  shows "w = v"
proof -
  from assms(1,2) have "distinct (map vi_name vars')" by (auto dest: collect_proper simp: proper_vars_def)
  moreover from collect_extends [OF assms(1)] assms(3) have "v \<in> set vars'" by blast
  ultimately show ?thesis using assms(4,5) by (simp add: distinct_map inj_on_def)
qed

end
