(* ===== verification/Breakpoints.thy ===== *)
theory Breakpoints
  imports StoppedItems DwarfSource
begin

text \<open>
  The breakpoints of \<^verbatim>\<open>ocldbg/DebuggerContext.cpp\<close>: the table of OpenCL breakpoints, their
  resolution to addresses of the host program or of the kernel module, and the internal breakpoints on
  work-group functions.  LLDB is third-party code: \<open>lldb_api\<close> is the record of its functions the debugger
  calls, over a state \<open>'l\<close> of LLDB and the debuggee that only they change.  A breakpoint object is the id
  it was created with, \<open>None\<close> for an invalid one; it stays valid as long as the target has the id.
\<close>

section \<open>What LLDB and LLVM offer\<close>

text \<open>
  Of a module: its file name, the path \<^verbatim>\<open>GetPath\<close> writes, the load address of a file address and of the
  object file header, both \<^verbatim>\<open>LLDB_INVALID_ADDRESS\<close> when the module is not loaded.
\<close>

record lldb_module =
  mod_filename :: "string option"
  mod_path :: string
  mod_load_address :: "u64 \<Rightarrow> u64"
  mod_header_address :: u64

definition invalid_address :: u64 where "invalid_address = - 1"

text \<open>
  What happens next while the debuggee runs: a breakpoint with a callback is hit by a thread, or the
  process stops or ends and \<^verbatim>\<open>Continue\<close> returns.
\<close>

datatype run_event = Callback int lldb_thread | Halted

record 'l lldb_api =
  api_has_target :: "'l \<Rightarrow> bool"                                  \<comment> \<open>\<^verbatim>\<open>GetSelectedTarget\<close> is valid\<close>
  api_process :: "'l \<Rightarrow> lldb_process"
  api_modules :: "'l \<Rightarrow> lldb_module list"
  api_has :: "'l \<Rightarrow> int \<Rightarrow> bool"                                  \<comment> \<open>the target has the breakpoint\<close>
  api_locations :: "'l \<Rightarrow> int \<Rightarrow> u64 list"                        \<comment> \<open>load addresses of its locations\<close>
  api_by_location :: "string \<Rightarrow> u32 \<Rightarrow> 'l \<Rightarrow> int option \<times> 'l"
  api_by_address :: "u64 \<Rightarrow> 'l \<Rightarrow> int option \<times> 'l"
  api_by_name :: "bool \<Rightarrow> string \<Rightarrow> 'l \<Rightarrow> int option \<times> 'l"         \<comment> \<open>with \<^verbatim>\<open>target.skip-prologue\<close> as given\<close>
  api_by_regex :: "bool \<Rightarrow> string \<Rightarrow> 'l \<Rightarrow> int option \<times> 'l"
  api_delete :: "int \<Rightarrow> 'l \<Rightarrow> 'l"
  api_next :: "'l \<Rightarrow> run_event \<times> 'l"
  api_file :: "string \<Rightarrow> u8 list option"                         \<comment> \<open>the bytes of a file that can be opened\<close>
  api_dwarf :: "string \<Rightarrow> dwarf_model option"                    \<comment> \<open>what LLVM parses of an object file\<close>

section \<open>State\<close>

record ocl_breakpoint =
  bp_id :: size_t
  bp_file :: string
  bp_line :: u32
  bp_resolved :: bool
  bp_address :: u64
  bp_sb :: "int option"

text \<open>
  \<^verbatim>\<open>DebuggerContext::Impl\<close>, with the state of LLDB; the target and process handles are whether they have
  been obtained.  \<open>db_out\<close> is what was written to standard output.
\<close>

record 'l debugger =
  db_lldb :: 'l
  db_items :: item_state
  db_target :: bool
  db_process :: bool
  db_kernel_name :: string
  db_dwarf :: dwarf_model
  db_breakpoints :: "ocl_breakpoint list"
  db_next_id :: size_t
  db_wg :: "int option"
  db_line :: "int option"
  db_trampoline :: "int option"
  db_redirect_stderr :: bool
  db_out :: string

definition unloaded_dwarf :: dwarf_model where
  "unloaded_dwarf = \<lparr>dm_loaded = False, dm_units = [], dm_die_at = Map.empty, dm_line_info = Map.empty\<rparr>"

definition new_debugger :: "cpu_abi option \<Rightarrow> 'l \<Rightarrow> 'l debugger" where
  "new_debugger abi l = \<lparr>db_lldb = l, db_items = new_item_state abi, db_target = False, db_process = False,
     db_kernel_name = [], db_dwarf = unloaded_dwarf, db_breakpoints = [], db_next_id = 1, db_wg = None, db_line = None,
     db_trampoline = None, db_redirect_stderr = False, db_out = []\<rparr>"

definition sb_valid :: "'l lldb_api \<Rightarrow> 'l \<Rightarrow> int option \<Rightarrow> bool" where
  "sb_valid A l b = (case b of None \<Rightarrow> False | Some i \<Rightarrow> api_has A l i)"

definition sb_locations :: "'l lldb_api \<Rightarrow> 'l \<Rightarrow> int option \<Rightarrow> u64 list" where
  "sb_locations A l b = (case b of None \<Rightarrow> [] | Some i \<Rightarrow> api_locations A l i)"

definition sb_delete :: "'l lldb_api \<Rightarrow> int option \<Rightarrow> 'l \<Rightarrow> 'l" where
  "sb_delete A b l = (case b of None \<Rightarrow> l | Some i \<Rightarrow> api_delete A i l)"

text \<open>\<^verbatim>\<open>if (!target.IsValid()) target = debugger.GetSelectedTarget();\<close>\<close>

definition use_target :: "'l lldb_api \<Rightarrow> 'l debugger \<Rightarrow> 'l debugger" where
  "use_target A s = (if db_target s then s else s\<lparr>db_target := api_has_target A (db_lldb s)\<rparr>)"

section \<open>The dispatch call of pocl\<close>

definition kOpcodePattern :: "u8 list" where
  "kOpcodePattern = [0x41, 0xff, 0x96, 0xb8, 0x00, 0x00, 0x00]"

text \<open>\<^verbatim>\<open>std::ranges::search\<close>: the offset of the first occurrence.\<close>

fun search :: "'a list \<Rightarrow> 'a list \<Rightarrow> nat option" where
  "search [] p = (if p = [] then Some 0 else None)"
| "search (x # xs) p = (if take (length p) (x # xs) = p then Some 0 else map_option Suc (search xs p))"

definition find_pocl_dispatch_address :: "'l lldb_api \<Rightarrow> 'l \<Rightarrow> u64 option" where
  "find_pocl_dispatch_address A l =
     (case find (\<lambda>m. case mod_filename m of None \<Rightarrow> False | Some fn \<Rightarrow> contains fn ''libpocl-devices-pthread.so'') (api_modules A l) of
        None \<Rightarrow> None
      | Some m \<Rightarrow>
          if mod_path m = [] then None
          else case api_file A (mod_path m) of
            None \<Rightarrow> None
          | Some buffer \<Rightarrow>
              (case search buffer kOpcodePattern of
                 None \<Rightarrow> None
               | Some offset \<Rightarrow> if mod_header_address m = invalid_address then None
                   else Some (mod_header_address m + of_nat offset)))"

section \<open>The kernel module\<close>

definition is_kernel_module_name :: "string \<Rightarrow> string \<Rightarrow> bool" where
  "is_kernel_module_name fn kernel_name \<longleftrightarrow>
     (kernel_name \<noteq> [] \<and> contains fn kernel_name) \<or> (ends_with fn ''.so'' \<and> \<not> starts_with fn ''lib'')"

definition find_kernel_module :: "'l lldb_api \<Rightarrow> 'l \<Rightarrow> string \<Rightarrow> lldb_module option" where
  "find_kernel_module A l kernel_name =
     find (\<lambda>m. case mod_filename m of None \<Rightarrow> False | Some fn \<Rightarrow> is_kernel_module_name fn kernel_name) (api_modules A l)"

definition load_kernel_dwarf :: "'l lldb_api \<Rightarrow> 'l debugger \<Rightarrow> bool \<times> 'l debugger" where
  "load_kernel_dwarf A s =
     (if dm_loaded (db_dwarf s) then (True, s)
      else let s1 = use_target A s in
        if \<not> db_target s1 then (False, s1)
        else case find_kernel_module A (db_lldb s1) (db_kernel_name s1) of
          None \<Rightarrow> (False, s1)
        | Some m \<Rightarrow>
            if mod_path m = [] then (False, s1)
            else let (ok, dm) = dwarf_load (api_dwarf A (mod_path m)) (db_dwarf s1) in (ok, s1\<lparr>db_dwarf := dm\<rparr>))"

section \<open>Resolving breakpoints\<close>

text \<open>The message texts.\<close>

definition resolved_at_address_text :: "ocl_breakpoint \<Rightarrow> string" where
  "resolved_at_address_text bp = ''[ocldbg] Breakpoint #'' @ to_string (bp_id bp) @ '': resolved at address 0x''
     @ hex_of_nat (unat (bp_address bp)) @ '' ('' @ (if bp_file bp = [] then ''<kernel>'' else bp_file bp) @ '':''
     @ to_string (bp_line bp) @ '')'' @ [CHR 0x0A]"

definition resolved_at_line_text :: "ocl_breakpoint \<Rightarrow> string" where
  "resolved_at_line_text bp = ''[ocldbg] Breakpoint #'' @ to_string (bp_id bp) @ '': resolved at '' @ bp_file bp @ '':''
     @ to_string (bp_line bp) @ [CHR 0x0A]"

text \<open>The results below are: resolved, the breakpoint, LLDB's state, and what is printed.\<close>

definition resolve_one_breakpoint :: "'l lldb_api \<Rightarrow> lldb_module \<Rightarrow> dwarf_model \<Rightarrow> bool \<Rightarrow> ocl_breakpoint \<Rightarrow> 'l
    \<Rightarrow> bool \<times> ocl_breakpoint \<times> 'l \<times> string" where
  "resolve_one_breakpoint A kernel_mod dm silent bp l =
     (if bp_resolved bp then (False, bp, l, [])
      else case source_to_pcs dm \<lparr>loc_file = bp_file bp, loc_line = bp_line bp\<rparr> of
        [] \<Rightarrow> (False, bp, l, [])
      | pc # _ \<Rightarrow>
          let load_addr = mod_load_address kernel_mod pc in
          if load_addr = invalid_address then (False, bp, l, [])
          else let (sb, l1) = api_by_address A load_addr l; bp1 = bp\<lparr>bp_sb := sb\<rparr> in
            if \<not> sb_valid A l1 sb \<or> sb_locations A l1 sb = [] then (False, bp1, l1, [])
            else let loc = pc_to_source dm pc;
                     bp2 = bp1\<lparr>bp_resolved := True, bp_address := load_addr\<rparr>;
                     bp3 = (if loc_line loc > 0 then bp2\<lparr>bp_line := loc_line loc\<rparr> else bp2)
                 in (True, bp3, l1, if silent then [] else resolved_at_address_text bp3))"

definition resolve_host_breakpoint :: "'l lldb_api \<Rightarrow> bool \<Rightarrow> ocl_breakpoint \<Rightarrow> 'l \<Rightarrow> bool \<times> ocl_breakpoint \<times> 'l \<times> string" where
  "resolve_host_breakpoint A silent bp l =
     (let (sb, l1) = api_by_location A (bp_file bp) (bp_line bp) l in
      if \<not> sb_valid A l1 sb \<or> sb_locations A l1 sb = [] then (False, bp, l1, [])
      else let bp1 = bp\<lparr>bp_sb := sb, bp_resolved := True, bp_address := sb_locations A l1 sb ! 0\<rparr>
           in (True, bp1, l1, if silent then [] else resolved_at_line_text bp1))"

definition is_kernel_breakpoint :: "ocl_breakpoint \<Rightarrow> bool" where
  "is_kernel_breakpoint bp \<longleftrightarrow> bp_file bp = [] \<or> ends_with (bp_file bp) ''.cl''"

text \<open>One of the two loops over the table: the breakpoints of a kind that are not resolved are tried in order.\<close>

fun resolve_each :: "(ocl_breakpoint \<Rightarrow> bool) \<Rightarrow> (ocl_breakpoint \<Rightarrow> 'l \<Rightarrow> bool \<times> ocl_breakpoint \<times> 'l \<times> string)
    \<Rightarrow> ocl_breakpoint list \<Rightarrow> 'l \<Rightarrow> bool \<times> ocl_breakpoint list \<times> 'l \<times> string" where
  "resolve_each kind r [] l = (False, [], l, [])"
| "resolve_each kind r (bp # bps) l =
     (if bp_resolved bp \<or> \<not> kind bp then
        (case resolve_each kind r bps l of (any, bps', l', out) \<Rightarrow> (any, bp # bps', l', out))
      else case r bp l of (ok, bp', l1, out1) \<Rightarrow>
        (case resolve_each kind r bps l1 of (any, bps', l', out) \<Rightarrow> (ok \<or> any, bp' # bps', l', out1 @ out)))"

definition put_breakpoints :: "ocl_breakpoint list \<times> 'l \<times> string \<Rightarrow> 'l debugger \<Rightarrow> 'l debugger" where
  "put_breakpoints r s = (case r of (bps, l, out) \<Rightarrow> s\<lparr>db_breakpoints := bps, db_lldb := l, db_out := db_out s @ out\<rparr>)"

definition resolve_pending_ocl_breakpoints :: "'l lldb_api \<Rightarrow> 'l debugger \<Rightarrow> bool \<times> 'l debugger" where
  "resolve_pending_ocl_breakpoints A s0 =
     (let s = use_target A s0 in
      if \<not> db_target s then (False, s)
      else
        let (any1, r1) = resolve_each (\<lambda>bp. \<not> is_kernel_breakpoint bp) (resolve_host_breakpoint A (db_redirect_stderr s))
                           (db_breakpoints s) (db_lldb s);
            s1 = put_breakpoints r1 s;
            s2 = (if dm_loaded (db_dwarf s1) then s1 else snd (load_kernel_dwarf A s1))
        in if \<not> dm_loaded (db_dwarf s2) then (any1, s2)
           else case find_kernel_module A (db_lldb s2) (db_kernel_name s2) of
             None \<Rightarrow> (any1, s2)
           | Some m \<Rightarrow>
               let (any2, r2) = resolve_each is_kernel_breakpoint (resolve_one_breakpoint A m (db_dwarf s2) (db_redirect_stderr s2))
                                  (db_breakpoints s2) (db_lldb s2)
               in (any1 \<or> any2, put_breakpoints r2 s2))"

section \<open>The table\<close>

text \<open>
  The regular expression matches the work-group functions of pocl; the callback, which the run loop
  calls, is \<open>trampoline_callback\<close>.
\<close>

definition ensure_ocl_trampoline :: "'l lldb_api \<Rightarrow> 'l debugger \<Rightarrow> 'l debugger" where
  "ensure_ocl_trampoline A s0 =
     (let s = use_target A s0 in
      if \<not> db_target s then s
      else if sb_valid A (db_lldb s) (db_trampoline s) then s
      else let (sb, l) = api_by_regex A True ''.*_workgroup'' (db_lldb s) in s\<lparr>db_trampoline := sb, db_lldb := l\<rparr>)"

definition trampoline_callback :: "'l lldb_api \<Rightarrow> lldb_thread \<Rightarrow> 'l debugger \<Rightarrow> 'l debugger" where
  "trampoline_callback A t s =
     (let s1 = snd (resolve_pending_ocl_breakpoints A s) in
      case read_group (is_abi (db_items s1)) (selected_or_first_frame t) of
        None \<Rightarrow> s1
      | Some wg \<Rightarrow> s1\<lparr>db_items := (db_items s1)\<lparr>is_tracker := record_wg (th_id t) wg (is_tracker (db_items s1))\<rparr>\<rparr>)"

definition add_ocl_breakpoint :: "'l lldb_api \<Rightarrow> string \<Rightarrow> u32 \<Rightarrow> 'l debugger \<Rightarrow> size_t \<times> 'l debugger" where
  "add_ocl_breakpoint A f line s0 =
     (let s = use_target A s0;
          new_id = db_next_id s;
          s1 = s\<lparr>db_next_id := new_id + 1, db_breakpoints := db_breakpoints s @
                 [\<lparr>bp_id = new_id, bp_file = f, bp_line = line, bp_resolved = False, bp_address = 0, bp_sb = None\<rparr>]\<rparr>;
          s2 = snd (resolve_pending_ocl_breakpoints A s1)
      in (new_id, ensure_ocl_trampoline A s2))"

fun erase_id :: "size_t \<Rightarrow> ocl_breakpoint list \<Rightarrow> ocl_breakpoint list" where
  "erase_id i [] = []"
| "erase_id i (bp # bps) = (if bp_id bp = i then bps else bp # erase_id i bps)"

definition delete_ocl_breakpoint :: "'l lldb_api \<Rightarrow> size_t \<Rightarrow> 'l debugger \<Rightarrow> bool \<times> 'l debugger" where
  "delete_ocl_breakpoint A i s =
     (case find (\<lambda>bp. bp_id bp = i) (db_breakpoints s) of
        None \<Rightarrow> (False, s)
      | Some bp \<Rightarrow>
          let l = (if sb_valid A (db_lldb s) (bp_sb bp) \<and> db_target s then sb_delete A (bp_sb bp) (db_lldb s) else db_lldb s)
          in (True, s\<lparr>db_lldb := l, db_breakpoints := erase_id i (db_breakpoints s)\<rparr>))"

text \<open>\<^verbatim>\<open>OCLBreakpoint\<close> is a breakpoint without its LLDB object.\<close>

record listed_breakpoint =
  lb_id :: size_t
  lb_file :: string
  lb_line :: u32
  lb_resolved :: bool
  lb_address :: u64

definition list_ocl_breakpoints :: "'l debugger \<Rightarrow> listed_breakpoint list" where
  "list_ocl_breakpoints s = map (\<lambda>bp. \<lparr>lb_id = bp_id bp, lb_file = bp_file bp, lb_line = bp_line bp,
     lb_resolved = bp_resolved bp, lb_address = bp_address bp\<rparr>) (db_breakpoints s)"

section \<open>Internal breakpoints\<close>

definition delete_workgroup_breakpoint :: "'l lldb_api \<Rightarrow> 'l debugger \<Rightarrow> 'l debugger" where
  "delete_workgroup_breakpoint A s =
     s\<lparr>db_lldb := (if sb_valid A (db_lldb s) (db_wg s) then sb_delete A (db_wg s) (db_lldb s) else db_lldb s)\<rparr>"

definition dispatch_breakpoint :: "'l lldb_api \<Rightarrow> 'l debugger \<Rightarrow> bool \<times> 'l debugger" where
  "dispatch_breakpoint A s =
     (case find_pocl_dispatch_address A (db_lldb s) of
        None \<Rightarrow> (False, s)
      | Some addr \<Rightarrow>
          let (sb, l) = api_by_address A addr (db_lldb s)
          in (sb_valid A l sb \<and> sb_locations A l sb \<noteq> [], s\<lparr>db_lldb := l, db_wg := sb\<rparr>))"

definition symbol_breakpoint :: "'l lldb_api \<Rightarrow> 'l debugger \<Rightarrow> bool \<times> 'l debugger" where
  "symbol_breakpoint A s =
     (let (sb, l) = (if db_kernel_name s \<noteq> []
            then api_by_name A False (''_pocl_kernel_'' @ db_kernel_name s @ ''_workgroup'') (db_lldb s)
            else api_by_regex A False ''_pocl_kernel_.*_workgroup'' (db_lldb s))
      in (sb_valid A l sb, s\<lparr>db_lldb := l, db_wg := sb\<rparr>))"

definition set_workgroup_breakpoint :: "'l lldb_api \<Rightarrow> string \<Rightarrow> 'l debugger \<Rightarrow> bool \<times> 'l debugger" where
  "set_workgroup_breakpoint A kernel_name s =
     (if \<not> db_target s then (False, s)
      else
        let s1 = (if kernel_name \<noteq> [] then s\<lparr>db_kernel_name := kernel_name\<rparr> else s);
            (found, s3) = dispatch_breakpoint A (delete_workgroup_breakpoint A s1)
        in if found then (True, s3) else symbol_breakpoint A s3)"

definition set_source_breakpoint :: "'l lldb_api \<Rightarrow> u32 \<Rightarrow> 'l debugger \<Rightarrow> bool \<times> 'l debugger" where
  "set_source_breakpoint A line s0 =
     (let s = snd (load_kernel_dwarf A s0) in
      if \<not> dm_loaded (db_dwarf s) then (False, s)
      else case source_to_pcs (db_dwarf s) \<lparr>loc_file = [], loc_line = line\<rparr> of
        [] \<Rightarrow> (False, s)
      | pc # _ \<Rightarrow>
          (case find_kernel_module A (db_lldb s) (db_kernel_name s) of
             None \<Rightarrow> (False, s)
           | Some m \<Rightarrow>
               let load_addr = mod_load_address m pc in
               if load_addr \<noteq> invalid_address then
                 let (sb, l) = api_by_address A load_addr (db_lldb s)
                 in (sb_valid A l sb \<and> sb_locations A l sb \<noteq> [], s\<lparr>db_line := sb, db_lldb := l\<rparr>)
               else (False, s)))"

section \<open>Frame lemmas\<close>

named_theorems debugger_frame

lemma use_target_frame [debugger_frame]:
  "db_breakpoints (use_target A s) = db_breakpoints s" "db_next_id (use_target A s) = db_next_id s"
  "db_lldb (use_target A s) = db_lldb s" "db_items (use_target A s) = db_items s" "db_dwarf (use_target A s) = db_dwarf s"
  "db_kernel_name (use_target A s) = db_kernel_name s" "db_redirect_stderr (use_target A s) = db_redirect_stderr s"
  "db_process (use_target A s) = db_process s" "db_wg (use_target A s) = db_wg s" "db_trampoline (use_target A s) = db_trampoline s"
  "db_line (use_target A s) = db_line s"
  by (simp_all add: use_target_def)

lemma load_kernel_dwarf_frame [debugger_frame]:
  "db_breakpoints (snd (load_kernel_dwarf A s)) = db_breakpoints s" "db_next_id (snd (load_kernel_dwarf A s)) = db_next_id s"
  "db_lldb (snd (load_kernel_dwarf A s)) = db_lldb s" "db_items (snd (load_kernel_dwarf A s)) = db_items s"
  "db_kernel_name (snd (load_kernel_dwarf A s)) = db_kernel_name s"
  "db_redirect_stderr (snd (load_kernel_dwarf A s)) = db_redirect_stderr s" "db_process (snd (load_kernel_dwarf A s)) = db_process s"
  "db_wg (snd (load_kernel_dwarf A s)) = db_wg s" "db_trampoline (snd (load_kernel_dwarf A s)) = db_trampoline s"
  "db_line (snd (load_kernel_dwarf A s)) = db_line s"
  by (simp_all add: load_kernel_dwarf_def dwarf_load_def Let_def debugger_frame split: option.split)

lemma load_kernel_dwarf_target [debugger_frame]: "db_target s \<Longrightarrow> db_target (snd (load_kernel_dwarf A s))"
  by (simp add: load_kernel_dwarf_def dwarf_load_def Let_def use_target_def split: option.split)

lemma put_breakpoints_frame [debugger_frame]:
  "db_breakpoints (put_breakpoints r s) = fst r" "db_lldb (put_breakpoints r s) = fst (snd r)"
  "db_next_id (put_breakpoints r s) = db_next_id s" "db_items (put_breakpoints r s) = db_items s"
  "db_dwarf (put_breakpoints r s) = db_dwarf s" "db_kernel_name (put_breakpoints r s) = db_kernel_name s"
  "db_redirect_stderr (put_breakpoints r s) = db_redirect_stderr s" "db_process (put_breakpoints r s) = db_process s"
  "db_wg (put_breakpoints r s) = db_wg s" "db_trampoline (put_breakpoints r s) = db_trampoline s"
  "db_target (put_breakpoints r s) = db_target s" "db_line (put_breakpoints r s) = db_line s"
  by (simp_all add: put_breakpoints_def split: prod.split)

text \<open>The state the kernel breakpoints are resolved in, and a case rule for the whole resolution.\<close>

definition after_host :: "'l lldb_api \<Rightarrow> 'l debugger \<Rightarrow> 'l debugger" where
  "after_host A s0 = (let s = use_target A s0 in
     put_breakpoints (snd (resolve_each (\<lambda>bp. \<not> is_kernel_breakpoint bp) (resolve_host_breakpoint A (db_redirect_stderr s))
       (db_breakpoints s) (db_lldb s))) s)"

definition after_dwarf :: "'l lldb_api \<Rightarrow> 'l debugger \<Rightarrow> 'l debugger" where
  "after_dwarf A s = (if dm_loaded (db_dwarf s) then s else snd (load_kernel_dwarf A s))"

definition after_kernel :: "'l lldb_api \<Rightarrow> lldb_module \<Rightarrow> 'l debugger \<Rightarrow> 'l debugger" where
  "after_kernel A m s = put_breakpoints (snd (resolve_each is_kernel_breakpoint
     (resolve_one_breakpoint A m (db_dwarf s) (db_redirect_stderr s)) (db_breakpoints s) (db_lldb s))) s"

lemma resolve_pending_state:
  "snd (resolve_pending_ocl_breakpoints A s) =
     (if \<not> db_target (use_target A s) then use_target A s
      else let s2 = after_dwarf A (after_host A s) in
        if \<not> dm_loaded (db_dwarf s2) then s2
        else case find_kernel_module A (db_lldb s2) (db_kernel_name s2) of None \<Rightarrow> s2 | Some m \<Rightarrow> after_kernel A m s2)"
  by (simp add: resolve_pending_ocl_breakpoints_def after_host_def after_dwarf_def after_kernel_def Let_def
      split: prod.split option.split)

lemma after_dwarf_frame [debugger_frame]:
  "db_breakpoints (after_dwarf A s) = db_breakpoints s" "db_next_id (after_dwarf A s) = db_next_id s"
  "db_lldb (after_dwarf A s) = db_lldb s" "db_items (after_dwarf A s) = db_items s"
  "db_kernel_name (after_dwarf A s) = db_kernel_name s" "db_redirect_stderr (after_dwarf A s) = db_redirect_stderr s"
  "db_process (after_dwarf A s) = db_process s" "db_wg (after_dwarf A s) = db_wg s"
  "db_trampoline (after_dwarf A s) = db_trampoline s" "db_line (after_dwarf A s) = db_line s"
  by (simp_all add: after_dwarf_def debugger_frame)

lemma after_dwarf_target [debugger_frame]: "db_target s \<Longrightarrow> db_target (after_dwarf A s)"
  by (simp add: after_dwarf_def debugger_frame)

text \<open>
  The principle by which everything about the table is shown: a relation between breakpoints that both
  kinds of resolution keep holds between the tables before and after.
\<close>

lemma resolve_each_all2:
  assumes refl: "\<And>bp. R bp bp"
  shows "(\<And>bp l. bp \<in> set bps \<Longrightarrow> \<not> bp_resolved bp \<Longrightarrow> kind bp \<Longrightarrow> R bp (fst (snd (r bp l))))
    \<Longrightarrow> list_all2 R bps (fst (snd (resolve_each kind r bps l)))"
proof (induction bps arbitrary: l)
  case (Cons bp bps)
  have tl: "list_all2 R bps (fst (snd (resolve_each kind r bps l)))" for l using Cons by simp
  show ?case
  proof (cases "bp_resolved bp \<or> \<not> kind bp")
    case True
    with tl [of l] refl [of bp] show ?thesis by (cases "resolve_each kind r bps l") auto
  next
    case False
    obtain ok bp' l1 o1 where r: "r bp l = (ok, bp', l1, o1)" by (metis prod_cases4)
    have "R bp bp'" using Cons.prems [of bp l] False r by simp
    with tl [of l1] False r show ?thesis by (cases "resolve_each kind r bps l1") auto
  qed
qed simp

definition same_entry :: "ocl_breakpoint \<Rightarrow> ocl_breakpoint \<Rightarrow> bool" where
  "same_entry bp bp' \<longleftrightarrow> bp_id bp' = bp_id bp \<and> bp_file bp' = bp_file bp \<and> (bp_resolved bp \<longrightarrow> bp' = bp)"

lemma same_entry_refl [simp]: "same_entry bp bp"
  by (simp add: same_entry_def)

lemma same_entry_trans: "same_entry a b \<Longrightarrow> same_entry b c \<Longrightarrow> same_entry a c"
  by (auto simp: same_entry_def)

lemma resolve_one_same_entry: "same_entry bp (fst (snd (resolve_one_breakpoint A m dm silent bp l)))"
  by (auto simp: same_entry_def resolve_one_breakpoint_def Let_def split: list.split prod.split)

lemma resolve_host_same_entry: "\<not> bp_resolved bp \<Longrightarrow> same_entry bp (fst (snd (resolve_host_breakpoint A silent bp l)))"
  by (auto simp: same_entry_def resolve_host_breakpoint_def Let_def split: prod.split)

lemma after_host_same: "list_all2 same_entry (db_breakpoints s) (db_breakpoints (after_host A s))"
  unfolding after_host_def Let_def debugger_frame
  by (rule resolve_each_all2) (simp_all add: resolve_host_same_entry)

lemma after_kernel_same: "list_all2 same_entry (db_breakpoints s) (db_breakpoints (after_kernel A m s))"
  unfolding after_kernel_def debugger_frame
  by (rule resolve_each_all2) (simp_all add: resolve_one_same_entry)

lemma resolve_pending_same:
  "list_all2 same_entry (db_breakpoints s) (db_breakpoints (snd (resolve_pending_ocl_breakpoints A s)))"
proof -
  have refl: "list_all2 same_entry bps bps" for bps by (simp add: list_all2_refl)
  show ?thesis
    using list_all2_trans [OF same_entry_trans after_host_same after_kernel_same]
    by (auto simp: resolve_pending_state Let_def debugger_frame refl after_host_same
        intro: list_all2_trans [OF same_entry_trans after_host_same] after_kernel_same [of "after_dwarf A _", unfolded debugger_frame]
        split: option.split)
qed

lemma after_host_frame [debugger_frame]:
  "db_next_id (after_host A s) = db_next_id s" "db_items (after_host A s) = db_items s"
  "db_kernel_name (after_host A s) = db_kernel_name s" "db_redirect_stderr (after_host A s) = db_redirect_stderr s"
  "db_process (after_host A s) = db_process s" "db_wg (after_host A s) = db_wg s"
  "db_trampoline (after_host A s) = db_trampoline s" "db_line (after_host A s) = db_line s"
  "db_dwarf (after_host A s) = db_dwarf s" "db_target (after_host A s) = db_target (use_target A s)"
  by (simp_all add: after_host_def Let_def debugger_frame)

lemma after_kernel_frame [debugger_frame]:
  "db_next_id (after_kernel A m s) = db_next_id s" "db_items (after_kernel A m s) = db_items s"
  "db_kernel_name (after_kernel A m s) = db_kernel_name s" "db_redirect_stderr (after_kernel A m s) = db_redirect_stderr s"
  "db_process (after_kernel A m s) = db_process s" "db_wg (after_kernel A m s) = db_wg s"
  "db_trampoline (after_kernel A m s) = db_trampoline s" "db_line (after_kernel A m s) = db_line s"
  "db_dwarf (after_kernel A m s) = db_dwarf s" "db_target (after_kernel A m s) = db_target s"
  by (simp_all add: after_kernel_def debugger_frame)

lemma resolve_pending_frame [debugger_frame]:
  "db_next_id (snd (resolve_pending_ocl_breakpoints A s)) = db_next_id s"
  "db_items (snd (resolve_pending_ocl_breakpoints A s)) = db_items s"
  "db_kernel_name (snd (resolve_pending_ocl_breakpoints A s)) = db_kernel_name s"
  "db_process (snd (resolve_pending_ocl_breakpoints A s)) = db_process s"
  "db_wg (snd (resolve_pending_ocl_breakpoints A s)) = db_wg s"
  "db_trampoline (snd (resolve_pending_ocl_breakpoints A s)) = db_trampoline s"
  "db_line (snd (resolve_pending_ocl_breakpoints A s)) = db_line s"
  by (simp_all add: resolve_pending_state Let_def debugger_frame split: option.split)

lemma ensure_trampoline_frame [debugger_frame]:
  "db_breakpoints (ensure_ocl_trampoline A s) = db_breakpoints s" "db_next_id (ensure_ocl_trampoline A s) = db_next_id s"
  "db_items (ensure_ocl_trampoline A s) = db_items s" "db_process (ensure_ocl_trampoline A s) = db_process s"
  "db_kernel_name (ensure_ocl_trampoline A s) = db_kernel_name s" "db_dwarf (ensure_ocl_trampoline A s) = db_dwarf s"
  by (simp_all add: ensure_ocl_trampoline_def Let_def debugger_frame split: prod.split)

section \<open>The interface of the table\<close>

text \<open>
  What the front ends rely on: adding hands out the next id and appends an entry, removing an id takes
  its first entry out and says whether there was one, and whatever else the debugger does leaves the
  entries as they are.
\<close>

datatype ('e, 'c) table_command = Add 'e | Remove size_t | Other 'c

fun remove_first :: "'k \<Rightarrow> ('k \<times> 'e) list \<Rightarrow> ('k \<times> 'e) list" where
  "remove_first k [] = []"
| "remove_first k (x # xs) = (if fst x = k then xs else x # remove_first k xs)"

text \<open>The abstract book: natural ids that are never used twice.\<close>

fun book_step :: "('e, 'c) table_command \<Rightarrow> nat \<times> (nat \<times> 'e) list \<Rightarrow> nat \<times> (nat \<times> 'e) list" where
  "book_step (Add e) (n, es) = (n + 1, es @ [(n, e)])"
| "book_step (Remove i) (n, es) = (n, filter (\<lambda>x. fst x \<noteq> unat i) es)"
| "book_step (Other c) (n, es) = (n, es)"

definition book_run :: "('e, 'c) table_command list \<Rightarrow> nat \<times> (nat \<times> 'e) list" where
  "book_run cs = fold book_step cs (1, [])"

definition book_ok :: "nat \<times> (nat \<times> 'e) list \<Rightarrow> bool" where
  "book_ok b \<longleftrightarrow> sorted_wrt (<) (map fst (snd b)) \<and> (\<forall>x \<in> set (snd b). fst x < fst b)"

lemma book_ok_step: "book_ok b \<Longrightarrow> book_ok (book_step c b)"
proof (cases b)
  fix n es assume b: "b = (n, es)" and ok: "book_ok b"
  then show ?thesis
  proof (cases c)
    case (Remove i)
    have "sorted_wrt (<) (map fst (filter (\<lambda>x. fst x \<noteq> unat i) es))"
      using ok b by (simp add: book_ok_def sorted_wrt_map sorted_wrt_filter)
    with Remove b ok show ?thesis by (simp add: book_ok_def)
  qed (use b ok in \<open>auto simp: book_ok_def sorted_wrt_append less_Suc_eq\<close>)
qed

lemma remove_first_filter: "distinct (map fst es) \<Longrightarrow> remove_first k es = filter (\<lambda>x. fst x \<noteq> k) es"
proof (induction es)
  case (Cons e es)
  then have "fst e = k \<Longrightarrow> filter (\<lambda>x. fst x \<noteq> k) es = es" by (auto simp: filter_id_conv image_iff)
  with Cons show ?case by auto
qed simp

locale id_table =
  fixes view :: "'a \<Rightarrow> 'e"
    and add :: "'a \<Rightarrow> 's \<Rightarrow> size_t \<times> 's"
    and remove :: "size_t \<Rightarrow> 's \<Rightarrow> bool \<times> 's"
    and other :: "'c \<Rightarrow> 's \<Rightarrow> 's"
    and entries :: "'s \<Rightarrow> (size_t \<times> 'e) list"
    and next_key :: "'s \<Rightarrow> size_t"
  assumes add_key: "fst (add e s) = next_key s" "next_key (snd (add e s)) = next_key s + 1"
    and add_entry: "entries (snd (add e s)) = entries s @ [(next_key s, view e)]"
    and remove_found: "fst (remove i s) \<longleftrightarrow> i \<in> fst ` set (entries s)"
    and remove_entry: "entries (snd (remove i s)) = remove_first i (entries s)"
    and remove_key: "next_key (snd (remove i s)) = next_key s"
    and other_keeps: "entries (other c s) = entries s" "next_key (other c s) = next_key s"
begin

fun step :: "('a, 'c) table_command \<Rightarrow> 's \<Rightarrow> 's" where
  "step (Add e) s = snd (add e s)"
| "step (Remove i) s = snd (remove i s)"
| "step (Other c) s = other c s"

text \<open>The book a state stands for, and the simulation as long as the ids do not wrap around.\<close>

definition book_of :: "'s \<Rightarrow> nat \<times> (nat \<times> 'e) list" where
  "book_of s = (unat (next_key s), map (\<lambda>x. (unat (fst x), snd x)) (entries s))"

lemma step_refines:
  assumes "book_ok (book_of s)" "unat (next_key s) + 1 < 2 ^ 64"
  shows "book_of (step c s) = book_step (map_table_command view (\<lambda>c. c) c) (book_of s)"
proof (cases c)
  case (Add e)
  have "unat (next_key s + 1) = unat (next_key s) + 1" using assms(2) by (simp add: unat_plus_no_wrap)
  with Add show ?thesis by (simp add: book_of_def add_key add_entry)
next
  case (Remove i)
  have "sorted_wrt (<) (map unat (map fst (entries s)))"
    using assms(1) by (simp add: book_ok_def book_of_def comp_def)
  then have "distinct (map unat (map fst (entries s)))" by (simp only: strict_sorted_iff)
  then have "distinct (map fst (entries s))" by (simp only: distinct_map)
  then show ?thesis using Remove by (simp add: book_of_def remove_key remove_entry remove_first_filter filter_map comp_def word_unat_eq_iff)
qed (simp add: book_of_def other_keeps)

lemma run_refines:
  assumes "entries s = []" "next_key s = 1" "length cs < 2 ^ 64 - 1"
  shows "book_of (fold step cs s) = book_run (map (map_table_command view (\<lambda>c. c)) cs)"
    and "book_ok (book_run (map (map_table_command view (\<lambda>c. c)) cs))"
proof -
  let ?book = "\<lambda>cs. book_run (map (map_table_command view (\<lambda>c :: 'c. c)) cs)"
  have "book_of (fold step cs s) = ?book cs \<and> book_ok (?book cs) \<and> fst (?book cs) \<le> length cs + 1"
    using assms(3)
  proof (induction cs rule: rev_induct)
    case Nil
    then show ?case using assms(1,2) by (simp add: book_of_def book_run_def book_ok_def)
  next
    case (snoc c cs)
    then have IH: "book_of (fold step cs s) = ?book cs" "book_ok (?book cs)" "fst (?book cs) \<le> length cs + 1" by simp_all
    have "unat (next_key (fold step cs s)) = fst (?book cs)" by (simp add: IH(1) [symmetric] book_of_def)
    with IH(3) snoc.prems have "unat (next_key (fold step cs s)) + 1 < 2 ^ 64" by simp
    then have r: "book_of (step c (fold step cs s)) = book_step (map_table_command view (\<lambda>c. c) c) (?book cs)"
      using step_refines IH(1,2) by simp
    let ?c = "map_table_command view (\<lambda>c. c) c"
    have "fst (book_step ?c b) \<le> fst b + 1" for b :: "nat \<times> (nat \<times> 'e) list" by (cases b; cases c) auto
    from this [of "?book cs"] IH(3) have "fst (book_step ?c (?book cs)) \<le> length (cs @ [c]) + 1" by simp
    with r book_ok_step [OF IH(2), of ?c] show ?case by (simp add: book_run_def)
  qed
  then show "book_of (fold step cs s) = ?book cs" "book_ok (?book cs)" by blast+
qed

end

end
