(* ===== verification/BreakpointTable.thy ===== *)
theory BreakpointTable
  imports Breakpoints
begin

text \<open>
  Properties of the debugger's breakpoint table: it refines a book of entries with ids that are never
  used twice, its LLDB breakpoints exist, are its own and go away with their entry, and a breakpoint is
  resolved at the first address of its line.  What is used of LLDB is stated by \<open>lawful_lldb\<close>.
\<close>

section \<open>The operations that leave the table's entries alone\<close>

datatype debugger_call = Resolve_pending | Trampoline_hit lldb_thread | Ensure_trampoline
  | Set_workgroup string | Set_source u32 | Load_dwarf | Debuggee_runs

fun call_debugger :: "'l lldb_api \<Rightarrow> debugger_call \<Rightarrow> 'l debugger \<Rightarrow> 'l debugger" where
  "call_debugger A Resolve_pending s = snd (resolve_pending_ocl_breakpoints A s)"
| "call_debugger A (Trampoline_hit t) s = trampoline_callback A t s"
| "call_debugger A Ensure_trampoline s = ensure_ocl_trampoline A s"
| "call_debugger A (Set_workgroup name) s = snd (set_workgroup_breakpoint A name s)"
| "call_debugger A (Set_source line) s = snd (set_source_breakpoint A line s)"
| "call_debugger A Load_dwarf s = snd (load_kernel_dwarf A s)"
| "call_debugger A Debuggee_runs s = s\<lparr>db_lldb := snd (api_next A (db_lldb s))\<rparr>"

lemma trampoline_callback_frame [debugger_frame]:
  "db_breakpoints (trampoline_callback A t s) = db_breakpoints (snd (resolve_pending_ocl_breakpoints A s))"
  "db_next_id (trampoline_callback A t s) = db_next_id s" "db_lldb (trampoline_callback A t s) = db_lldb (snd (resolve_pending_ocl_breakpoints A s))"
  "db_wg (trampoline_callback A t s) = db_wg s" "db_line (trampoline_callback A t s) = db_line s"
  "db_trampoline (trampoline_callback A t s) = db_trampoline s"
  "db_target (trampoline_callback A t s) = db_target (snd (resolve_pending_ocl_breakpoints A s))"
  by (simp_all add: trampoline_callback_def Let_def debugger_frame split: option.split)

lemma dispatch_frame [debugger_frame]:
  "db_breakpoints (snd (dispatch_breakpoint A s)) = db_breakpoints s" "db_next_id (snd (dispatch_breakpoint A s)) = db_next_id s"
  "db_items (snd (dispatch_breakpoint A s)) = db_items s" "db_process (snd (dispatch_breakpoint A s)) = db_process s"
  "db_target (snd (dispatch_breakpoint A s)) = db_target s" "db_trampoline (snd (dispatch_breakpoint A s)) = db_trampoline s"
  "db_line (snd (dispatch_breakpoint A s)) = db_line s" "db_kernel_name (snd (dispatch_breakpoint A s)) = db_kernel_name s"
  by (simp_all add: dispatch_breakpoint_def split: prod.split option.split)

lemma symbol_frame [debugger_frame]:
  "db_breakpoints (snd (symbol_breakpoint A s)) = db_breakpoints s" "db_next_id (snd (symbol_breakpoint A s)) = db_next_id s"
  "db_items (snd (symbol_breakpoint A s)) = db_items s" "db_process (snd (symbol_breakpoint A s)) = db_process s"
  "db_target (snd (symbol_breakpoint A s)) = db_target s" "db_trampoline (snd (symbol_breakpoint A s)) = db_trampoline s"
  "db_line (snd (symbol_breakpoint A s)) = db_line s" "db_kernel_name (snd (symbol_breakpoint A s)) = db_kernel_name s"
  by (simp_all add: symbol_breakpoint_def Let_def split: prod.split)

lemma delete_workgroup_frame [debugger_frame]:
  "db_breakpoints (delete_workgroup_breakpoint A s) = db_breakpoints s" "db_next_id (delete_workgroup_breakpoint A s) = db_next_id s"
  "db_items (delete_workgroup_breakpoint A s) = db_items s" "db_process (delete_workgroup_breakpoint A s) = db_process s"
  "db_target (delete_workgroup_breakpoint A s) = db_target s" "db_trampoline (delete_workgroup_breakpoint A s) = db_trampoline s"
  "db_line (delete_workgroup_breakpoint A s) = db_line s" "db_kernel_name (delete_workgroup_breakpoint A s) = db_kernel_name s"
  "db_wg (delete_workgroup_breakpoint A s) = db_wg s"
  by (simp_all add: delete_workgroup_breakpoint_def)

lemma set_workgroup_frame [debugger_frame]:
  "db_breakpoints (snd (set_workgroup_breakpoint A n s)) = db_breakpoints s"
  "db_next_id (snd (set_workgroup_breakpoint A n s)) = db_next_id s"
  "db_items (snd (set_workgroup_breakpoint A n s)) = db_items s"
  "db_process (snd (set_workgroup_breakpoint A n s)) = db_process s"
  "db_target (snd (set_workgroup_breakpoint A n s)) = db_target s"
  "db_trampoline (snd (set_workgroup_breakpoint A n s)) = db_trampoline s"
  "db_line (snd (set_workgroup_breakpoint A n s)) = db_line s"
  by (simp_all add: set_workgroup_breakpoint_def Let_def split_beta debugger_frame)

lemma set_source_frame [debugger_frame]:
  "db_breakpoints (snd (set_source_breakpoint A n s)) = db_breakpoints s"
  "db_next_id (snd (set_source_breakpoint A n s)) = db_next_id s"
  "db_items (snd (set_source_breakpoint A n s)) = db_items s"
  "db_process (snd (set_source_breakpoint A n s)) = db_process s"
  "db_trampoline (snd (set_source_breakpoint A n s)) = db_trampoline s"
  "db_wg (snd (set_source_breakpoint A n s)) = db_wg s"
  by (simp_all add: set_source_breakpoint_def Let_def debugger_frame split: prod.split option.split list.split)

text \<open>An entry of the table is its id and file; the line moves to the one found when it is resolved.\<close>

definition table_entries :: "'l debugger \<Rightarrow> (size_t \<times> string) list" where
  "table_entries s = map (\<lambda>bp. (bp_id bp, bp_file bp)) (db_breakpoints s)"

lemma same_entries_table:
  "list_all2 same_entry bps bps' \<Longrightarrow> map (\<lambda>bp. (bp_id bp, bp_file bp)) bps' = map (\<lambda>bp. (bp_id bp, bp_file bp)) bps"
  by (induction rule: list_all2_induct) (auto simp: same_entry_def)

lemma table_entries_resolve [simp]: "table_entries (snd (resolve_pending_ocl_breakpoints A s)) = table_entries s"
  by (simp add: table_entries_def same_entries_table [OF resolve_pending_same])

lemma call_debugger_entries:
  "table_entries (call_debugger A c s) = table_entries s" "db_next_id (call_debugger A c s) = db_next_id s"
  using table_entries_resolve [of A s] by (cases c; simp add: table_entries_def debugger_frame)+

lemma erase_id_entries: "map (\<lambda>bp. (bp_id bp, bp_file bp)) (erase_id i bps) = remove_first i (map (\<lambda>bp. (bp_id bp, bp_file bp)) bps)"
  by (induction bps) simp_all

lemma find_id: "find (\<lambda>bp. bp_id bp = i) bps = None \<longleftrightarrow> i \<notin> bp_id ` set bps"
  by (auto simp: find_None_iff)

lemma erase_id_absent: "i \<notin> bp_id ` set bps \<Longrightarrow> erase_id i bps = bps"
  by (induction bps) auto

lemma add_entry_frame:
  "fst (add_ocl_breakpoint A f line s) = db_next_id s" "db_next_id (snd (add_ocl_breakpoint A f line s)) = db_next_id s + 1"
  "table_entries (snd (add_ocl_breakpoint A f line s)) = table_entries s @ [(db_next_id s, f)]"
  by (simp_all add: add_ocl_breakpoint_def Let_def debugger_frame)
     (simp add: table_entries_def debugger_frame same_entries_table [OF resolve_pending_same])

interpretation ocl_table: id_table fst "\<lambda>e. add_ocl_breakpoint A (fst e) (snd e)" "delete_ocl_breakpoint A"
    "call_debugger A" table_entries db_next_id for A :: "'l lldb_api"
proof unfold_locales
  fix i :: size_t and s :: "'l debugger"
  show "fst (delete_ocl_breakpoint A i s) \<longleftrightarrow> i \<in> fst ` set (table_entries s)"
    by (auto simp: delete_ocl_breakpoint_def table_entries_def find_id image_image split: option.split dest: find_id [THEN iffD1])
       (simp_all add: find_Some_iff, metis nth_mem image_eqI)
  show "table_entries (snd (delete_ocl_breakpoint A i s)) = remove_first i (table_entries s)"
    by (simp add: delete_ocl_breakpoint_def table_entries_def Let_def erase_id_entries find_id erase_id_absent
        flip: erase_id_entries split: option.split)
qed (simp_all add: add_entry_frame call_debugger_entries delete_ocl_breakpoint_def Let_def split: option.split)

text \<open>What a front end and the debuggee do to the table, in the order it happens.\<close>

type_synonym command = "(string \<times> u32, debugger_call) table_command"

fun table_step :: "'l lldb_api \<Rightarrow> command \<Rightarrow> 'l debugger \<Rightarrow> 'l debugger" where
  "table_step A (Add e) s = snd (add_ocl_breakpoint A (fst e) (snd e) s)"
| "table_step A (Remove i) s = snd (delete_ocl_breakpoint A i s)"
| "table_step A (Other c) s = call_debugger A c s"

definition table_run :: "'l lldb_api \<Rightarrow> command list \<Rightarrow> 'l debugger \<Rightarrow> 'l debugger" where
  "table_run A cs s = fold (table_step A) cs s"

lemma table_step_eq: "table_step A c s = ocl_table.step A c s"
  by (cases c) simp_all

lemma table_run_eq: "table_run A cs s = fold (ocl_table.step A) cs s"
  by (induction cs arbitrary: s) (simp_all add: table_run_def table_step_eq)

definition same_files :: "command \<Rightarrow> (string, debugger_call) table_command" where
  "same_files c = map_table_command fst (\<lambda>d. d) c"

text \<open>
  C14.  The breakpoint table refines the book: whatever is added, deleted, resolved or hit, in any order,
  the entries listed, with their ids as numbers, are those of a book that gives out 1, 2, 3, ... and
  removes by id, as long as fewer than 2^64 - 1 operations are done; in particular no id is listed twice
  or handed out again, and the entries stay in the order in which they were added.
\<close>

theorem table_refines_book:
  assumes "length cs < 2 ^ 64 - 1"
  shows "map (\<lambda>b. (unat (lb_id b), lb_file b)) (list_ocl_breakpoints (table_run A cs (new_debugger abi l)))
      = snd (book_run (map same_files cs))
    \<and> sorted_wrt (<) (map lb_id (list_ocl_breakpoints (table_run A cs (new_debugger abi l))))"
proof -
  let ?s = "new_debugger abi l" and ?t = "table_run A cs (new_debugger abi l)"
  have new: "table_entries ?s = []" "db_next_id ?s = 1" by (simp_all add: table_entries_def new_debugger_def)
  have ref: "ocl_table.book_of ?t = book_run (map same_files cs)" "book_ok (book_run (map same_files cs))"
    using ocl_table.run_refines(1) [OF new assms, where A = A] ocl_table.run_refines(2) [OF new assms] by (simp_all add: table_run_eq same_files_def [abs_def])
  then have files: "map (\<lambda>b. (unat (lb_id b), lb_file b)) (list_ocl_breakpoints ?t) = snd (book_run (map same_files cs))"
    by (simp add: ocl_table.book_of_def table_entries_def list_ocl_breakpoints_def comp_def flip: ref(1))
  have "map (\<lambda>b. unat (lb_id b)) (list_ocl_breakpoints ?t) = map fst (snd (book_run (map same_files cs)))"
    by (simp add: comp_def flip: files)
  with ref(2) have "sorted_wrt (<) (map unat (map lb_id (list_ocl_breakpoints ?t)))"
    by (simp add: book_ok_def comp_def)
  then have "sorted_wrt (<) (map lb_id (list_ocl_breakpoints ?t))"
    by (simp add: sorted_wrt_map word_less_nat_alt)
  with files show ?thesis by blast
qed

section \<open>What is used of LLDB\<close>

text \<open>
  Documented behaviour of LLDB's target: a new breakpoint gets an id above all earlier ones (\<open>nid\<close> is the
  next free one), creating one leaves the others, the modules and the stopped process as they are, deleting
  one removes exactly that one, and running the debuggee neither creates nor deletes user breakpoints.
\<close>

definition same_program :: "'l lldb_api \<Rightarrow> 'l \<Rightarrow> 'l \<Rightarrow> bool" where
  "same_program A l l' \<longleftrightarrow> api_process A l' = api_process A l \<and> api_modules A l' = api_modules A l
     \<and> api_has_target A l' = api_has_target A l"

definition creates :: "'l lldb_api \<Rightarrow> ('l \<Rightarrow> int) \<Rightarrow> 'l \<Rightarrow> int option \<times> 'l \<Rightarrow> bool" where
  "creates A nid l r \<longleftrightarrow> same_program A l (snd r) \<and> nid l \<le> nid (snd r)
     \<and> (\<forall>i. api_has A (snd r) i \<longleftrightarrow> api_has A l i \<or> fst r = Some i)
     \<and> (\<forall>i. fst r = Some i \<longrightarrow> nid l \<le> i \<and> i < nid (snd r))"

definition lawful_lldb :: "'l lldb_api \<Rightarrow> ('l \<Rightarrow> int) \<Rightarrow> bool" where
  "lawful_lldb A nid \<longleftrightarrow>
     (\<forall>l f line. creates A nid l (api_by_location A f line l)) \<and> (\<forall>l a. creates A nid l (api_by_address A a l))
     \<and> (\<forall>l b n. creates A nid l (api_by_name A b n l)) \<and> (\<forall>l b n. creates A nid l (api_by_regex A b n l))
     \<and> (\<forall>l i. same_program A l (api_delete A i l) \<and> nid (api_delete A i l) = nid l
          \<and> (\<forall>j. api_has A (api_delete A i l) j \<longleftrightarrow> api_has A l j \<and> j \<noteq> i))
     \<and> (\<forall>l. nid l \<le> nid (snd (api_next A l)) \<and> (\<forall>j. api_has A (snd (api_next A l)) j \<longleftrightarrow> api_has A l j))"

text \<open>Documented: a breakpoint by address is always made, at that address.\<close>

definition arms_addresses :: "'l lldb_api \<Rightarrow> bool" where
  "arms_addresses A \<longleftrightarrow> (\<forall>a l. \<exists>i l'. api_by_address A a l = (Some i, l') \<and> api_has A l' i \<and> api_locations A l' i = [a])"

text \<open>
  A small target with these laws, for the examples: it has a list of breakpoints with their addresses and
  a script of what happens next, and the process ends after the script.
\<close>

record demo_lldb =
  demo_next :: int
  demo_live :: "(int \<times> u64) list"
  demo_script :: "(run_event \<times> lldb_process) list"
  demo_process :: lldb_process

definition demo_create :: "u64 \<Rightarrow> demo_lldb \<Rightarrow> int option \<times> demo_lldb" where
  "demo_create a d = (Some (demo_next d), d\<lparr>demo_next := demo_next d + 1, demo_live := (demo_next d, a) # demo_live d\<rparr>)"

definition demo_step :: "demo_lldb \<Rightarrow> run_event \<times> demo_lldb" where
  "demo_step d = (case demo_script d of
     [] \<Rightarrow> (Halted, d\<lparr>demo_process := (demo_process d)\<lparr>pr_state := State_exited\<rparr>\<rparr>)
   | (e, p) # es \<Rightarrow> (e, d\<lparr>demo_script := es, demo_process := p\<rparr>))"

definition demo_api :: "lldb_module list \<Rightarrow> dwarf_model option \<Rightarrow> demo_lldb lldb_api" where
  "demo_api mods dwarf = \<lparr>api_has_target = (\<lambda>d. True), api_process = demo_process, api_modules = (\<lambda>d. mods),
     api_has = (\<lambda>d i. i \<in> fst ` set (demo_live d)),
     api_locations = (\<lambda>d i. case map_of (demo_live d) i of None \<Rightarrow> [] | Some a \<Rightarrow> [a]),
     api_by_location = (\<lambda>f line d. if f = ''host.c'' then demo_create (0x400000 + ucast line) d else (None, d)),
     api_by_address = demo_create, api_by_name = (\<lambda>b n. demo_create 0x7000), api_by_regex = (\<lambda>b n. demo_create 0x7000),
     api_delete = (\<lambda>i d. d\<lparr>demo_live := List.filter (\<lambda>x. fst x \<noteq> i) (demo_live d)\<rparr>),
     api_next = demo_step, api_file = (\<lambda>path. None), api_dwarf = (\<lambda>path. dwarf)\<rparr>"

lemma demo_creates:
  "creates (demo_api mods dwarf) demo_next d (demo_create a d)" "creates (demo_api mods dwarf) demo_next d (None, d)"
  by (auto simp: creates_def same_program_def demo_api_def demo_create_def)

lemma demo_lawful: "lawful_lldb (demo_api mods dwarf) demo_next"
proof -
  have step: "demo_next (snd (demo_step d)) = demo_next d" "demo_live (snd (demo_step d)) = demo_live d" for d
    by (simp_all add: demo_step_def split: list.split prod.split)
  have ops: "api_by_location (demo_api mods dwarf) f line d = (if f = ''host.c'' then demo_create (0x400000 + ucast line) d else (None, d))"
    "api_by_address (demo_api mods dwarf) = demo_create" "api_by_name (demo_api mods dwarf) b n = demo_create 0x7000"
    "api_by_regex (demo_api mods dwarf) b n = demo_create 0x7000" "api_next (demo_api mods dwarf) = demo_step" for f line d b n
    by (simp_all add: demo_api_def)
  have "same_program (demo_api mods dwarf) d (api_delete (demo_api mods dwarf) i d) \<and> demo_next (api_delete (demo_api mods dwarf) i d) = demo_next d
    \<and> (\<forall>j. api_has (demo_api mods dwarf) (api_delete (demo_api mods dwarf) i d) j \<longleftrightarrow> api_has (demo_api mods dwarf) d j \<and> j \<noteq> i)" for d i
    by (auto simp: demo_api_def same_program_def)
  moreover have "api_has (demo_api mods dwarf) (snd (demo_step d)) j \<longleftrightarrow> api_has (demo_api mods dwarf) d j" for d j
    by (simp add: demo_api_def step)
  ultimately show ?thesis
    unfolding lawful_lldb_def ops using demo_creates step(1) by simp
qed

lemma demo_arms: "arms_addresses (demo_api mods dwarf)"
  by (simp add: arms_addresses_def demo_api_def demo_create_def)

definition demo_start :: "(run_event \<times> lldb_process) list \<Rightarrow> demo_lldb" where
  "demo_start script = \<lparr>demo_next = 1, demo_live = [], demo_script = script, demo_process = enqueue_process\<rparr>"

theorem table_refines_book_witness:
  "map (\<lambda>b. (unat (lb_id b), lb_file b)) (list_ocl_breakpoints
     (table_run (demo_api [] None) [Add (''vadd.cl'', 13), Add (''host.c'', 5), Remove 1, Other Resolve_pending, Add (''x.cl'', 2)]
       (new_debugger None (demo_start []))))
   = [(2, ''host.c''), (3, ''x.cl'')]"
  using table_refines_book [of "[Add (''vadd.cl'', 13), Add (''host.c'', 5), Remove 1, Other Resolve_pending, Add (''x.cl'', 2)]"
      "demo_api [] None" None "demo_start []"]
  by (simp add: book_run_def same_files_def)

text \<open>The ids of the table's LLDB breakpoints, and all the ids the debugger holds.\<close>

definition table_ids :: "ocl_breakpoint list \<Rightarrow> int list" where
  "table_ids bps = List.map_filter bp_sb bps"

definition internal_ids :: "'l debugger \<Rightarrow> int list" where
  "internal_ids s = List.map_filter (\<lambda>b. b) [db_wg s, db_line s, db_trampoline s]"

definition held_ids :: "'l debugger \<Rightarrow> int list" where
  "held_ids s = table_ids (db_breakpoints s) @ internal_ids s"

definition armed :: "'l lldb_api \<Rightarrow> ('l \<Rightarrow> int) \<Rightarrow> 'l debugger \<Rightarrow> bool" where
  "armed A nid s \<longleftrightarrow> distinct (held_ids s) \<and> (\<forall>i \<in> set (held_ids s). i < nid (db_lldb s))
     \<and> (\<forall>i \<in> set (table_ids (db_breakpoints s)). api_has A (db_lldb s) i)
     \<and> (\<forall>bp \<in> set (db_breakpoints s). bp_resolved bp \<longrightarrow> bp_sb bp \<noteq> None)
     \<and> (table_ids (db_breakpoints s) \<noteq> [] \<longrightarrow> db_target s)"

lemma table_ids_simps [simp]:
  "table_ids [] = []" "table_ids (bp # bps) = (case bp_sb bp of None \<Rightarrow> [] | Some i \<Rightarrow> [i]) @ table_ids bps"
  "table_ids (bps @ bps') = table_ids bps @ table_ids bps'"
  by (simp_all add: table_ids_def List.map_filter_def split: option.split)

lemma filter_id_simps [simp]:
  "List.map_filter (\<lambda>b. b) [] = []" "List.map_filter (\<lambda>b. b) (None # xs) = List.map_filter (\<lambda>b. b) xs"
  "List.map_filter (\<lambda>b. b) (Some i # xs) = i # List.map_filter (\<lambda>b. b) xs"
  by (simp_all add: List.map_filter_def)

text \<open>
  What resolving one breakpoint may do to LLDB: keep everything and give the breakpoint none, its old or
  a new id.
\<close>

definition arms :: "'l lldb_api \<Rightarrow> ('l \<Rightarrow> int) \<Rightarrow> (ocl_breakpoint \<Rightarrow> 'l \<Rightarrow> bool \<times> ocl_breakpoint \<times> 'l \<times> string) \<Rightarrow> bool" where
  "arms A nid r \<longleftrightarrow> (\<forall>bp l ok bp' l' out. r bp l = (ok, bp', l', out) \<and> \<not> bp_resolved bp \<longrightarrow>
     nid l \<le> nid l' \<and> (\<forall>i. api_has A l i \<longrightarrow> api_has A l' i) \<and> (bp_resolved bp' \<longrightarrow> bp_sb bp' \<noteq> None)
     \<and> same_program A l l' \<and> (bp_sb bp' = None \<or> bp_sb bp' = bp_sb bp
        \<or> (\<exists>i. bp_sb bp' = Some i \<and> nid l \<le> i \<and> i < nid l' \<and> api_has A l' i)))"

lemma arms_resolve_one: "lawful_lldb A nid \<Longrightarrow> arms A nid (resolve_one_breakpoint A m dm silent)"
  unfolding arms_def
proof (intro allI impI)
  fix bp l ok bp' l' out
  assume law: "lawful_lldb A nid" and r: "resolve_one_breakpoint A m dm silent bp l = (ok, bp', l', out) \<and> \<not> bp_resolved bp"
  have c: "creates A nid l (api_by_address A a l)" for a using law by (simp add: lawful_lldb_def)
  have "(l' = l \<and> bp' = bp) \<or> (\<exists>a. api_by_address A a l = (bp_sb bp', l')) \<and> (bp_resolved bp' \<longrightarrow> bp_sb bp' \<noteq> None)"
    using r by (auto simp: resolve_one_breakpoint_def Let_def sb_valid_def split: list.splits prod.splits if_splits option.splits)
  then show "nid l \<le> nid l' \<and> (\<forall>i. api_has A l i \<longrightarrow> api_has A l' i) \<and> (bp_resolved bp' \<longrightarrow> bp_sb bp' \<noteq> None)
     \<and> same_program A l l' \<and> (bp_sb bp' = None \<or> bp_sb bp' = bp_sb bp
        \<or> (\<exists>i. bp_sb bp' = Some i \<and> nid l \<le> i \<and> i < nid l' \<and> api_has A l' i))"
  proof
    assume "l' = l \<and> bp' = bp"
    with r show ?thesis by (simp add: same_program_def)
  next
    assume "(\<exists>a. api_by_address A a l = (bp_sb bp', l')) \<and> (bp_resolved bp' \<longrightarrow> bp_sb bp' \<noteq> None)"
    then obtain a where a: "api_by_address A a l = (bp_sb bp', l')" "bp_resolved bp' \<longrightarrow> bp_sb bp' \<noteq> None" by blast
    have "creates A nid l (bp_sb bp', l')" using c [of a] by (simp add: a(1))
    with a(2) show ?thesis by (cases "bp_sb bp'") (auto simp: creates_def)
  qed
qed

lemma arms_resolve_host: "lawful_lldb A nid \<Longrightarrow> arms A nid (resolve_host_breakpoint A silent)"
  unfolding arms_def
proof (intro allI impI)
  fix bp l ok bp' l' out
  assume law: "lawful_lldb A nid" and r: "resolve_host_breakpoint A silent bp l = (ok, bp', l', out) \<and> \<not> bp_resolved bp"
  let ?c = "api_by_location A (bp_file bp) (bp_line bp) l"
  have c: "creates A nid l ?c" using law by (simp add: lawful_lldb_def)
  have "l' = snd ?c \<and> (bp' = bp \<or> bp_sb bp' = fst ?c \<and> fst ?c \<noteq> None)"
    using r by (auto simp: resolve_host_breakpoint_def Let_def sb_valid_def split: prod.splits if_splits option.splits)
  with r c show "nid l \<le> nid l' \<and> (\<forall>i. api_has A l i \<longrightarrow> api_has A l' i) \<and> (bp_resolved bp' \<longrightarrow> bp_sb bp' \<noteq> None)
     \<and> same_program A l l' \<and> (bp_sb bp' = None \<or> bp_sb bp' = bp_sb bp
        \<or> (\<exists>i. bp_sb bp' = Some i \<and> nid l \<le> i \<and> i < nid l' \<and> api_has A l' i))"
    by (auto simp: creates_def)
qed

text \<open>The handle of an entry; resolving the entry leaves it a handle that is its own.\<close>

abbreviation own_handle :: "ocl_breakpoint \<Rightarrow> int list" where
  "own_handle bp \<equiv> (case bp_sb bp of None \<Rightarrow> [] | Some i \<Rightarrow> [i])"

lemma arms_own_handle:
  assumes "arms A nid r" "r bp l = (ok, bp', l1, o1)" "\<not> bp_resolved bp"
    and "distinct (own_handle bp @ ids @ xs)" "\<forall>i \<in> set (own_handle bp @ ids @ xs). i < nid l" "set ys \<subseteq> set xs"
    and "\<forall>i \<in> set (own_handle bp @ ids @ ys). api_has A l i"
  shows "distinct (ids @ own_handle bp' @ xs) \<and> (\<forall>i \<in> set (ids @ own_handle bp' @ xs). i < nid l1)
    \<and> set (own_handle bp' @ ys) \<subseteq> set (own_handle bp' @ xs) \<and> (\<forall>i \<in> set (ids @ own_handle bp' @ ys). api_has A l1 i)"
proof -
  have a: "nid l \<le> nid l1" "\<And>i. api_has A l i \<Longrightarrow> api_has A l1 i"
    "bp_sb bp' = None \<or> bp_sb bp' = bp_sb bp \<or> (\<exists>i. bp_sb bp' = Some i \<and> nid l \<le> i \<and> i < nid l1 \<and> api_has A l1 i)"
    using assms(1-3) unfolding arms_def by blast+
  have new: "i \<notin> set (ids @ xs)" if "nid l \<le> i" for i
    using that assms(5) by (auto simp: not_less [symmetric])
  have lt: "\<forall>i \<in> set (ids @ xs). i < nid l1" using assms(5) a(1) by (auto intro: less_le_trans)
  have has: "\<forall>i \<in> set (ids @ ys). api_has A l1 i" using assms(7) a(2) by simp
  consider "bp_sb bp' = None" | i where "bp_sb bp' = Some i" "bp_sb bp = Some i"
    | i where "bp_sb bp' = Some i" "nid l \<le> i" "i < nid l1" "api_has A l1 i"
    using a(3) by (cases "bp_sb bp'") auto
  then show ?thesis
  proof cases
    case 1
    with lt has assms(4,6) show ?thesis by (auto split: option.splits)
  next
    case (2 i)
    with assms(4,5,7) a(1,2) have "i < nid l1" "api_has A l1 i" "i \<notin> set (ids @ xs)" by (auto split: option.splits)
    with 2 lt has assms(4,6) show ?thesis by (auto split: option.splits)
  next
    case (3 i)
    with new [of i] lt has assms(4,6) show ?thesis by (auto split: option.splits)
  qed
qed

lemma resolve_each_armed:
  assumes "arms A nid r"
  shows "distinct (table_ids bps @ xs) \<Longrightarrow> (\<forall>i \<in> set (table_ids bps @ xs). i < nid l) \<Longrightarrow> set ys \<subseteq> set xs
    \<Longrightarrow> (\<forall>i \<in> set (table_ids bps @ ys). api_has A l i) \<Longrightarrow> (\<forall>bp \<in> set bps. bp_resolved bp \<longrightarrow> bp_sb bp \<noteq> None)
    \<Longrightarrow> resolve_each kind r bps l = (any, bps', l', out)
    \<Longrightarrow> distinct (table_ids bps' @ xs) \<and> (\<forall>i \<in> set (table_ids bps' @ xs). i < nid l')
      \<and> (\<forall>i \<in> set (table_ids bps' @ ys). api_has A l' i) \<and> (\<forall>bp \<in> set bps'. bp_resolved bp \<longrightarrow> bp_sb bp \<noteq> None)
      \<and> same_program A l l' \<and> nid l \<le> nid l'"
proof (induction bps arbitrary: l any bps' out xs ys)
  case (Cons bp bps)
  show ?case
  proof (cases "bp_resolved bp \<or> \<not> kind bp")
    case True
    with Cons.prems(6) obtain a2 bps2 o2 where rest: "resolve_each kind r bps l = (a2, bps2, l', o2)" "bps' = bp # bps2"
      by (auto split: prod.splits)
    from Cons.IH [OF _ _ _ _ _ rest(1), of "own_handle bp @ xs" "own_handle bp @ ys"] Cons.prems(1-5) rest(2) show ?thesis
      by (auto split: option.splits)
  next
    case False
    obtain ok bp' l1 o1 where r: "r bp l = (ok, bp', l1, o1)" by (metis prod_cases4)
    with False Cons.prems(6) obtain a2 bps2 o2 where rest: "resolve_each kind r bps l1 = (a2, bps2, l', o2)" "bps' = bp' # bps2"
      by (auto split: prod.splits)
    have a: "nid l \<le> nid l1" "\<And>i. api_has A l i \<Longrightarrow> api_has A l1 i" "bp_resolved bp' \<longrightarrow> bp_sb bp' \<noteq> None" "same_program A l l1"
      using assms r False unfolding arms_def by blast+
    have own: "distinct (table_ids bps @ own_handle bp' @ xs) \<and> (\<forall>i \<in> set (table_ids bps @ own_handle bp' @ xs). i < nid l1)
      \<and> set (own_handle bp' @ ys) \<subseteq> set (own_handle bp' @ xs) \<and> (\<forall>i \<in> set (table_ids bps @ own_handle bp' @ ys). api_has A l1 i)"
      by (rule arms_own_handle [OF assms r]) (use Cons.prems(1-4) False in simp_all)
    from Cons.IH [OF own [THEN conjunct1] own [THEN conjunct2, THEN conjunct1] own [THEN conjunct2, THEN conjunct2, THEN conjunct1]
      own [THEN conjunct2, THEN conjunct2, THEN conjunct2] _ rest(1)] Cons.prems(5) a rest(2) show ?thesis
      by (auto simp: same_program_def split: option.splits)
  qed
qed (simp add: same_program_def)

lemma armed_stage:
  assumes "armed A nid s" "db_target s" "arms A nid r"
  shows "armed A nid (put_breakpoints (snd (resolve_each kind r (db_breakpoints s) (db_lldb s))) s)"
    and "same_program A (db_lldb s) (db_lldb (put_breakpoints (snd (resolve_each kind r (db_breakpoints s) (db_lldb s))) s))"
proof -
  obtain any bps l out where e: "resolve_each kind r (db_breakpoints s) (db_lldb s) = (any, bps, l, out)"
    by (metis prod_cases4)
  have "distinct (table_ids (db_breakpoints s) @ internal_ids s)" "set [] \<subseteq> set (internal_ids s)"
    "\<forall>i \<in> set (table_ids (db_breakpoints s) @ internal_ids s). i < nid (db_lldb s)"
    "\<forall>i \<in> set (table_ids (db_breakpoints s) @ []). api_has A (db_lldb s) i"
    "\<forall>bp \<in> set (db_breakpoints s). bp_resolved bp \<longrightarrow> bp_sb bp \<noteq> None"
    using assms(1) by (simp_all add: armed_def held_ids_def)
  note kept = resolve_each_armed [OF assms(3) this(1,3,2,4,5) e]
  show "armed A nid (put_breakpoints (snd (resolve_each kind r (db_breakpoints s) (db_lldb s))) s)"
    using kept assms(2) by (simp add: e armed_def held_ids_def internal_ids_def debugger_frame)
  show "same_program A (db_lldb s) (db_lldb (put_breakpoints (snd (resolve_each kind r (db_breakpoints s) (db_lldb s))) s))"
    using kept by (simp add: e debugger_frame)
qed

lemma armed_frame:
  assumes "armed A nid s" "db_breakpoints s' = db_breakpoints s" "internal_ids s' = internal_ids s" "db_lldb s' = db_lldb s"
    "db_target s \<Longrightarrow> db_target s'"
  shows "armed A nid s'"
  using assms by (auto simp: armed_def held_ids_def)

lemma armed_use_target: "armed A nid s \<Longrightarrow> armed A nid (use_target A s)"
  by (erule armed_frame) (simp_all add: internal_ids_def debugger_frame, simp add: use_target_def)

lemma armed_load_dwarf: "armed A nid s \<Longrightarrow> armed A nid (snd (load_kernel_dwarf A s))"
  by (erule armed_frame) (simp_all add: internal_ids_def debugger_frame)

lemma armed_resolve_pending:
  assumes "lawful_lldb A nid" "armed A nid s"
  shows "armed A nid (snd (resolve_pending_ocl_breakpoints A s))"
proof (cases "db_target (use_target A s)")
  case True
  have 1: "armed A nid (after_host A s)"
    unfolding after_host_def Let_def
    using armed_stage(1) [OF armed_use_target [OF assms(2)] True arms_resolve_host [OF assms(1)]] .
  have 2: "armed A nid (after_dwarf A (after_host A s))"
    using 1 armed_load_dwarf [OF 1] by (simp add: after_dwarf_def)
  have t: "db_target (after_dwarf A (after_host A s))" using True by (simp add: debugger_frame)
  have "armed A nid (after_kernel A m (after_dwarf A (after_host A s)))" for m
    unfolding after_kernel_def using armed_stage(1) [OF 2 t arms_resolve_one [OF assms(1)]] .
  with 2 show ?thesis by (simp add: resolve_pending_state True Let_def split: option.split)
next
  case False
  with armed_use_target [OF assms(2)] show ?thesis by (simp add: resolve_pending_state)
qed

text \<open>One of the internal breakpoints is created anew.\<close>

lemma armed_create:
  assumes "armed A nid s" "creates A nid (db_lldb s) (sb, l)" "db_breakpoints s' = db_breakpoints s" "db_lldb s' = l"
    and "db_target s \<Longrightarrow> db_target s'"
    and "distinct (internal_ids s')" "set (internal_ids s') \<subseteq> set (internal_ids s) \<union> set_option sb"
  shows "armed A nid s'"
proof -
  have n: "nid (db_lldb s) \<le> nid l" "\<And>i. api_has A (db_lldb s) i \<Longrightarrow> api_has A l i"
    "\<And>i. sb = Some i \<Longrightarrow> nid (db_lldb s) \<le> i \<and> i < nid l"
    using assms(2) by (auto simp: creates_def)
  have old: "distinct (table_ids (db_breakpoints s) @ internal_ids s)" "\<forall>i \<in> set (table_ids (db_breakpoints s) @ internal_ids s). i < nid (db_lldb s)"
    using assms(1) by (simp_all add: armed_def held_ids_def)
  have "i < nid l \<and> i \<notin> set (table_ids (db_breakpoints s))" if "i \<in> set (internal_ids s')" for i
  proof (cases "sb = Some i")
    case True
    with n(3) old(2) show ?thesis by (auto simp: not_less [symmetric])
  next
    case False
    with that assms(7) have "i \<in> set (internal_ids s)" by (cases sb) auto
    with old n(1) show ?thesis by (auto intro: less_le_trans)
  qed
  with assms(1,3,4,5,6) n(1,2) show ?thesis
    by (auto simp: armed_def held_ids_def intro: less_le_trans)
qed

lemma internal_ids_subset:
  "distinct (internal_ids s) \<Longrightarrow> distinct (List.map_filter (\<lambda>b. b) [db_line s, db_trampoline s])"
  "distinct (internal_ids s) \<Longrightarrow> distinct (List.map_filter (\<lambda>b. b) [db_wg s, db_trampoline s])"
  "distinct (internal_ids s) \<Longrightarrow> distinct (List.map_filter (\<lambda>b. b) [db_wg s, db_line s])"
  by (cases "db_wg s"; cases "db_line s"; cases "db_trampoline s"; simp add: internal_ids_def)+

text \<open>The handle of one internal breakpoint is replaced by a new one or by none.\<close>

lemma armed_new_handle:
  assumes "armed A nid s" "creates A nid (db_lldb s) (sb, l)" "db_breakpoints s' = db_breakpoints s" "db_lldb s' = l"
    and "db_target s \<Longrightarrow> db_target s'"
    and "(db_wg s', db_line s', db_trampoline s') \<in> {(sb, db_line s, db_trampoline s), (db_wg s, sb, db_trampoline s), (db_wg s, db_line s, sb)}"
  shows "armed A nid s'"
proof (rule armed_create [OF assms(1-5)])
  have d: "distinct (internal_ids s)" and lt: "\<forall>i \<in> set (internal_ids s). i < nid (db_lldb s)"
    using assms(1) by (simp_all add: armed_def held_ids_def)
  have new: "\<forall>i. sb = Some i \<longrightarrow> i \<notin> set (internal_ids s)"
    using assms(2) lt by (auto simp: creates_def not_less [symmetric])
  show "distinct (internal_ids s')"
    using assms(6) internal_ids_subset [OF d] new
    by (cases sb; cases "db_wg s"; cases "db_line s"; cases "db_trampoline s"; auto simp: internal_ids_def)
  show "set (internal_ids s') \<subseteq> set (internal_ids s) \<union> set_option sb"
    using assms(6) by (cases sb; cases "db_wg s"; cases "db_line s"; cases "db_trampoline s"; auto simp: internal_ids_def)
qed

lemma armed_ensure_trampoline:
  assumes "lawful_lldb A nid" "armed A nid s"
  shows "armed A nid (ensure_ocl_trampoline A s)"
proof -
  obtain sb l where r: "api_by_regex A True ''.*_workgroup'' (db_lldb (use_target A s)) = (sb, l)" by fastforce
  with assms(1) have c: "creates A nid (db_lldb (use_target A s)) (sb, l)" by (metis lawful_lldb_def)
  have "armed A nid ((use_target A s)\<lparr>db_trampoline := sb, db_lldb := l\<rparr>)"
    by (rule armed_new_handle [OF armed_use_target [OF assms(2)] c]) simp_all
  with armed_use_target [OF assms(2)] r show ?thesis by (simp add: ensure_ocl_trampoline_def Let_def)
qed

lemma armed_dispatch:
  assumes "lawful_lldb A nid" "armed A nid s"
  shows "armed A nid (snd (dispatch_breakpoint A s))"
proof (cases "find_pocl_dispatch_address A (db_lldb s)")
  case (Some addr)
  obtain sb l where r: "api_by_address A addr (db_lldb s) = (sb, l)" by fastforce
  with assms(1) have c: "creates A nid (db_lldb s) (sb, l)" by (metis lawful_lldb_def)
  have "armed A nid (s\<lparr>db_lldb := l, db_wg := sb\<rparr>)" by (rule armed_new_handle [OF assms(2) c]) simp_all
  with Some r show ?thesis by (simp add: dispatch_breakpoint_def)
qed (use assms in \<open>simp add: dispatch_breakpoint_def\<close>)

lemma armed_symbol:
  assumes "lawful_lldb A nid" "armed A nid s"
  shows "armed A nid (snd (symbol_breakpoint A s))"
proof -
  let ?r = "if db_kernel_name s \<noteq> [] then api_by_name A False (''_pocl_kernel_'' @ db_kernel_name s @ ''_workgroup'') (db_lldb s)
    else api_by_regex A False ''_pocl_kernel_.*_workgroup'' (db_lldb s)"
  obtain sb l where r: "?r = (sb, l)" by fastforce
  have "creates A nid (db_lldb s) ?r" using assms(1) by (simp add: lawful_lldb_def)
  then have c: "creates A nid (db_lldb s) (sb, l)" unfolding r .
  have "armed A nid (s\<lparr>db_lldb := l, db_wg := sb\<rparr>)" by (rule armed_new_handle [OF assms(2) c]) simp_all
  then show ?thesis unfolding symbol_breakpoint_def r by simp
qed

text \<open>Deleting an id that is not one of the table's.\<close>

lemma armed_delete:
  assumes "lawful_lldb A nid" "armed A nid s" "i \<notin> set (table_ids (db_breakpoints s))"
  shows "armed A nid (s\<lparr>db_lldb := api_delete A i (db_lldb s)\<rparr>)"
proof -
  have "nid (api_delete A i (db_lldb s)) = nid (db_lldb s)" "api_has A (api_delete A i (db_lldb s)) j \<longleftrightarrow> api_has A (db_lldb s) j \<and> j \<noteq> i" for j
    using assms(1) by (simp_all add: lawful_lldb_def)
  with assms(2,3) show ?thesis by (auto simp: armed_def held_ids_def internal_ids_def)
qed

lemma armed_delete_workgroup:
  assumes "lawful_lldb A nid" "armed A nid s"
  shows "armed A nid (delete_workgroup_breakpoint A s)"
proof (cases "db_wg s")
  case (Some i)
  have "i \<notin> set (table_ids (db_breakpoints s))" using assms(2) Some by (auto simp: armed_def held_ids_def internal_ids_def)
  from armed_delete [OF assms this] Some assms(2) show ?thesis
    by (simp add: delete_workgroup_breakpoint_def sb_delete_def)
qed (use assms in \<open>simp add: delete_workgroup_breakpoint_def sb_valid_def\<close>)

lemma armed_set_workgroup:
  assumes "lawful_lldb A nid" "armed A nid s"
  shows "armed A nid (snd (set_workgroup_breakpoint A n s))"
proof -
  have "armed A nid (s\<lparr>db_kernel_name := n\<rparr>)" by (rule armed_frame [OF assms(2)]) (simp_all add: internal_ids_def)
  then have "armed A nid (if n \<noteq> [] then s\<lparr>db_kernel_name := n\<rparr> else s)" using assms(2) by simp
  note 1 = armed_dispatch [OF assms(1) armed_delete_workgroup [OF assms(1) this]]
  note 2 = armed_symbol [OF assms(1) 1]
  show ?thesis using 1 2 assms(2) by (simp add: set_workgroup_breakpoint_def Let_def split_beta)
qed

lemma armed_set_source:
  assumes "lawful_lldb A nid" "armed A nid s"
  shows "armed A nid (snd (set_source_breakpoint A n s))"
proof -
  let ?s = "snd (load_kernel_dwarf A s)"
  note armed = armed_load_dwarf [OF assms(2)]
  have "armed A nid (?s\<lparr>db_line := fst r, db_lldb := snd r\<rparr>)" if "r = api_by_address A a (db_lldb ?s)" for a r
  proof (rule armed_new_handle [OF armed])
    show "creates A nid (db_lldb ?s) (fst r, snd r)" using assms(1) that by (simp add: lawful_lldb_def)
  qed simp_all
  with armed show ?thesis by (simp add: set_source_breakpoint_def Let_def split_beta split: option.split list.split)
qed

lemma armed_runs:
  assumes "lawful_lldb A nid" "armed A nid s"
  shows "armed A nid (s\<lparr>db_lldb := snd (api_next A (db_lldb s))\<rparr>)"
proof -
  have n: "nid (db_lldb s) \<le> nid (snd (api_next A (db_lldb s)))" using assms(1) by (simp add: lawful_lldb_def)
  have has: "api_has A (snd (api_next A (db_lldb s))) j \<longleftrightarrow> api_has A (db_lldb s) j" for j
    using assms(1) by (simp add: lawful_lldb_def)
  have "\<forall>i \<in> set (held_ids s). i < nid (snd (api_next A (db_lldb s)))"
    using assms(2) n by (auto simp: armed_def intro: less_le_trans)
  with assms(2) show ?thesis by (simp add: armed_def has held_ids_def internal_ids_def)
qed

lemma armed_trampoline:
  assumes "lawful_lldb A nid" "armed A nid s"
  shows "armed A nid (trampoline_callback A t s)"
  by (rule armed_frame [OF armed_resolve_pending [OF assms]]) (simp_all add: internal_ids_def debugger_frame)

lemma armed_call: "lawful_lldb A nid \<Longrightarrow> armed A nid s \<Longrightarrow> armed A nid (call_debugger A c s)"
  by (cases c) (simp_all add: armed_resolve_pending armed_trampoline armed_ensure_trampoline armed_set_workgroup armed_set_source
      armed_load_dwarf armed_runs)

lemma armed_add:
  assumes "lawful_lldb A nid" "armed A nid s"
  shows "armed A nid (snd (add_ocl_breakpoint A f line s))"
proof -
  let ?s = "use_target A s"
  let ?t = "?s\<lparr>db_next_id := db_next_id ?s + 1, db_breakpoints := db_breakpoints ?s @
    [\<lparr>bp_id = db_next_id ?s, bp_file = f, bp_line = line, bp_resolved = False, bp_address = 0, bp_sb = None\<rparr>]\<rparr>"
  have "armed A nid ?t"
    using armed_use_target [OF assms(2)] by (simp add: armed_def held_ids_def internal_ids_def ball_Un)
  from armed_ensure_trampoline [OF assms(1) armed_resolve_pending [OF assms(1) this]] show ?thesis
    by (simp add: add_ocl_breakpoint_def Let_def)
qed

lemma erase_id_split:
  assumes "find (\<lambda>bp. bp_id bp = i) bps = Some bp"
  obtains xs ys where "bps = xs @ bp # ys" "erase_id i bps = xs @ ys" "bp_id bp = i"
  using assms
proof (induction bps arbitrary: thesis)
  case (Cons b bps)
  show ?case
  proof (cases "bp_id b = i")
    case True
    with Cons.prems(2) have "b # bps = [] @ bp # bps" "erase_id i (b # bps) = [] @ bps" "bp_id bp = i" by auto
    then show ?thesis by (rule Cons.prems(1))
  next
    case False
    with Cons.prems(2) have "find (\<lambda>bp. bp_id bp = i) bps = Some bp" by simp
    then obtain xs ys where "bps = xs @ bp # ys" "erase_id i bps = xs @ ys" "bp_id bp = i" using Cons.IH by blast
    then have "b # bps = (b # xs) @ bp # ys" "erase_id i (b # bps) = (b # xs) @ ys" "bp_id bp = i" using False by simp_all
    then show ?thesis by (rule Cons.prems(1))
  qed
qed simp

lemma delete_effect:
  assumes law: "lawful_lldb A nid" and armed: "armed A nid s"
    and f: "find (\<lambda>bp. bp_id bp = i) (db_breakpoints s) = Some bp"
  obtains xs ys l where "db_breakpoints s = xs @ bp # ys" "bp_id bp = i"
    "delete_ocl_breakpoint A i s = (True, s\<lparr>db_lldb := l, db_breakpoints := xs @ ys\<rparr>)"
    "l = (case bp_sb bp of None \<Rightarrow> db_lldb s | Some j \<Rightarrow> api_delete A j (db_lldb s))"
proof -
  from f obtain xs ys where xs: "db_breakpoints s = xs @ bp # ys" "erase_id i (db_breakpoints s) = xs @ ys" "bp_id bp = i"
    by (rule erase_id_split)
  have "sb_valid A (db_lldb s) (bp_sb bp) \<and> db_target s" if "bp_sb bp \<noteq> None"
    using armed that xs(1) by (auto simp: armed_def sb_valid_def split: option.split)
  then have "(if sb_valid A (db_lldb s) (bp_sb bp) \<and> db_target s then sb_delete A (bp_sb bp) (db_lldb s) else db_lldb s)
      = (case bp_sb bp of None \<Rightarrow> db_lldb s | Some j \<Rightarrow> api_delete A j (db_lldb s))"
    by (auto simp: sb_delete_def sb_valid_def split: option.split)
  with f xs that show thesis by (simp add: delete_ocl_breakpoint_def Let_def)
qed

lemma armed_without:
  assumes "armed A nid s" "db_breakpoints s = xs @ bp # ys"
  shows "armed A nid (s\<lparr>db_breakpoints := xs @ ys\<rparr>)" "\<And>j. bp_sb bp = Some j \<Longrightarrow> j \<notin> set (table_ids (xs @ ys)) \<union> set (internal_ids s)"
  using assms by (auto simp: armed_def held_ids_def internal_ids_def split: option.splits)

lemma armed_delete_ocl:
  assumes "lawful_lldb A nid" "armed A nid s"
  shows "armed A nid (snd (delete_ocl_breakpoint A i s))"
proof (cases "find (\<lambda>bp. bp_id bp = i) (db_breakpoints s)")
  case (Some bp)
  from delete_effect [OF assms Some] obtain xs ys l where d: "db_breakpoints s = xs @ bp # ys"
    "delete_ocl_breakpoint A i s = (True, s\<lparr>db_lldb := l, db_breakpoints := xs @ ys\<rparr>)"
    "l = (case bp_sb bp of None \<Rightarrow> db_lldb s | Some j \<Rightarrow> api_delete A j (db_lldb s))" by metis
  note w = armed_without [OF assms(2) d(1)]
  show ?thesis
  proof (cases "bp_sb bp")
    case None
    with w(1) d(2,3) show ?thesis by simp
  next
    case (Some j)
    from armed_delete [OF assms(1) w(1)] w(2) [OF Some] have "armed A nid (s\<lparr>db_breakpoints := xs @ ys, db_lldb := api_delete A j (db_lldb s)\<rparr>)"
      by simp
    then have "armed A nid (s\<lparr>db_lldb := l, db_breakpoints := xs @ ys\<rparr>)"
      by (rule armed_frame) (simp_all add: d(3) Some internal_ids_def)
    with d(2) show ?thesis by simp
  qed
qed (use assms in \<open>simp add: delete_ocl_breakpoint_def\<close>)

lemma armed_step: "lawful_lldb A nid \<Longrightarrow> armed A nid s \<Longrightarrow> armed A nid (table_step A c s)"
  by (cases c) (simp_all add: armed_add armed_delete_ocl armed_call)

lemma armed_run: "lawful_lldb A nid \<Longrightarrow> armed A nid s \<Longrightarrow> armed A nid (table_run A cs s)"
  by (induction cs arbitrary: s) (simp_all add: table_run_def armed_step)

lemma armed_new: "armed A nid (new_debugger abi l)"
  by (simp add: armed_def held_ids_def internal_ids_def new_debugger_def)

text \<open>
  C15.  The table stays armed: after any sequence of additions, deletions, resolutions, trampoline hits,
  internal breakpoints and runs of the debuggee, every resolved entry has an LLDB breakpoint, all the LLDB
  breakpoints of the entries still exist, and no two handles of the debugger, those of the internal
  breakpoints included, are the same LLDB breakpoint.
\<close>

theorem table_stays_armed:
  assumes "lawful_lldb A nid"
  shows "armed A nid (table_run A cs (new_debugger abi l))"
  using assms by (intro armed_run armed_new)

theorem table_stays_armed_witness:
  "armed (demo_api [] None) demo_next (table_run (demo_api [] None) [Add (''host.c'', 5), Other (Set_workgroup ''vadd''), Remove 1]
     (new_debugger None (demo_start [])))"
  by (rule table_stays_armed [OF demo_lawful])

text \<open>
  Deleting a breakpoint of an armed table deletes that breakpoint and nothing else: its entry goes,
  the others keep their order and contents, LLDB loses exactly the entry's breakpoint, and an id that is
  not in the table changes nothing.
\<close>

theorem delete_disarms:
  assumes "lawful_lldb A nid" and "armed A nid s" and "delete_ocl_breakpoint A i s = (ok, s')"
  shows "ok = (i \<in> bp_id ` set (db_breakpoints s)) \<and> (\<not> ok \<longrightarrow> s' = s)
    \<and> (ok \<longrightarrow> (\<exists>xs bp ys. bp_id bp = i \<and> db_breakpoints s = xs @ bp # ys \<and> db_breakpoints s' = xs @ ys
        \<and> (\<forall>j. api_has A (db_lldb s') j \<longleftrightarrow> api_has A (db_lldb s) j \<and> bp_sb bp \<noteq> Some j)))"
proof (cases "find (\<lambda>bp. bp_id bp = i) (db_breakpoints s)")
  case None
  with assms(3) show ?thesis by (auto simp: delete_ocl_breakpoint_def find_None_iff)
next
  case (Some bp)
  from delete_effect [OF assms(1,2) Some] obtain xs ys l where d: "db_breakpoints s = xs @ bp # ys" "bp_id bp = i"
    "delete_ocl_breakpoint A i s = (True, s\<lparr>db_lldb := l, db_breakpoints := xs @ ys\<rparr>)"
    "l = (case bp_sb bp of None \<Rightarrow> db_lldb s | Some j \<Rightarrow> api_delete A j (db_lldb s))" by metis
  have "\<forall>j. api_has A l j \<longleftrightarrow> api_has A (db_lldb s) j \<and> bp_sb bp \<noteq> Some j"
    using assms(1) by (auto simp: d(4) lawful_lldb_def split: option.split)
  with d(1-3) assms(3) show ?thesis by auto
qed

definition demo_debugger :: "demo_lldb debugger" where
  "demo_debugger = table_run (demo_api [] None) [Add (''host.c'', 5)] (new_debugger None (demo_start []))"

lemma demo_debugger_breakpoints:
  "db_breakpoints demo_debugger = [\<lparr>bp_id = 1, bp_file = ''host.c'', bp_line = 5, bp_resolved = True, bp_address = 0x400005, bp_sb = Some 1\<rparr>]"
  by (simp add: demo_debugger_def table_run_def add_ocl_breakpoint_def Let_def debugger_frame resolve_pending_state after_host_def
      after_dwarf_def load_kernel_dwarf_def dwarf_load_def find_kernel_module_def use_target_def new_debugger_def demo_api_def demo_start_def
      demo_create_def resolve_host_breakpoint_def is_kernel_breakpoint_def ends_with_def sb_valid_def sb_locations_def unloaded_dwarf_def)

theorem delete_disarms_witness:
  "\<exists>s'. delete_ocl_breakpoint (demo_api [] None) 1 demo_debugger = (True, s') \<and> db_breakpoints s' = []
     \<and> api_has (demo_api [] None) (db_lldb demo_debugger) 1 \<and> \<not> api_has (demo_api [] None) (db_lldb s') 1"
proof -
  obtain ok s' where d: "delete_ocl_breakpoint (demo_api [] None) 1 demo_debugger = (ok, s')" by fastforce
  have armed: "armed (demo_api [] None) demo_next demo_debugger"
    unfolding demo_debugger_def by (intro armed_run armed_new demo_lawful)
  then have "api_has (demo_api [] None) (db_lldb demo_debugger) 1" by (simp add: armed_def demo_debugger_breakpoints)
  moreover have "ok \<and> db_breakpoints s' = [] \<and> \<not> api_has (demo_api [] None) (db_lldb s') 1"
    using delete_disarms [OF demo_lawful armed d] by (auto simp: demo_debugger_breakpoints Cons_eq_append_conv)
  ultimately show ?thesis using d by (intro exI [of _ s']) simp
qed

section \<open>Where breakpoints are put\<close>

text \<open>What resolving a kernel breakpoint leaves.\<close>

definition at_first_address :: "dwarf_model \<Rightarrow> lldb_module \<Rightarrow> ocl_breakpoint \<Rightarrow> ocl_breakpoint \<Rightarrow> bool" where
  "at_first_address dm m bp bp' \<longleftrightarrow>
     (case source_to_pcs dm \<lparr>loc_file = bp_file bp, loc_line = bp_line bp\<rparr> of
        [] \<Rightarrow> False
      | pc # _ \<Rightarrow> bp_address bp' = mod_load_address m pc \<and> bp_address bp' \<noteq> invalid_address
          \<and> bp_line bp' = (if loc_line (pc_to_source dm pc) > 0 then loc_line (pc_to_source dm pc) else bp_line bp))"

lemma resolve_one_at_first_address:
  assumes "resolve_one_breakpoint A m dm silent bp l = (ok, bp', l', out)" "\<not> bp_resolved bp"
  shows "ok = bp_resolved bp'" "bp_resolved bp' \<Longrightarrow> at_first_address dm m bp bp'"
  using assms by (auto simp: resolve_one_breakpoint_def at_first_address_def Let_def split: list.splits prod.splits if_splits)

text \<open>The line has code, and the module it is in is loaded.\<close>

definition resolvable :: "dwarf_model \<Rightarrow> lldb_module \<Rightarrow> ocl_breakpoint \<Rightarrow> bool" where
  "resolvable dm m bp \<longleftrightarrow> (case source_to_pcs dm \<lparr>loc_file = bp_file bp, loc_line = bp_line bp\<rparr> of
     [] \<Rightarrow> False | pc # _ \<Rightarrow> mod_load_address m pc \<noteq> invalid_address)"

lemma resolve_one_complete:
  assumes "arms_addresses A" "resolve_one_breakpoint A m dm silent bp l = (ok, bp', l', out)" "\<not> bp_resolved bp"
  shows "bp_resolved bp' \<longleftrightarrow> resolvable dm m bp"
proof (cases "resolvable dm m bp")
  case True
  then obtain pc pcs where pcs: "source_to_pcs dm \<lparr>loc_file = bp_file bp, loc_line = bp_line bp\<rparr> = pc # pcs"
    "mod_load_address m pc \<noteq> invalid_address" by (auto simp: resolvable_def split: list.splits)
  obtain i l1 where i: "api_by_address A (mod_load_address m pc) l = (Some i, l1)" "api_has A l1 i"
    "api_locations A l1 i = [mod_load_address m pc]" using assms(1) unfolding arms_addresses_def by metis
  with assms(2,3) pcs True show ?thesis
    by (auto simp: resolve_one_breakpoint_def Let_def sb_valid_def sb_locations_def split: if_splits)
next
  case False
  with assms(2,3) show ?thesis
    by (auto simp: resolve_one_breakpoint_def resolvable_def Let_def split: list.splits if_splits prod.splits)
qed

lemma after_host_modules:
  assumes "lawful_lldb A nid" "armed A nid s" "db_target (use_target A s)"
  shows "api_modules A (db_lldb (after_host A s)) = api_modules A (db_lldb s)"
  using armed_stage(2) [OF armed_use_target [OF assms(2)] assms(3) arms_resolve_host [OF assms(1)]]
  by (simp add: after_host_def Let_def same_program_def use_target_frame)

lemma after_host_kernel: "list_all2 (\<lambda>bp bp'. is_kernel_breakpoint bp \<longrightarrow> bp' = bp) (db_breakpoints s) (db_breakpoints (after_host A s))"
  unfolding after_host_def Let_def debugger_frame by (rule resolve_each_all2) simp_all

definition resolved_well :: "dwarf_model \<Rightarrow> lldb_module \<Rightarrow> ocl_breakpoint \<Rightarrow> ocl_breakpoint \<Rightarrow> bool" where
  "resolved_well dm m bp bp' \<longleftrightarrow> (if bp_resolved bp then bp' = bp
     else bp_resolved bp' = resolvable dm m bp \<and> (bp_resolved bp' \<longrightarrow> at_first_address dm m bp bp'))"

lemma resolve_each_kind:
  assumes "\<And>bp l. \<not> bp_resolved bp \<Longrightarrow> R bp (fst (snd (r bp l)))" "\<And>bp. bp_resolved bp \<Longrightarrow> R bp bp"
  shows "list_all2 (\<lambda>bp bp'. kind bp \<longrightarrow> R bp bp') bps (fst (snd (resolve_each kind r bps l)))"
proof (induction bps arbitrary: l)
  case (Cons bp bps)
  show ?case
  proof (cases "bp_resolved bp \<or> \<not> kind bp")
    case True
    with Cons.IH [of l] assms(2) [of bp] show ?thesis by (cases "resolve_each kind r bps l") auto
  next
    case False
    obtain ok bp' l1 o1 where r: "r bp l = (ok, bp', l1, o1)" by (metis prod_cases4)
    with Cons.IH [of l1] assms(1) [of bp l] False show ?thesis by (cases "resolve_each kind r bps l1") auto
  qed
qed simp

lemma after_kernel_resolved:
  assumes "arms_addresses A"
  shows "list_all2 (\<lambda>bp bp'. is_kernel_breakpoint bp \<longrightarrow> resolved_well (db_dwarf s) m bp bp') (db_breakpoints s) (db_breakpoints (after_kernel A m s))"
  unfolding after_kernel_def debugger_frame
proof (rule resolve_each_kind)
  fix bp :: ocl_breakpoint and l
  assume "\<not> bp_resolved bp"
  obtain ok bp' l1 o1 where r: "resolve_one_breakpoint A m (db_dwarf s) (db_redirect_stderr s) bp l = (ok, bp', l1, o1)"
    by (metis prod_cases4)
  from resolve_one_complete [OF assms r \<open>\<not> bp_resolved bp\<close>] resolve_one_at_first_address(2) [OF r \<open>\<not> bp_resolved bp\<close>]
  show "resolved_well (db_dwarf s) m bp (fst (snd (resolve_one_breakpoint A m (db_dwarf s) (db_redirect_stderr s) bp l)))"
    using \<open>\<not> bp_resolved bp\<close> by (simp add: resolved_well_def r)
qed (simp add: resolved_well_def)


lemma resolve_pending_keeps:
  "dm_loaded (db_dwarf s) \<Longrightarrow> db_dwarf (snd (resolve_pending_ocl_breakpoints A s)) = db_dwarf s"
  "db_target s \<Longrightarrow> db_target (snd (resolve_pending_ocl_breakpoints A s))"
  by (simp_all add: resolve_pending_state Let_def debugger_frame after_dwarf_def use_target_def split: option.split)

definition demo_module :: lldb_module where
  "demo_module = \<lparr>mod_filename = Some ''vadd.so'', mod_path = ''/tmp/vadd.so'', mod_load_address = (\<lambda>a. a + 0x1000),
     mod_header_address = 0x1000\<rparr>"

definition pending_debugger :: "demo_lldb debugger" where
  "pending_debugger = (new_debugger None (demo_start []))\<lparr>db_target := True, db_dwarf := demo_model, db_breakpoints :=
     [\<lparr>bp_id = 1, bp_file = ''vadd.cl'', bp_line = 13, bp_resolved = False, bp_address = 0, bp_sb = None\<rparr>]\<rparr>"

lemma demo_kernel_module: "find_kernel_module (demo_api [demo_module] dwarf) d kn = Some demo_module"
  by (simp add: find_kernel_module_def demo_api_def demo_module_def is_kernel_module_name_def ends_with_def starts_with_def)


section \<open>The dispatch call\<close>

lemma search_first:
  "search xs p = Some n \<longleftrightarrow> n \<le> length xs \<and> take (length p) (drop n xs) = p \<and> (\<forall>k < n. take (length p) (drop k xs) \<noteq> p)"
proof (induction xs arbitrary: n)
  case Nil
  then show ?case by auto
next
  case (Cons x xs)
  show ?case
  proof (cases "take (length p) (x # xs) = p")
    case True
    then show ?thesis by (cases n) (auto intro: exI [of _ 0])
  next
    case False
    then have "search (x # xs) p = Some n \<longleftrightarrow> (\<exists>k. n = Suc k \<and> search xs p = Some k)" by auto
    then show ?thesis
      using False by (cases n) (auto simp: Cons.IH All_less_Suc2)
  qed
qed

lemma search_none: "search xs p = None \<longleftrightarrow> (\<forall>k \<le> length xs. take (length p) (drop k xs) \<noteq> p)"
proof (induction xs)
  case (Cons x xs)
  have "(\<forall>k \<le> length (x # xs). take (length p) (drop k (x # xs)) \<noteq> p)
      \<longleftrightarrow> take (length p) (x # xs) \<noteq> p \<and> (\<forall>k \<le> length xs. take (length p) (drop k xs) \<noteq> p)"
    by (simp add: less_Suc_eq_le [symmetric] All_less_Suc2)
  with Cons show ?case by auto
qed auto

end
