(* ===== verification/RunControl.thy ===== *)
theory RunControl
  imports BreakpointTable
begin

text \<open>
  Running the debuggee: \<^verbatim>\<open>continue_execution\<close> of \<^verbatim>\<open>ocldbg/DebuggerContext.cpp\<close> with what happens
  inside \<^verbatim>\<open>SBProcess::Continue\<close>, the callback of the trampoline breakpoint included.  The debuggee need
  not stop, so the loops take fuel; running out of it is \<open>None\<close>.
\<close>

section \<open>The loop\<close>

fun process_continue :: "'l lldb_api \<Rightarrow> nat \<Rightarrow> 'l debugger \<Rightarrow> 'l debugger option" where
  "process_continue A 0 s = None"
| "process_continue A (Suc n) s =
     (case api_next A (db_lldb s) of (ev, l) \<Rightarrow>
        let s1 = s\<lparr>db_lldb := l\<rparr> in
        (case ev of
           Halted \<Rightarrow> Some s1
         | Callback i t \<Rightarrow> process_continue A n (if db_trampoline s1 = Some i then trampoline_callback A t s1 else s1)))"

definition user_breakpoint_ids :: "'l lldb_api \<Rightarrow> 'l debugger \<Rightarrow> int set" where
  "user_breakpoint_ids A s = {i \<in> set (table_ids (db_breakpoints s)). api_has A (db_lldb s) i}"

definition set_items :: "item_state \<Rightarrow> 'l debugger \<Rightarrow> 'l debugger" where
  "set_items i s = s\<lparr>db_items := i\<rparr>"

definition record_stop :: "'l lldb_api \<Rightarrow> 'l debugger \<Rightarrow> 'l debugger" where
  "record_stop A s = set_items ((db_items s)\<lparr>is_tracker := record_stopped_workgroups (api_process A (db_lldb s))
     (is_abi (db_items s)) (is_tracker (db_items s))\<rparr>) s"

definition note_launch :: "'l lldb_api \<Rightarrow> 'l debugger \<Rightarrow> 'l debugger" where
  "note_launch A s =
     (if is_launch_info (db_items s) = None \<and> check_enqueue_ndrange (api_process A (db_lldb s)) (is_abi (db_items s)) then
        let (ok, name, items) = infer_kernel_launch (api_process A (db_lldb s)) (db_kernel_name s) (db_items s);
            s1 = (set_items items s)\<lparr>db_kernel_name := name\<rparr>;
            s2 = (if name \<noteq> [] then snd (set_workgroup_breakpoint A name s1) else s1)
        in ensure_ocl_trampoline A s2
      else s)"

text \<open>
  The body of the loop after \<^verbatim>\<open>Continue\<close>: \<open>Some r\<close> is \<^verbatim>\<open>return r\<close>, \<open>None\<close> is the next iteration.
\<close>

definition continue_stop :: "'l lldb_api \<Rightarrow> 'l debugger \<Rightarrow> bool option \<times> 'l debugger" where
  "continue_stop A s =
     (if pr_state (api_process A (db_lldb s)) \<in> {State_exited, State_crashed} then (Some False, s)
      else if pr_state (api_process A (db_lldb s)) \<noteq> State_stopped then (None, s)
      else
        let s1 = snd (resolve_pending_ocl_breakpoints A (note_launch A (record_stop A s))) in
        if check_user_stop (api_process A (db_lldb s1)) (user_breakpoint_ids A s1) then
          let (wis, items) = list_stopped_work_items (db_target s1) (api_process A (db_lldb s1)) (db_items s1)
          in (if wis \<noteq> [] then Some True else None, set_items items s1)
        else (None, s1))"

fun continue_loop :: "'l lldb_api \<Rightarrow> nat \<Rightarrow> 'l debugger \<Rightarrow> (bool \<times> 'l debugger) option" where
  "continue_loop A 0 s = None"
| "continue_loop A (Suc n) s =
     (case process_continue A n s of
        None \<Rightarrow> None
      | Some s1 \<Rightarrow> (case continue_stop A s1 of (Some r, s2) \<Rightarrow> Some (r, s2) | (None, s2) \<Rightarrow> continue_loop A n s2))"

definition continue_execution :: "'l lldb_api \<Rightarrow> nat \<Rightarrow> 'l debugger \<Rightarrow> (bool \<times> 'l debugger) option" where
  "continue_execution A n s0 =
     (let s = use_target A s0 in
      if \<not> db_target s then Some (False, s)
      else let s1 = s\<lparr>db_process := True\<rparr> in
        if \<not> pr_valid (api_process A (db_lldb s1)) then Some (False, s1)
        else continue_loop A n (ensure_ocl_trampoline A s1))"

section \<open>What the operations do to LLDB\<close>

text \<open>\<open>edits A l l'\<close>: from \<open>l\<close> to \<open>l'\<close> only breakpoints were created and deleted.\<close>

inductive edits :: "'l lldb_api \<Rightarrow> 'l \<Rightarrow> 'l \<Rightarrow> bool" for A where
  edits_refl: "edits A l l"
| edits_location: "edits A l l' \<Longrightarrow> edits A l (snd (api_by_location A f line l'))"
| edits_address: "edits A l l' \<Longrightarrow> edits A l (snd (api_by_address A a l'))"
| edits_name: "edits A l l' \<Longrightarrow> edits A l (snd (api_by_name A b n l'))"
| edits_regex: "edits A l l' \<Longrightarrow> edits A l (snd (api_by_regex A b n l'))"
| edits_delete: "edits A l l' \<Longrightarrow> edits A l (api_delete A i l')"

declare edits_refl [simp, intro]

lemma edits_trans: "edits A l1 l2 \<Longrightarrow> edits A l l1 \<Longrightarrow> edits A l l2"
  by (induction rule: edits.induct) (auto intro: edits.intros)

lemma edits_same_program:
  assumes "lawful_lldb A nid"
  shows "edits A l l' \<Longrightarrow> same_program A l l'"
proof (induction rule: edits.induct)
  case (edits_refl l)
  show ?case by (simp add: same_program_def)
qed (use assms in \<open>auto simp: lawful_lldb_def creates_def same_program_def\<close>)

lemma edits_resolve_one: "edits A l (fst (snd (snd (resolve_one_breakpoint A m dm silent bp l))))"
  by (auto simp: resolve_one_breakpoint_def Let_def split: list.split prod.split)
     (metis edits_refl edits_address snd_conv)+

lemma edits_resolve_host: "edits A l (fst (snd (snd (resolve_host_breakpoint A silent bp l))))"
  by (auto simp: resolve_host_breakpoint_def Let_def split: prod.split)
     (metis edits_refl edits_location snd_conv)+

lemma edits_resolve_each:
  assumes "\<And>bp l. edits A l (fst (snd (snd (r bp l))))"
  shows "edits A l (fst (snd (snd (resolve_each kind r bps l))))"
proof (induction bps arbitrary: l)
  case (Cons bp bps)
  show ?case
  proof (cases "bp_resolved bp \<or> \<not> kind bp")
    case True
    with Cons [of l] show ?thesis by (cases "resolve_each kind r bps l") auto
  next
    case False
    obtain ok bp' l1 o1 where r: "r bp l = (ok, bp', l1, o1)" by (metis prod_cases4)
    with assms [of l bp] have "edits A l l1" by simp
    with Cons [of l1] r False show ?thesis by (cases "resolve_each kind r bps l1") (auto intro: edits_trans)
  qed
qed simp

lemma edits_after_host: "edits A (db_lldb s) (db_lldb (after_host A s))"
  unfolding after_host_def Let_def debugger_frame by (rule edits_resolve_each) (rule edits_resolve_host)

lemma edits_after_kernel: "edits A (db_lldb s) (db_lldb (after_kernel A m s))"
  unfolding after_kernel_def debugger_frame by (rule edits_resolve_each) (rule edits_resolve_one)

lemma edits_resolve_pending: "edits A (db_lldb s) (db_lldb (snd (resolve_pending_ocl_breakpoints A s)))"
proof -
  have "edits A (db_lldb (after_dwarf A (after_host A s))) (db_lldb (after_kernel A m (after_dwarf A (after_host A s))))" for m
    by (rule edits_after_kernel)
  with edits_after_host [of A s] show ?thesis
    by (auto simp: resolve_pending_state Let_def debugger_frame intro: edits_trans split: option.split)
qed

lemma edits_trampoline_callback: "edits A (db_lldb s) (db_lldb (trampoline_callback A t s))"
  by (simp add: debugger_frame edits_resolve_pending)

lemma edits_ensure_trampoline: "edits A (db_lldb s) (db_lldb (ensure_ocl_trampoline A s))"
  by (auto simp: ensure_ocl_trampoline_def Let_def debugger_frame split_beta intro: edits.intros)

lemma edits_dispatch: "edits A (db_lldb s) (db_lldb (snd (dispatch_breakpoint A s)))"
  by (auto simp: dispatch_breakpoint_def split_beta intro: edits.intros split: option.split)

lemma edits_symbol: "edits A (db_lldb s) (db_lldb (snd (symbol_breakpoint A s)))"
  by (auto simp: symbol_breakpoint_def Let_def split_beta intro: edits.intros)

lemma edits_delete_workgroup: "edits A (db_lldb s) (db_lldb (delete_workgroup_breakpoint A s))"
  by (auto simp: delete_workgroup_breakpoint_def sb_delete_def intro: edits.intros split: option.split)

lemma edits_set_workgroup: "edits A (db_lldb s) (db_lldb (snd (set_workgroup_breakpoint A n s)))"
proof -
  let ?s1 = "if n \<noteq> [] then s\<lparr>db_kernel_name := n\<rparr> else s"
  have "edits A (db_lldb ?s1) (db_lldb (snd (dispatch_breakpoint A (delete_workgroup_breakpoint A ?s1))))"
    by (rule edits_trans [OF edits_dispatch edits_delete_workgroup])
  with edits_trans [OF edits_symbol this] show ?thesis
    by (auto simp: set_workgroup_breakpoint_def Let_def split_beta split: if_splits)
qed

lemma edits_note_launch: "edits A (db_lldb s) (db_lldb (note_launch A s))"
proof -
  obtain ok name items where i: "infer_kernel_launch (api_process A (db_lldb s)) (db_kernel_name s) (db_items s) = (ok, name, items)"
    by (metis prod_cases3)
  let ?s1 = "(set_items items s)\<lparr>db_kernel_name := name\<rparr>"
  have "db_lldb ?s1 = db_lldb s" by (simp add: set_items_def)
  then have "edits A (db_lldb s) (db_lldb (if name \<noteq> [] then snd (set_workgroup_breakpoint A name ?s1) else ?s1))"
    using edits_set_workgroup [of A ?s1 name] by simp
  from edits_trans [OF edits_ensure_trampoline this] show ?thesis by (simp add: note_launch_def i Let_def)
qed

lemma continue_stop_edits: "edits A (db_lldb s) (db_lldb (snd (continue_stop A s)))"
proof -
  have "edits A (db_lldb s) (db_lldb (snd (resolve_pending_ocl_breakpoints A (note_launch A (record_stop A s)))))"
    using edits_trans [OF edits_resolve_pending edits_note_launch, of A "record_stop A s"]
    by (simp add: record_stop_def set_items_def)
  then show ?thesis by (simp add: continue_stop_def Let_def set_items_def split_beta)
qed

section \<open>It stops only for the user\<close>

lemma continue_loop_stops:
  assumes "lawful_lldb A nid"
  shows "continue_loop A n s = Some (r, s') \<Longrightarrow>
    \<exists>s1. continue_stop A s1 = (Some r, s')"
proof (induction n arbitrary: s)
  case (Suc n)
  then show ?case by (auto split: option.splits prod.splits)
qed simp

lemma continue_stop_true:
  assumes "lawful_lldb A nid" "continue_stop A s = (Some True, s')"
  shows "pr_state (api_process A (db_lldb s')) = State_stopped
    \<and> check_user_stop (api_process A (db_lldb s')) (user_breakpoint_ids A s')
    \<and> (\<exists>t \<in> set (pr_threads (api_process A (db_lldb s'))). stopped_at_frame t)"
proof -
  let ?s1 = "snd (resolve_pending_ocl_breakpoints A (note_launch A (record_stop A s)))"
  obtain wis items where l: "list_stopped_work_items (db_target ?s1) (api_process A (db_lldb ?s1)) (db_items ?s1) = (wis, items)"
    by fastforce
  from assms(2) l have c: "pr_state (api_process A (db_lldb s)) = State_stopped" "s' = set_items items ?s1"
    "check_user_stop (api_process A (db_lldb ?s1)) (user_breakpoint_ids A ?s1)" "wis \<noteq> []"
    by (auto simp: continue_stop_def Let_def split: if_splits)
  have ids: "user_breakpoint_ids A s' = user_breakpoint_ids A ?s1" "db_lldb s' = db_lldb ?s1"
    by (simp_all add: c(2) set_items_def user_breakpoint_ids_def)
  have "same_program A (db_lldb s) (db_lldb s')"
    using edits_same_program [OF assms(1) continue_stop_edits [of A s]] assms(2) by simp
  then have "pr_state (api_process A (db_lldb s')) = State_stopped" using c(1) by (simp add: same_program_def)
  moreover have "\<exists>t \<in> set (pr_threads (api_process A (db_lldb ?s1))). stopped_at_frame t"
  proof (rule ccontr)
    assume no: "\<not> ?thesis"
    have "stopped_items abi lx wd ts tr = ([], tr)" if "\<forall>t \<in> set ts. \<not> stopped_at_frame t" for abi lx wd ts tr
      using that by (induction ts) (auto simp: stopped_at_frame_def)
    with no l c(4) show False by (auto simp: list_stopped_work_items_def split: if_splits)
  qed
  ultimately show ?thesis using c(3) by (simp add: ids)
qed

lemma table_ids_set: "i \<in> set (table_ids bps) \<longleftrightarrow> (\<exists>bp \<in> set bps. bp_sb bp = Some i)"
  by (induction bps) (auto split: option.splits)

text \<open>
  C12.  \<^verbatim>\<open>continue_execution\<close> comes back to the user only for the user: when it returns true the process is
  stopped with a thread that has a frame to show, and some thread has finished a step, got a signal or an
  exception, or is at a breakpoint of the OpenCL table that LLDB still has; when it returns false there
  was no target or no process, or the process has exited or crashed.  The internal breakpoints on the
  enqueue call, the work-group functions and the trampoline never end it.
\<close>

theorem continue_stops_for_user:
  assumes "lawful_lldb A nid" and "continue_execution A n s = Some (r, s')"
  shows "(r \<longrightarrow> pr_state (api_process A (db_lldb s')) = State_stopped
      \<and> (\<exists>t \<in> set (pr_threads (api_process A (db_lldb s'))). stopped_at_frame t)
      \<and> (\<exists>t \<in> set (pr_threads (api_process A (db_lldb s'))). th_valid t \<and>
           (th_reason t \<in> {Stop_plan_complete, Stop_signal, Stop_exception} \<or> th_reason t = Stop_breakpoint
              \<and> (\<exists>bp \<in> set (db_breakpoints s'). bp_sb bp = Some (sint (ucast (th_reason_data t) :: u32)))
              \<and> api_has A (db_lldb s') (sint (ucast (th_reason_data t) :: u32)))))
    \<and> (\<not> r \<longrightarrow> \<not> db_target s' \<or> \<not> pr_valid (api_process A (db_lldb s'))
         \<or> pr_state (api_process A (db_lldb s')) \<in> {State_exited, State_crashed})"
proof (cases "db_target (use_target A s) \<and> pr_valid (api_process A (db_lldb (use_target A s)))")
  case False
  with assms(2) show ?thesis by (auto simp: continue_execution_def Let_def split: if_splits)
next
  case True
  with assms(2) have "continue_loop A n (ensure_ocl_trampoline A ((use_target A s)\<lparr>db_process := True\<rparr>)) = Some (r, s')"
    by (simp add: continue_execution_def Let_def)
  then obtain s1 where s1: "continue_stop A s1 = (Some r, s')" using continue_loop_stops [OF assms(1)] by blast
  show ?thesis
  proof (cases r)
    case True
    have ids: "i \<in> user_breakpoint_ids A s' \<longleftrightarrow> (\<exists>bp \<in> set (db_breakpoints s'). bp_sb bp = Some i) \<and> api_has A (db_lldb s') i" for i
      by (simp add: user_breakpoint_ids_def table_ids_set)
    have "continue_stop A s1 = (Some True, s')" using True s1 by simp
    note stop = continue_stop_true [OF assms(1) this]
    then obtain t where t: "t \<in> set (pr_threads (api_process A (db_lldb s')))" "th_valid t"
      "th_reason t \<in> {Stop_plan_complete, Stop_signal, Stop_exception}
        \<or> th_reason t = Stop_breakpoint \<and> sint (ucast (th_reason_data t) :: u32) \<in> user_breakpoint_ids A s'"
      unfolding check_user_stop_def by (elim conjE bexE)
    have "\<exists>t \<in> set (pr_threads (api_process A (db_lldb s'))). th_valid t \<and>
           (th_reason t \<in> {Stop_plan_complete, Stop_signal, Stop_exception} \<or> th_reason t = Stop_breakpoint
              \<and> (\<exists>bp \<in> set (db_breakpoints s'). bp_sb bp = Some (sint (ucast (th_reason_data t) :: u32)))
              \<and> api_has A (db_lldb s') (sint (ucast (th_reason_data t) :: u32)))"
      using t(2,3) by (intro bexI [OF _ t(1)] conjI) (simp_all only: ids)
    with stop True show ?thesis by simp
  next
    case False
    with s1 show ?thesis by (auto simp: continue_stop_def Let_def split: if_splits prod.splits)
  qed
qed

text \<open>A host breakpoint, and a script that halts at it.\<close>

definition halting_debugger :: "lldb_process \<Rightarrow> demo_lldb debugger" where
  "halting_debugger p = (new_debugger None (demo_start [(Halted, p)])\<lparr>db_lldb := (demo_start [(Halted, p)])\<lparr>demo_next := 2,
     demo_live := [(1, 0x400005)]\<rparr>\<rparr>)\<lparr>db_breakpoints :=
     [\<lparr>bp_id = 1, bp_file = ''host.c'', bp_line = 5, bp_resolved = True, bp_address = 0x400005, bp_sb = Some 1\<rparr>]\<rparr>"

lemma halting_continues:
  "\<exists>s'. continue_execution (demo_api [] None) 3 (halting_debugger enqueue_process) = Some (True, s')"
  by (simp add: continue_execution_def Let_def use_target_def halting_debugger_def new_debugger_def demo_start_def
      ensure_ocl_trampoline_def sb_valid_def demo_api_def demo_create_def demo_step_def eval_nat_numeral
      continue_stop_def record_stop_def set_items_def note_launch_def check_enqueue_ndrange_def new_item_state_def
      record_stopped_workgroups_def resolve_pending_state after_host_def put_breakpoints_def after_dwarf_def unloaded_dwarf_def
      load_kernel_dwarf_def dwarf_load_def find_kernel_module_def check_user_stop_def user_breakpoint_ids_def list_stopped_work_items_def
      enqueue_process_def idle_thread_def blank_frame_def split_beta)

theorem continue_stops_for_user_witness:
  "\<exists>s'. continue_execution (demo_api [] None) 3 (halting_debugger enqueue_process) = Some (True, s')
     \<and> pr_state (demo_process (db_lldb s')) = State_stopped"
proof -
  obtain s' where s': "continue_execution (demo_api [] None) 3 (halting_debugger enqueue_process) = Some (True, s')"
    using halting_continues by blast
  from continue_stops_for_user [OF demo_lawful s'] have "pr_state (api_process (demo_api [] None) (db_lldb s')) = State_stopped"
    by simp
  with s' show ?thesis by (simp add: demo_api_def)
qed

section \<open>It returns\<close>

text \<open>
  A bound on the debuggee: \<open>m\<close> decreases with every event until the process has ended, and breakpoints do
  not increase it.
\<close>

definition ends_within :: "'l lldb_api \<Rightarrow> ('l \<Rightarrow> nat) \<Rightarrow> bool" where
  "ends_within A m \<longleftrightarrow>
     (\<forall>l. m (snd (api_next A l)) < m l \<or> (fst (api_next A l) = Halted
        \<and> pr_state (api_process A (snd (api_next A l))) \<in> {State_exited, State_crashed}))
     \<and> (\<forall>l l'. edits A l l' \<longrightarrow> m l' \<le> m l)"

lemma process_continue_returns:
  assumes "ends_within A m"
  shows "m (db_lldb s) < n \<Longrightarrow> \<exists>s'. process_continue A n s = Some s'
    \<and> (m (db_lldb s') < m (db_lldb s) \<or> pr_state (api_process A (db_lldb s')) \<in> {State_exited, State_crashed})"
proof (induction n arbitrary: s)
  case (Suc n)
  obtain ev l where e: "api_next A (db_lldb s) = (ev, l)" by fastforce
  have d: "m l < m (db_lldb s) \<or> ev = Halted \<and> pr_state (api_process A l) \<in> {State_exited, State_crashed}"
    using assms e unfolding ends_within_def by (metis fst_conv snd_conv)
  show ?case
  proof (cases ev)
    case Halted
    with e d show ?thesis by simp
  next
    case (Callback i t)
    let ?s = "s\<lparr>db_lldb := l\<rparr>"
    let ?s1 = "if db_trampoline ?s = Some i then trampoline_callback A t ?s else ?s"
    have "edits A l (db_lldb ?s1)" using edits_trampoline_callback [of A ?s t] by simp
    with assms have "m (db_lldb ?s1) \<le> m l" by (simp add: ends_within_def)
    moreover have "m l < m (db_lldb s)" using d Callback by simp
    ultimately have lt: "m (db_lldb ?s1) < n" "m (db_lldb ?s1) < m (db_lldb s)" using Suc.prems by simp_all
    have "process_continue A (Suc n) s = process_continue A n ?s1" by (simp add: e Callback Let_def)
    moreover from Suc.IH [OF lt(1)] obtain s' where "process_continue A n ?s1 = Some s'"
      "m (db_lldb s') < m (db_lldb ?s1) \<or> pr_state (api_process A (db_lldb s')) \<in> {State_exited, State_crashed}" by blast
    moreover have "m (db_lldb s') < m (db_lldb ?s1) \<Longrightarrow> m (db_lldb s') < m (db_lldb s)" using lt(2) by linarith
    ultimately show ?thesis by (intro exI [of _ s']) (simp only:, blast)
  qed
qed simp

lemma continue_loop_returns:
  assumes "ends_within A m"
  shows "m (db_lldb s) < n \<Longrightarrow> continue_loop A (Suc n) s \<noteq> None"
proof (induction n arbitrary: s)
  case (Suc n)
  from process_continue_returns [OF assms, of s "Suc n"] Suc.prems obtain s1 where
    s1: "process_continue A (Suc n) s = Some s1"
    "m (db_lldb s1) < m (db_lldb s) \<or> pr_state (api_process A (db_lldb s1)) \<in> {State_exited, State_crashed}" by auto
  obtain r s2 where s2: "continue_stop A s1 = (r, s2)" by fastforce
  show ?case
  proof (cases r)
    case None
    then have "pr_state (api_process A (db_lldb s1)) \<notin> {State_exited, State_crashed}"
      using s2 by (auto simp: continue_stop_def)
    then have "m (db_lldb s1) < m (db_lldb s)" using s1(2) by blast
    moreover have "edits A (db_lldb s1) (db_lldb s2)" using continue_stop_edits [of A s1] by (simp add: s2)
    then have "m (db_lldb s2) \<le> m (db_lldb s1)" using assms by (simp add: ends_within_def)
    ultimately have "m (db_lldb s2) < n" using Suc.prems by simp
    from Suc.IH [OF this] s1(1) s2 None show ?thesis by (simp del: process_continue.simps)
  next
    case (Some b)
    with s1(1) s2 show ?thesis by (simp del: process_continue.simps)
  qed
qed simp


lemma demo_edits: "edits (demo_api mods dwarf) d d' \<Longrightarrow> demo_script d' = demo_script d"
  by (induction rule: edits.induct) (simp_all add: demo_api_def demo_create_def)

lemma demo_ends: "ends_within (demo_api mods dwarf) (\<lambda>d. length (demo_script d))"
proof -
  have "length (demo_script (snd (api_next (demo_api mods dwarf) d))) < length (demo_script d) \<or> (fst (api_next (demo_api mods dwarf) d) = Halted
      \<and> pr_state (api_process (demo_api mods dwarf) (snd (api_next (demo_api mods dwarf) d))) \<in> {State_exited, State_crashed})" for d
    by (cases "demo_script d") (auto simp: demo_api_def demo_step_def)
  then show ?thesis by (simp add: ends_within_def demo_edits)
qed


end
