(* ===== verification/VariableResolver.thy ===== *)
theory VariableResolver
  imports CpuVariables RunControl
begin

text \<open>
  \<^verbatim>\<open>ocldbg/ocl_debug_model/OCLAddressSpaces.cpp\<close> and \<^verbatim>\<open>OCLVariableResolver.cpp\<close>: the address spaces of
  kernel arguments, from the bitcode pocl caches, and the variables of a work-item; with the inspection
  functions of \<^verbatim>\<open>DebuggerContext.cpp\<close> that use them.  LLVM reads the bitcode, which gives for each kernel
  the operands of its two metadata nodes (\<open>None\<close> for a missing node, and for an operand of another kind).
\<close>

section \<open>Address spaces\<close>

record kernel_metadata =
  md_spaces :: "int option list option"
  md_names :: "string option list option"

type_synonym ir_module = "string \<rightharpoonup> kernel_metadata"

record address_spaces =
  arg_spaces :: "string \<rightharpoonup> string"
  spaces_loaded :: bool

definition no_spaces :: address_spaces where
  "no_spaces = \<lparr>arg_spaces = Map.empty, spaces_loaded = False\<rparr>"

definition address_space_name :: "nat \<Rightarrow> string" where
  "address_space_name n = (if n = 0 then ''__private'' else if n = 1 then ''__global'' else if n = 2 then ''__constant''
     else if n = 3 then ''__local'' else if n = 4 then ''__generic'' else [])"

text \<open>
  \<^verbatim>\<open>std::filesystem::path\<close> on paths without repeated or trailing slashes: the parent is what comes before
  the last slash, the root its own parent; the stem is the file name up to its last dot, if that is not
  its first character.
\<close>

definition file_name :: "string \<Rightarrow> string" where
  "file_name p = rev (takeWhile (\<lambda>c. c \<noteq> CHR ''/'') (rev p))"

definition parent_path :: "string \<Rightarrow> string" where
  "parent_path p = (let q = rev (dropWhile (\<lambda>c. c \<noteq> CHR ''/'') (rev p)) in if length q \<le> 1 then q else butlast q)"

definition path_stem :: "string \<Rightarrow> string" where
  "path_stem p = (let f = file_name p; ext = takeWhile (\<lambda>c. c \<noteq> CHR ''.'') (rev f) in
     if f = ''..'' \<or> length f \<le> length ext + 1 then f else take (length f - length ext - 1) f)"

definition program_bitcode_for :: "string \<Rightarrow> string" where
  "program_bitcode_for m = (let d = parent_path (parent_path (parent_path m)) in
     d @ (if d = [] \<or> List.last d = CHR ''/'' then [] else ''/'') @ ''program.bc'')"

definition operand_string :: "string option list \<Rightarrow> nat \<Rightarrow> string" where
  "operand_string names i = (if i < length names then (case names ! i of None \<Rightarrow> [] | Some n \<Rightarrow> n) else [])"

definition operand_int :: "int option list \<Rightarrow> nat \<Rightarrow> int" where
  "operand_int spaces i = (if i < length spaces then (case spaces ! i of None \<Rightarrow> - 1 | Some v \<Rightarrow> v) else - 1)"

text \<open>The loop over the operands, from operand \<open>i\<close> on, \<open>n\<close> still to go.\<close>

fun collect_spaces :: "int option list \<Rightarrow> string option list \<Rightarrow> nat \<Rightarrow> nat \<Rightarrow> (string \<rightharpoonup> string) \<Rightarrow> (string \<rightharpoonup> string)" where
  "collect_spaces spaces names i 0 m = m"
| "collect_spaces spaces names i (Suc n) m =
     (let name = operand_string names i; space = operand_int spaces i in
      if name = [] \<or> space < 0 then collect_spaces spaces names (i + 1) n m
      else let space_name = address_space_name (nat space) in
        collect_spaces spaces names (i + 1) n (if space_name \<noteq> [] then m(name \<mapsto> space_name) else m))"

definition load_spaces :: "(string \<Rightarrow> ir_module option) \<Rightarrow> string \<Rightarrow> address_spaces" where
  "load_spaces bitcode m =
     (case Option.bind (bitcode (program_bitcode_for m)) (\<lambda>ir. ir (path_stem m)) of
        None \<Rightarrow> no_spaces
      | Some md \<Rightarrow>
          (case (md_spaces md, md_names md) of
             (Some spaces, Some names) \<Rightarrow>
               \<lparr>arg_spaces = collect_spaces spaces names 0 (length spaces) Map.empty, spaces_loaded = True\<rparr>
           | _ \<Rightarrow> no_spaces))"

definition lookup_space :: "address_spaces \<Rightarrow> string \<Rightarrow> string \<Rightarrow> string" where
  "lookup_space s variable ty_name =
     (if \<not> spaces_loaded s \<or> \<not> ends_with ty_name ''*'' then []
      else case arg_spaces s variable of None \<Rightarrow> [] | Some n \<Rightarrow> n)"

section \<open>The variables of a work-item\<close>

text \<open>
  What else LLDB answers about a frame: its variables in scope, the path of the module of its PC (\<open>None\<close>
  without a valid module, or when the path is empty), the PC and its file address.
\<close>

record scope_answers =
  so_frame :: frame_answers
  so_variables :: "sb_value list"
  so_module :: "string option"
  so_pc :: u64
  so_file_pc :: u64

text \<open>The world of an inspection: LLDB's answers, LLVM on object files and on bitcode, and the host's ABI.\<close>

record inspection =
  ix_answers :: "lldb_frame \<Rightarrow> scope_answers"
  ix_dwarf :: "string \<Rightarrow> dwarf_model option"
  ix_bitcode :: "string \<Rightarrow> ir_module option"
  ix_abi :: "cpu_abi option"

text \<open>The debug model the resolver keeps, and the process-wide cache of values.\<close>

record debug_model =
  dbm_dwarf :: dwarf_model
  dbm_spaces :: address_spaces
  dbm_cache :: param_cache

definition eval_var :: "inspection \<Rightarrow> cpu_exec_ctx option \<Rightarrow> var_info \<Rightarrow> param_cache \<Rightarrow> (var_value \<times> param_cache) option" where
  "eval_var I ctx var cache = evaluate (\<lambda>f. so_frame (ix_answers I f)) (ix_abi I) var ctx cache"

fun eval_vars :: "inspection \<Rightarrow> cpu_exec_ctx option \<Rightarrow> var_info list \<Rightarrow> param_cache \<Rightarrow> (var_value list \<times> param_cache) option" where
  "eval_vars I ctx [] cache = Some ([], cache)"
| "eval_vars I ctx (v # vs) cache =
     (case eval_var I ctx v cache of
        None \<Rightarrow> None
      | Some (r, c1) \<Rightarrow> (case eval_vars I ctx vs c1 of None \<Rightarrow> None | Some (rs, c2) \<Rightarrow> Some (r # rs, c2)))"

definition frame_variable_info :: "address_spaces \<Rightarrow> sb_value \<Rightarrow> var_info" where
  "frame_variable_info s v =
     (let n = (case sv_name v of None \<Rightarrow> [] | Some n \<Rightarrow> n); t = (case sv_type_name v of None \<Rightarrow> [] | Some t \<Rightarrow> t)
      in \<lparr>vi_name = n, vi_type_name = t, vi_address_space = lookup_space s n t, vi_location_pc = 0, vi_dwarf_location_expr = []\<rparr>)"

definition load_dwarf :: "inspection \<Rightarrow> string \<Rightarrow> dwarf_model \<Rightarrow> dwarf_model" where
  "load_dwarf I path m = snd (dwarf_load (ix_dwarf I path) m)"

definition ensure_loaded :: "inspection \<Rightarrow> lldb_frame \<Rightarrow> debug_model \<Rightarrow> debug_model" where
  "ensure_loaded I f d =
     (if (dm_loaded (dbm_dwarf d) \<and> spaces_loaded (dbm_spaces d)) \<or> \<not> fr_valid f then d
      else case so_module (ix_answers I f) of
        None \<Rightarrow> d
      | Some path \<Rightarrow>
          d\<lparr>dbm_dwarf := (if dm_loaded (dbm_dwarf d) then dbm_dwarf d else load_dwarf I path (dbm_dwarf d)),
            dbm_spaces := (if spaces_loaded (dbm_spaces d) then dbm_spaces d else load_spaces (ix_bitcode I) path)\<rparr>)"

text \<open>The list of the variables to show; \<open>None\<close> where a chain of type references does not end.\<close>

definition scope_variables :: "dwarf_model \<Rightarrow> u64 \<Rightarrow> u64 \<Rightarrow> var_info list option" where
  "scope_variables m file_pc runtime_pc =
     (case (if file_pc \<noteq> 0 \<and> file_pc \<noteq> lldb_invalid_address then variables_in_scope m file_pc else Some []) of
        None \<Rightarrow> None
      | Some vars \<Rightarrow> if vars = [] \<and> runtime_pc \<noteq> 0 then variables_in_scope m runtime_pc else Some vars)"

definition with_spaces :: "address_spaces \<Rightarrow> var_info \<Rightarrow> var_info" where
  "with_spaces s v = v\<lparr>vi_address_space := lookup_space s (vi_name v) (vi_type_name v)\<rparr>"

definition valid_frame :: "cpu_exec_ctx option \<Rightarrow> lldb_frame option" where
  "valid_frame ctx = (case Option.bind ctx ctx_frame of None \<Rightarrow> None | Some f \<Rightarrow> if fr_valid f then Some f else None)"

definition fallback_from_frame :: "inspection \<Rightarrow> cpu_exec_ctx option \<Rightarrow> address_spaces \<Rightarrow> lldb_frame option \<Rightarrow> param_cache
    \<Rightarrow> (var_value list \<times> param_cache) option" where
  "fallback_from_frame I ctx spaces frame cache =
     (case frame of
        None \<Rightarrow> Some ([], cache)
      | Some f \<Rightarrow> eval_vars I ctx (List.map (frame_variable_info spaces) (so_variables (ix_answers I f))) cache)"

definition resolve_variables :: "inspection \<Rightarrow> cpu_exec_ctx option \<Rightarrow> debug_model \<Rightarrow> (var_value list \<times> debug_model) option" where
  "resolve_variables I ctx d0 =
     (let d = (case valid_frame ctx of None \<Rightarrow> d0 | Some f \<Rightarrow> ensure_loaded I f d0);
          runtime_pc = (case valid_frame ctx of None \<Rightarrow> 0 | Some f \<Rightarrow> so_pc (ix_answers I f));
          file_pc = (case valid_frame ctx of None \<Rightarrow> 0 | Some f \<Rightarrow> so_file_pc (ix_answers I f))
      in case scope_variables (dbm_dwarf d) file_pc runtime_pc of
           None \<Rightarrow> None
         | Some vars \<Rightarrow>
             (case eval_vars I ctx (List.map (with_spaces (dbm_spaces d)) vars) (dbm_cache d) of
                None \<Rightarrow> None
              | Some (results, cache) \<Rightarrow>
                  if results = [] then
                    (case fallback_from_frame I ctx (dbm_spaces d) (valid_frame ctx) cache of
                       None \<Rightarrow> None
                     | Some (rs, c2) \<Rightarrow> Some (rs, d\<lparr>dbm_cache := c2\<rparr>))
                  else Some (results, d\<lparr>dbm_cache := cache\<rparr>)))"

section \<open>Lemmas\<close>

text \<open>What a value must share with the variable it is of.\<close>

definition shows_variable :: "var_info \<Rightarrow> var_value \<Rightarrow> bool" where
  "shows_variable var r \<longleftrightarrow> vv_name r = vi_name var \<and> (vi_type_name var \<noteq> [] \<longrightarrow> vv_type_name r = vi_type_name var)
     \<and> (vi_address_space var \<noteq> [] \<longrightarrow> vv_address_space r = vi_address_space var)"

definition own_names :: "param_cache \<Rightarrow> bool" where
  "own_names cache \<longleftrightarrow> (\<forall>n r. cache n = Some r \<longrightarrow> vv_name r = n)"

lemma shows_show [simp]: "shows_variable var (show_value s r) = shows_variable var r"
  by (simp add: shows_variable_def show_value_def)

lemma shows_blank [simp]: "shows_variable var (blank_value var)"
  by (simp add: shows_variable_def blank_value_def)

lemma unavailable_empty [simp]: "\<not> vv_available empty_var_value"
  by (simp add: empty_var_value_def)

lemma shows_vector: "show_vector bytes vt (blank_value var) = Some r \<Longrightarrow> shows_variable var r"
  by (auto simp: show_vector_def)

lemma shows_from_sbvalue: "vi_name var \<noteq> [] \<Longrightarrow> shows_variable var (eval_from_sbvalue v var)"
  by (auto simp: eval_from_sbvalue_def Let_def shows_variable_def show_value_def blank_value_def split: option.split)

lemma shows_from_memory: "eval_from_memory fa a var = Some r \<Longrightarrow> shows_variable var r"
  by (auto simp: eval_from_memory_def Let_def split_beta split: if_splits option.splits dest: shows_vector)

lemma shows_from_register: "eval_from_register fa abi n var = Some r \<Longrightarrow> shows_variable var r"
  by (auto simp: eval_from_register_def Let_def split: if_splits option.splits dest: shows_vector)

lemma shows_implicit: "eval_implicit_value expr var = Some r \<Longrightarrow> shows_variable var r"
  by (auto simp: eval_implicit_value_def Let_def split: if_splits option.splits dest: shows_vector)

lemma shows_const: "eval_const opcode expr var = Some r \<Longrightarrow> vv_available r \<Longrightarrow> shows_variable var r"
  by (auto simp: eval_const_def bind_eq_Some_conv split: if_splits)

lemma shows_breg: "eval_breg fa abi opcode expr var = Some r \<Longrightarrow> vv_available r \<Longrightarrow> shows_variable var r"
  by (auto simp: eval_breg_def Let_def split: if_splits option.splits dest: shows_from_memory)

lemma shows_fbreg: "eval_fbreg fa expr var = Some r \<Longrightarrow> shows_variable var r"
  by (auto simp: eval_fbreg_def Let_def split: option.splits dest: shows_from_memory)

lemma shows_dwarf: "eval_from_dwarf_expr fa abi var = Some r \<Longrightarrow> vv_available r \<Longrightarrow> shows_variable var r"
  unfolding eval_from_dwarf_expr_def Let_def
  by (split list.splits)
     (auto split: if_splits option.splits dest: shows_from_register shows_implicit shows_const shows_breg shows_fbreg)

lemma shows_alias: "eval_alias fa prefixes var = Some r \<Longrightarrow> vi_name var \<noteq> [] \<Longrightarrow> shows_variable var r"
proof (induction prefixes)
  case (Cons prefix prefixes)
  show ?case
  proof (cases "fa_variable fa (prefix @ vi_name var)")
    case None
    with Cons show ?thesis by simp
  next
    case (Some v)
    show ?thesis
    proof (cases "vv_available (eval_from_sbvalue v var)")
      case True
      with Some Cons.prems(1) have "r = (eval_from_sbvalue v var)\<lparr>vv_name := vi_name var\<rparr>" by (simp add: Let_def)
      with shows_from_sbvalue [OF Cons.prems(2), of v] show ?thesis by (simp add: shows_variable_def)
    next
      case False
      with Some Cons show ?thesis by (simp add: Let_def)
    qed
  qed
qed simp

lemma own_names_update: "own_names cache \<Longrightarrow> shows_variable var r \<Longrightarrow> own_names (cache(vi_name var \<mapsto> r))"
  by (simp add: own_names_def shows_variable_def)

lemma fallback_shows:
  assumes "own_names cache" "vi_name var \<noteq> []" "evaluate_fallback fa var cache = (r, c')"
  shows "shows_variable var r \<and> own_names c'"
proof (cases "cache (vi_name var)")
  case None
  show ?thesis
  proof (cases "eval_alias fa [''k_'', ''v_''] var")
    case None
    with assms \<open>cache (vi_name var) = None\<close> show ?thesis by (auto simp add: evaluate_fallback_def simp del: eval_alias.simps)
  next
    case (Some a)
    with assms \<open>cache (vi_name var) = None\<close> shows_alias [OF Some assms(2)] own_names_update [OF assms(1)]
    show ?thesis by (auto simp add: evaluate_fallback_def simp del: eval_alias.simps)
  qed
next
  case (Some cached)
  with assms show ?thesis by (auto simp: evaluate_fallback_def Let_def own_names_def shows_variable_def)
qed

lemma dwarf_shows:
  assumes "own_names cache" "vi_name var \<noteq> []" "evaluate_dwarf fa abi var cache = Some (r, c')"
  shows "shows_variable var r \<and> own_names c'"
proof (cases "if vi_dwarf_location_expr var = [] then None else abi")
  case None
  with assms fallback_shows [OF assms(1,2)] show ?thesis by (simp add: evaluate_dwarf_def)
next
  case (Some a)
  with assms(3) obtain r0 where r0: "eval_from_dwarf_expr fa a var = Some r0"
    "(if vv_available r0 then (r0, cache(vi_name var \<mapsto> r0)) else evaluate_fallback fa var cache) = (r, c')"
    by (auto simp: evaluate_dwarf_def split: option.splits)
  show ?thesis
  proof (cases "vv_available r0")
    case True
    with r0 shows_dwarf [OF r0(1)] own_names_update [OF assms(1)] show ?thesis by auto
  next
    case False
    with r0 fallback_shows [OF assms(1,2)] show ?thesis by simp
  qed
qed

lemma evaluate_shows:
  assumes "own_names cache" "vi_name var \<noteq> []" "ctx_frame ctx = Some f" "fr_valid f"
    and "evaluate answers abi var (Some ctx) cache = Some (r, c')"
  shows "shows_variable var r \<and> own_names c'"
proof (cases "fa_variable (answers f) (vi_name var)")
  case None
  with assms dwarf_shows [OF assms(1,2)] show ?thesis by (simp add: evaluate_def Let_def)
next
  case (Some v)
  with assms dwarf_shows [OF assms(1,2)] own_names_update [OF assms(1) shows_from_sbvalue [OF assms(2)]]
  show ?thesis by (auto simp: evaluate_def Let_def shows_from_sbvalue split: if_splits)
qed

lemma eval_vars_show:
  assumes "ctx_frame ctx = Some f" "fr_valid f"
  shows "\<lbrakk> eval_vars I (Some ctx) vars cache = Some (rs, c'); own_names cache; \<forall>v \<in> set vars. vi_name v \<noteq> [] \<rbrakk>
    \<Longrightarrow> list_all2 shows_variable vars rs \<and> own_names c'"
proof (induction vars arbitrary: cache rs)
  case (Cons v vs)
  then obtain r c1 rs1 where e: "eval_var I (Some ctx) v cache = Some (r, c1)" "eval_vars I (Some ctx) vs c1 = Some (rs1, c')" "rs = r # rs1"
    by (auto split: option.splits)
  have "shows_variable v r \<and> own_names c1"
    by (rule evaluate_shows [OF Cons.prems(2) _ assms e(1) [unfolded eval_var_def]]) (use Cons.prems(3) in simp)
  with Cons e show ?case by simp
qed simp

lemma variables_proper: "variables_in_scope m pc = Some vars \<Longrightarrow> proper_vars pc vars"
  by (auto simp: variables_in_scope_def proper_vars_def [of _ "[]"] split: if_splits dest: unit_variables_proper)

section \<open>The variables listed\<close>

lemma shows_with_spaces:
  "shows_variable (with_spaces s v) r \<longleftrightarrow> vv_name r = vi_name v \<and> (vi_type_name v \<noteq> [] \<longrightarrow> vv_type_name r = vi_type_name v)
     \<and> (lookup_space s (vi_name v) (vi_type_name v) \<noteq> [] \<longrightarrow> vv_address_space r = lookup_space s (vi_name v) (vi_type_name v))"
  by (simp add: shows_variable_def with_spaces_def)

lemma list_all2_map_left: "list_all2 P (map h xs) ys \<longleftrightarrow> list_all2 (\<lambda>x. P (h x)) xs ys"
  by (simp add: list_all2_conv_all_nth)


definition demo_value :: sb_value where
  "demo_value = \<lparr>sv_name = None, sv_type_name = None, sv_value = Some ''1'', sv_summary = None, sv_children = [], sv_is_pointer = False,
     sv_unsigned = 1, sv_data = [], sv_float = None\<rparr>"

definition demo_inspection :: inspection where
  "demo_inspection = \<lparr>ix_answers = (\<lambda>f. \<lparr>so_frame = (demo_answers [])\<lparr>fa_variable := (\<lambda>n. Some demo_value)\<rparr>, so_variables = [],
       so_module = None, so_pc = 0x5014, so_file_pc = 20\<rparr>),
     ix_dwarf = (\<lambda>p. None), ix_bitcode = (\<lambda>p. None), ix_abi = Some x86_abi\<rparr>"

definition demo_debug_model :: debug_model where
  "demo_debug_model = \<lparr>dbm_dwarf = shadowing_model,
     dbm_spaces = \<lparr>arg_spaces = [''x'' \<mapsto> ''__global''], spaces_loaded = True\<rparr>, dbm_cache = Map.empty\<rparr>"

lemma demo_eval_vars:
  "\<forall>v \<in> set vars. vi_name v \<noteq> [] \<Longrightarrow> \<exists>rs c. eval_vars demo_inspection (Some demo_context) vars cache = Some (rs, c)"
proof (induction vars arbitrary: cache)
  case (Cons v vs)
  then obtain r c1 where r: "eval_var demo_inspection (Some demo_context) v cache = Some (r, c1)"
    by (simp add: eval_var_def evaluate_def demo_inspection_def demo_context_def blank_frame_def eval_from_sbvalue_def demo_value_def show_value_def Let_def)
  obtain rs c2 where "eval_vars demo_inspection (Some demo_context) vs c1 = Some (rs, c2)" using Cons by fastforce
  with r show ?case by simp
qed simp

lemma shadowing_types:
  "type_name (dm_die_at shadowing_model) 2 = Some ''float''" "type_name (dm_die_at shadowing_model) 1 = Some ''float *''"
proof -
  show 2: "type_name (dm_die_at shadowing_model) 2 = Some ''float''"
    by (subst type_name.simps) (simp add: shadowing_model_def name_or_unknown_def)
  show "type_name (dm_die_at shadowing_model) 1 = Some ''float *''"
    by (subst type_name.simps) (use 2 in \<open>simp add: shadowing_model_def referenced_type_def\<close>)
qed

lemma shadowing_names: "map_option (map vi_name) (variables_in_scope shadowing_model 20) = Some [''i'', ''x'']"
  using shadowing_types
  by (auto simp: variables_in_scope_def shadowing_model_def shadowing_kernel_def variable_die_def in_range_pc_def extract_var_info_def
      model_type_name_def append_unique_var_def variable_type_def referenced_type_def)


section \<open>The address spaces\<close>

text \<open>The address space an argument gets: that of the last usable operand with its name.\<close>

definition usable_operand :: "int option list \<Rightarrow> string option list \<Rightarrow> string \<Rightarrow> nat \<Rightarrow> nat \<Rightarrow> bool" where
  "usable_operand spaces names a i k \<longleftrightarrow> i < length spaces \<and> i < length names \<and> names ! i = Some a \<and> a \<noteq> []
     \<and> spaces ! i = Some (int k) \<and> k < 5"

lemma address_space_name_nonempty: "address_space_name k \<noteq> [] \<longleftrightarrow> k < 5"
  by (auto simp: address_space_name_def)

lemma operand_usable:
  assumes "i < length spaces"
  shows "(operand_string names i = a \<and> a \<noteq> [] \<and> operand_int spaces i = int k \<and> k < 5) = usable_operand spaces names a i k"
  using assms by (auto simp: operand_string_def operand_int_def usable_operand_def split: option.split)

lemma collect_spaces_step:
  "collect_spaces spaces names i (Suc n) m =
     collect_spaces spaces names (i + 1) n
       (if operand_string names i \<noteq> [] \<and> 0 \<le> operand_int spaces i \<and> operand_int spaces i < 5
        then m(operand_string names i \<mapsto> address_space_name (nat (operand_int spaces i))) else m)"
  by (auto simp: Let_def address_space_name_nonempty nat_less_iff)

lemma usable_int: "usable_operand spaces names a i k \<longleftrightarrow> i < length spaces \<and> operand_string names i = a \<and> a \<noteq> []
    \<and> operand_int spaces i = int k \<and> k < 5"
  using operand_usable [of i spaces names a k] by (auto simp: usable_operand_def)

text \<open>What the loop leaves for a name: the last usable operand from \<open>i\<close> on, or else what was there.\<close>

lemma collect_spaces_none:
  "i + n = length spaces \<Longrightarrow> (\<forall>j k. i \<le> j \<longrightarrow> \<not> usable_operand spaces names a j k) \<Longrightarrow>
   collect_spaces spaces names i n m a = m a"
proof (induction n arbitrary: i m)
  case (Suc n)
  have "\<not> (operand_string names i = a \<and> a \<noteq> [] \<and> 0 \<le> operand_int spaces i \<and> operand_int spaces i < 5)"
  proof
    assume *: "operand_string names i = a \<and> a \<noteq> [] \<and> 0 \<le> operand_int spaces i \<and> operand_int spaces i < 5"
    then have "usable_operand spaces names a i (nat (operand_int spaces i))" using Suc.prems(1) by (simp add: usable_int nat_less_iff)
    with Suc.prems(2) show False by blast
  qed
  with Suc.IH [of "i + 1"] Suc.prems show ?case
    by (auto simp add: collect_spaces_step simp del: collect_spaces.simps(2))
qed simp


lemma collect_spaces_last:
  "i + n = length spaces \<Longrightarrow> i \<le> j \<Longrightarrow> usable_operand spaces names a j k \<Longrightarrow>
   (\<forall>j' k'. j < j' \<longrightarrow> \<not> usable_operand spaces names a j' k') \<Longrightarrow>
   collect_spaces spaces names i n m a = Some (address_space_name k)"
proof (induction n arbitrary: i m)
  case 0
  then show ?case by (simp add: usable_operand_def)
next
  case (Suc n)
  show ?case
  proof (cases "i = j")
    case True
    with Suc.prems(3) have "operand_string names i = a" "a \<noteq> []" "operand_int spaces i = int k" "k < 5"
      by (simp_all add: usable_int)
    then show ?thesis
      using collect_spaces_none [of "i + 1" n spaces names a] Suc.prems(1,4) True
      by (simp add: collect_spaces_step del: collect_spaces.simps(2))
  next
    case False
    with Suc.IH [of "i + 1"] Suc.prems show ?thesis by (simp add: collect_spaces_step del: collect_spaces.simps(2))
  qed
qed

lemma last_usable:
  assumes "usable_operand spaces names a i k"
  obtains j k' where "usable_operand spaces names a j k'" "\<forall>j' k'. j < j' \<longrightarrow> \<not> usable_operand spaces names a j' k'"
proof -
  let ?P = "\<lambda>j. \<exists>k. usable_operand spaces names a j k"
  have b: "\<forall>j. ?P j \<longrightarrow> j \<le> length spaces" by (auto simp: usable_operand_def)
  have "?P (Greatest ?P)" using assms b by (intro GreatestI_nat [of ?P i "length spaces"]) auto
  moreover have "\<not> ?P j'" if "Greatest ?P < j'" for j' using Greatest_le_nat [of ?P j' "length spaces"] b that by fastforce
  ultimately show thesis using that by blast
qed

lemma usable_unique: "usable_operand spaces names a i k \<Longrightarrow> usable_operand spaces names a i k' \<Longrightarrow> k = k'"
  by (simp add: usable_operand_def)

text \<open>The paths of pocl's cache.\<close>

lemma file_name_append:
  assumes "CHR ''/'' \<notin> set f"
  shows "file_name (p @ CHR ''/'' # f) = f"
proof -
  have "takeWhile (\<lambda>c. c \<noteq> CHR ''/'') (rev f @ CHR ''/'' # rev p) = rev f @ takeWhile (\<lambda>c. c \<noteq> CHR ''/'') (CHR ''/'' # rev p)"
    using assms by (intro takeWhile_append2) auto
  then show ?thesis by (simp add: file_name_def)
qed

lemma parent_path_append:
  assumes "CHR ''/'' \<notin> set f" "p \<noteq> []"
  shows "parent_path (p @ CHR ''/'' # f) = p"
proof -
  have "dropWhile (\<lambda>c. c \<noteq> CHR ''/'') (rev f @ CHR ''/'' # rev p) = dropWhile (\<lambda>c. c \<noteq> CHR ''/'') (CHR ''/'' # rev p)"
    using assms(1) by (intro dropWhile_append2) auto
  with assms(2) show ?thesis by (simp add: parent_path_def Let_def)
qed

lemma path_stem_so:
  assumes "CHR ''.'' \<notin> set k" "k \<noteq> []" "CHR ''/'' \<notin> set k"
  shows "path_stem (p @ CHR ''/'' # k @ ''.so'') = k"
proof -
  have f: "file_name (p @ CHR ''/'' # k @ ''.so'') = k @ ''.so''" using assms(3) by (intro file_name_append) auto
  have e: "takeWhile (\<lambda>c. c \<noteq> CHR ''.'') (rev (k @ ''.so'')) = ''os''" by simp
  have "k @ ''.so'' \<noteq> ''..''" using assms(1,2) by (cases k) auto
  with assms(2) show ?thesis by (simp only: path_stem_def Let_def f e) (cases k; simp)
qed

lemma pocl_paths:
  assumes "root \<noteq> []" "List.last root \<noteq> CHR ''/''" "kname \<noteq> []" "CHR ''/'' \<notin> set kname" "CHR ''.'' \<notin> set kname"
    "CHR ''/'' \<notin> set variant"
  shows "program_bitcode_for (root @ ''/'' @ kname @ ''/'' @ variant @ ''/'' @ kname @ ''.so'') = root @ ''/program.bc''"
    "path_stem (root @ ''/'' @ kname @ ''/'' @ variant @ ''/'' @ kname @ ''.so'') = kname"
proof -
  let ?p = "root @ CHR ''/'' # kname @ CHR ''/'' # variant"
  have "parent_path (?p @ CHR ''/'' # kname @ ''.so'') = ?p" using assms(1,4) by (intro parent_path_append) auto
  moreover have "parent_path ?p = root @ CHR ''/'' # kname"
    using parent_path_append [of variant "root @ CHR ''/'' # kname"] assms(6) by simp
  moreover have "parent_path (root @ CHR ''/'' # kname) = root" using assms(1,4) by (intro parent_path_append) auto
  ultimately show "program_bitcode_for (root @ ''/'' @ kname @ ''/'' @ variant @ ''/'' @ kname @ ''.so'') = root @ ''/program.bc''"
    using assms(1,2) by (simp add: program_bitcode_for_def Let_def)
  show "path_stem (root @ ''/'' @ kname @ ''/'' @ variant @ ''/'' @ kname @ ''.so'') = kname"
    using path_stem_so [of kname ?p] assms(3-5) by simp
qed

lemma usable_kind:
  assumes "usable_operand spaces names a j k"
  shows "[''__private'', ''__global'', ''__constant'', ''__local'', ''__generic''] ! k = address_space_name k" and "address_space_name k \<noteq> []"
  using assms by (auto simp: usable_operand_def address_space_name_def address_space_name_nonempty less_Suc_eq numeral_eq_Suc)

text \<open>The last usable operand is the only one its description fits.\<close>

lemma last_operand_iff:
  assumes "usable_operand spaces names a j k" and "\<forall>j' k'. j < j' \<longrightarrow> \<not> usable_operand spaces names a j' k'"
  shows "(\<exists>j k. usable_operand spaces names a j k \<and> s = [''__private'', ''__global'', ''__constant'', ''__local'', ''__generic''] ! k
      \<and> (\<forall>j' k'. j < j' \<longrightarrow> \<not> usable_operand spaces names a j' k')) \<longleftrightarrow> s = address_space_name k"
    (is "(\<exists>j k. ?fits j k) \<longleftrightarrow> _")
proof
  assume "\<exists>j k. ?fits j k"
  then obtain i l where il: "?fits i l" by blast
  then have "i = j" using assms by (meson linorder_neqE_nat)
  with il usable_unique [OF assms(1)] have "l = k" by blast
  with il usable_kind(1) [OF assms(1)] show "s = address_space_name k" by simp
next
  assume "s = address_space_name k"
  with assms usable_kind(1) [OF assms(1)] show "\<exists>j k. ?fits j k" by (intro exI [of _ j] exI [of _ k]) simp
qed

text \<open>
  C21.  For a kernel object where pocl builds it, the address space shown for a pointer variable is that of
  the last usable operand with its name in the metadata of the kernel of that name in the program's bitcode;
  other variables have none.
\<close>

theorem argument_space_found:
  assumes "root \<noteq> []" and "List.last root \<noteq> CHR ''/''" and "kname \<noteq> []" and "CHR ''/'' \<notin> set kname" and "CHR ''.'' \<notin> set kname"
    and "CHR ''/'' \<notin> set variant" and "m = root @ ''/'' @ kname @ ''/'' @ variant @ ''/'' @ kname @ ''.so''"
    and "bitcode (root @ ''/program.bc'') = Some ir" and "ir kname = Some \<lparr>md_spaces = Some spaces, md_names = Some names\<rparr>"
  shows "lookup_space (load_spaces bitcode m) a ty = s \<and> s \<noteq> [] \<longleftrightarrow>
    ends_with ty ''*'' \<and> (\<exists>j k. usable_operand spaces names a j k \<and> s = [''__private'', ''__global'', ''__constant'', ''__local'', ''__generic''] ! k
      \<and> (\<forall>j' k'. j < j' \<longrightarrow> \<not> usable_operand spaces names a j' k'))"
proof -
  have l: "load_spaces bitcode m = \<lparr>arg_spaces = collect_spaces spaces names 0 (length spaces) Map.empty, spaces_loaded = True\<rparr>"
    using assms(8,9) pocl_paths [OF assms(1-6)] by (simp add: load_spaces_def assms(7))
  show ?thesis
  proof (cases "\<exists>j k. usable_operand spaces names a j k")
    case False
    then show ?thesis using collect_spaces_none [of 0 "length spaces" spaces names a Map.empty] l
      by (auto simp: lookup_space_def)
  next
    case True
    then obtain j k where jk: "usable_operand spaces names a j k" "\<forall>j' k'. j < j' \<longrightarrow> \<not> usable_operand spaces names a j' k'"
      by (auto elim: last_usable)
    from collect_spaces_last [OF _ _ jk, of 0 "length spaces" Map.empty]
    have "lookup_space (load_spaces bitcode m) a ty = (if ends_with ty ''*'' then address_space_name k else [])"
      by (simp add: lookup_space_def l)
    with last_operand_iff [OF jk, of s] usable_kind(2) [OF jk(1)] show ?thesis by auto
  qed
qed

definition demo_kernel_metadata :: kernel_metadata where
  "demo_kernel_metadata = \<lparr>md_spaces = Some [Some 1, Some 3, Some 0], md_names = Some [Some ''a'', Some ''tile'', Some ''n'']\<rparr>"

theorem argument_space_found_witness:
  "lookup_space (load_spaces [''/pocl/P/program.bc'' \<mapsto> [''vadd'' \<mapsto> demo_kernel_metadata]] ''/pocl/P/vadd/0-0-0/vadd.so'') ''tile'' ''float*'' = ''__local''"
proof -
  let ?spaces = "[Some 1, Some 3, Some 0 :: int option]" and ?names = "[Some ''a'', Some ''tile'', Some ''n'']"
  have u: "usable_operand ?spaces ?names ''tile'' 1 3" by (simp add: usable_operand_def)
  have l: "\<forall>j' k'. 1 < j' \<longrightarrow> \<not> usable_operand ?spaces ?names ''tile'' j' k'"
    by (auto simp: usable_operand_def less_Suc_eq numeral_eq_Suc)
  have "ends_with ''float*'' ''*''" by (simp add: ends_with_def)
  moreover have "''__local'' = [''__private'', ''__global'', ''__constant'', ''__local'', ''__generic''] ! 3" by simp
  ultimately have "ends_with ''float*'' ''*'' \<and> (\<exists>j k. usable_operand ?spaces ?names ''tile'' j k
      \<and> ''__local'' = [''__private'', ''__global'', ''__constant'', ''__local'', ''__generic''] ! k
      \<and> (\<forall>j' k'. j < j' \<longrightarrow> \<not> usable_operand ?spaces ?names ''tile'' j' k'))"
    by (intro exI [of _ 1] exI [of _ 3] conjI) (use u l in simp_all)
  from iffD2 [OF argument_space_found [of "''/pocl/P''" "''vadd''" "''0-0-0''" "''/pocl/P/vadd/0-0-0/vadd.so''"
      "[''/pocl/P/program.bc'' \<mapsto> [''vadd'' \<mapsto> demo_kernel_metadata]]" "[''vadd'' \<mapsto> demo_kernel_metadata]" ?spaces ?names "''tile''" "''float*''" "''__local''"] this]
  show ?thesis by (simp add: demo_kernel_metadata_def)
qed

end
