(* ===== verification/Tracking.thy ===== *)
theory Tracking
  imports VariableResolver
begin

text \<open>
  The rest of \<^verbatim>\<open>ocldbg/DebuggerContext.cpp\<close>: launching the host program, inspecting variables, and the
  loop that tracks work-group dispatches for the command line.  The loop runs the debuggee, so it takes
  fuel; a result \<open>None\<close> is fuel that ran out or undefined behaviour of a variable reader.
\<close>

section \<open>State\<close>

text \<open>
  Further functions of LLDB: creating a target from an executable, launching it (whether the process is
  valid, whether there was no error), giving a thread the plan to step, with which the debuggee then runs,
  killing the process, reading its memory, and what it answers about variables.  \<open>h_abi\<close> is \<^verbatim>\<open>CPUABI::create_host_abi()\<close>, \<open>h_order\<close> the iteration order of
  unordered maps.
\<close>

record 'l host =
  h_api :: "'l lldb_api"
  h_create_target :: "string \<Rightarrow> 'l \<Rightarrow> bool \<times> 'l"
  h_launch :: "string list \<Rightarrow> bool \<Rightarrow> 'l \<Rightarrow> bool \<times> bool \<times> 'l"
  h_step_into :: "u64 \<Rightarrow> 'l \<Rightarrow> 'l"
  h_step_over :: "u64 \<Rightarrow> 'l \<Rightarrow> 'l"
  h_kill :: "'l \<Rightarrow> 'l"
  h_read_memory :: "'l \<Rightarrow> u64 \<Rightarrow> size_t \<Rightarrow> u8 list"
  h_inspection :: "'l \<Rightarrow> inspection"
  h_abi :: "cpu_abi option"
  h_order :: iteration_order

text \<open>The debugger with the rest of its debug model and the cache of values, which the whole process shares.\<close>

record 'l workbench =
  wb_dbg :: "'l debugger"
  wb_spaces :: address_spaces
  wb_cache :: param_cache

definition new_workbench :: "cpu_abi option \<Rightarrow> 'l \<Rightarrow> 'l workbench" where
  "new_workbench abi l = \<lparr>wb_dbg = new_debugger abi l, wb_spaces = no_spaces, wb_cache = Map.empty\<rparr>"

definition on_dbg :: "('l debugger \<Rightarrow> 'l debugger) \<Rightarrow> 'l workbench \<Rightarrow> 'l workbench" where
  "on_dbg f w = w\<lparr>wb_dbg := f (wb_dbg w)\<rparr>"

definition on_lldb :: "('l \<Rightarrow> 'l) \<Rightarrow> 'l workbench \<Rightarrow> 'l workbench" where
  "on_lldb f w = on_dbg (\<lambda>s. s\<lparr>db_lldb := f (db_lldb s)\<rparr>) w"

definition print_out :: "string \<Rightarrow> 'l workbench \<Rightarrow> 'l workbench" where
  "print_out t w = on_dbg (\<lambda>s. s\<lparr>db_out := db_out s @ t\<rparr>) w"

definition process_of :: "'l host \<Rightarrow> 'l workbench \<Rightarrow> lldb_process" where
  "process_of H w = api_process (h_api H) (db_lldb (wb_dbg w))"

text \<open>\<^verbatim>\<open>impl_->process.IsValid()\<close>\<close>

definition process_valid :: "'l host \<Rightarrow> 'l workbench \<Rightarrow> bool" where
  "process_valid H w \<longleftrightarrow> db_process (wb_dbg w) \<and> pr_valid (process_of H w)"

section \<open>Launching, memory, termination\<close>

definition debugger_launch :: "'l host \<Rightarrow> string \<Rightarrow> string list \<Rightarrow> bool \<Rightarrow> 'l workbench \<Rightarrow> bool \<times> 'l workbench" where
  "debugger_launch H host_binary args stop_at_entry w =
     (let (ok, l) = h_create_target H host_binary (db_lldb (wb_dbg w));
          w1 = on_dbg (\<lambda>s. s\<lparr>db_lldb := l, db_target := ok\<rparr>) w
      in if \<not> ok then (False, w1)
         else let l1 = snd (api_by_name (h_api H) True ''clEnqueueNDRangeKernel'' l);
                  (valid, success, l2) = h_launch H args stop_at_entry l1
              in (valid \<and> success, on_dbg (\<lambda>s. s\<lparr>db_lldb := l2, db_process := valid\<rparr>) w1))"

definition debugger_read_memory :: "'l host \<Rightarrow> u64 \<Rightarrow> size_t \<Rightarrow> 'l workbench \<Rightarrow> u8 list" where
  "debugger_read_memory H addr len w = (if \<not> process_valid H w then [] else h_read_memory H (db_lldb (wb_dbg w)) addr len)"

definition terminate_process :: "'l host \<Rightarrow> 'l workbench \<Rightarrow> 'l workbench" where
  "terminate_process H w = (if process_valid H w then on_lldb (h_kill H) w else w)"

definition redirect_output_to_stderr :: "'l workbench \<Rightarrow> 'l workbench" where
  "redirect_output_to_stderr w = on_dbg (\<lambda>s. s\<lparr>db_redirect_stderr := True\<rparr>) w"

section \<open>Inspecting variables\<close>

definition inspect_variables :: "'l host \<Rightarrow> cpu_exec_ctx ocl_work_item \<Rightarrow> 'l workbench \<Rightarrow> (var_value list \<times> 'l workbench) option" where
  "inspect_variables H wi w0 =
     (let w = on_dbg (\<lambda>s. snd (load_kernel_dwarf (h_api H) s)) w0 in
      case resolve_variables (h_inspection H (db_lldb (wb_dbg w))) (exec_ctx wi)
             \<lparr>dbm_dwarf = db_dwarf (wb_dbg w), dbm_spaces = wb_spaces w, dbm_cache = wb_cache w\<rparr> of
        None \<Rightarrow> None
      | Some (vars, d) \<Rightarrow>
          Some (vars, (on_dbg (\<lambda>s. s\<lparr>db_dwarf := dbm_dwarf d\<rparr>) w)\<lparr>wb_spaces := dbm_spaces d, wb_cache := dbm_cache d\<rparr>))"

text \<open>The thread LLDB has selected, or the first stopped one if that one is not stopped.\<close>

definition current_thread :: "lldb_process \<Rightarrow> lldb_thread" where
  "current_thread pr =
     (if \<not> th_valid (pr_selected pr) \<or> th_reason (pr_selected pr) = Stop_none then
        (case find (\<lambda>t. th_valid t \<and> th_reason t \<noteq> Stop_none) (pr_threads pr) of None \<Rightarrow> pr_selected pr | Some t \<Rightarrow> t)
      else pr_selected pr)"

definition current_item :: "'l host \<Rightarrow> lldb_process \<Rightarrow> lldb_thread \<Rightarrow> item_state \<Rightarrow> cpu_exec_ctx ocl_work_item" where
  "current_item H pr t items =
     (case resolve_stopped_work_item (h_abi H) pr (th_id t) items of
        Some wi \<Rightarrow> wi
      | None \<Rightarrow> (set_source_location (selected_or_first_frame t) empty_work_item)
                   \<lparr>exec_ctx := Some (frame_context t (selected_or_first_frame t))\<rparr>)"

definition inspect_current_frame_variables :: "'l host \<Rightarrow> 'l workbench \<Rightarrow> (var_value list \<times> 'l workbench) option" where
  "inspect_current_frame_variables H w0 =
     (let w = on_dbg (use_target (h_api H)) w0 in
      if \<not> db_target (wb_dbg w) then Some ([], w)
      else let w1 = on_dbg (\<lambda>s. s\<lparr>db_process := True\<rparr>) w; pr = process_of H w1 in
        if \<not> pr_valid pr \<or> pr_state pr \<noteq> State_stopped then Some ([], w1)
        else case Option.bind (is_selected (db_items (wb_dbg w1))) (\<lambda>wi. if exec_ctx wi \<noteq> None then Some wi else None) of
          Some wi \<Rightarrow> inspect_variables H wi w1
        | None \<Rightarrow>
            let t = current_thread pr in
            if \<not> th_valid t \<or> \<not> fr_valid (selected_or_first_frame t) then Some ([], w1)
            else inspect_variables H (current_item H pr t (db_items (wb_dbg w1))) w1)"

definition get_variable_value :: "'l host \<Rightarrow> string \<Rightarrow> 'l workbench \<Rightarrow> (var_value option \<times> 'l workbench) option" where
  "get_variable_value H name w =
     map_option (\<lambda>(vars, w1). (find (\<lambda>v. vv_name v = name) vars, w1)) (inspect_current_frame_variables H w)"

section \<open>Printing\<close>

definition variable_line :: "var_value \<Rightarrow> string" where
  "variable_line v = ''  '' @ vv_name v @ '' ('' @ vv_type_name v @ (if vv_address_space v = [] then [] else '' '' @ vv_address_space v)
     @ '') = '' @ (if vv_available v then vv_value_str v else ''<unavailable>'') @ [CHR 0x0A]"

definition inspected_text :: "cpu_exec_ctx ocl_work_item \<Rightarrow> var_value list \<Rightarrow> string" where
  "inspected_text wi vars = ''[ocldbg] Inspecting variables for stopped '' @ work_item_str wi @ '':'' @ [CHR 0x0A]
     @ concat (map variable_line vars)"

definition breakpoint_hit_text :: "u32 \<Rightarrow> cpu_exec_ctx ocl_work_item option \<Rightarrow> size_t \<Rightarrow> var_value list \<Rightarrow> string" where
  "breakpoint_hit_text line wi hit_count vars = ''[ocldbg] Breakpoint hit at line '' @ to_string line @ '' for ''
     @ (case wi of None \<Rightarrow> ''WI(?)'' | Some wi \<Rightarrow> work_item_str wi) @ '' (hit '' @ to_string hit_count @ ''):'' @ [CHR 0x0A]
     @ concat (map variable_line vars)"

section \<open>The tracking loop\<close>

record 'l tracking =
  tk_wb :: "'l workbench"
  tk_dispatches :: size_t
  tk_inspected :: bool
  tk_hits :: size_t

text \<open>\<^verbatim>\<open>StepInto\<close> and \<^verbatim>\<open>StepOver\<close> of a thread: the debuggee runs until it halts.\<close>

definition step_thread :: "'l host \<Rightarrow> nat \<Rightarrow> (u64 \<Rightarrow> 'l \<Rightarrow> 'l) \<Rightarrow> u64 \<Rightarrow> 'l workbench \<Rightarrow> 'l workbench option" where
  "step_thread H n plan tid w =
     map_option (\<lambda>s. w\<lparr>wb_dbg := s\<rparr>) (process_continue (h_api H) n (wb_dbg (on_lldb (plan tid) w)))"

text \<open>Two steps: one into the work-group wrapper, one past its prologue.\<close>

definition step_into_kernel :: "'l host \<Rightarrow> nat \<Rightarrow> u64 \<Rightarrow> 'l workbench \<Rightarrow> 'l workbench option" where
  "step_into_kernel H n tid w =
     (if \<exists>t \<in> set (pr_threads (process_of H w)). th_valid t \<and> th_id t = tid
      then Option.bind (step_thread H n (h_step_into H) tid w) (step_thread H n (h_step_into H) tid) else Some w)"

text \<open>\<open>None\<close> inside is \<^verbatim>\<open>return false\<close>.\<close>

definition line_hit_thread :: "'l host \<Rightarrow> 'l workbench \<Rightarrow> u64 option" where
  "line_hit_thread H w =
     (if \<not> sb_valid (h_api H) (db_lldb (wb_dbg w)) (db_line (wb_dbg w)) then None
      else Option.bind (db_line (wb_dbg w)) (find_line_breakpoint_thread (process_of H w)))"

definition drop_line_breakpoint :: "'l host \<Rightarrow> 'l debugger \<Rightarrow> 'l debugger" where
  "drop_line_breakpoint H s = s\<lparr>db_lldb := sb_delete (h_api H) (db_line s) (db_lldb s), db_line := None\<rparr>"

definition report_line_hit :: "'l host \<Rightarrow> u32 \<Rightarrow> size_t \<Rightarrow> u64 \<Rightarrow> 'l workbench \<Rightarrow> 'l workbench option" where
  "report_line_hit H break_at hits tid w =
     (case resolve_stopped_work_item (h_abi H) (process_of H w) tid (db_items (wb_dbg w)) of
        None \<Rightarrow> Some (print_out (breakpoint_hit_text break_at None hits []) w)
      | Some wi \<Rightarrow> map_option (\<lambda>(vars, w1). print_out (breakpoint_hit_text break_at (Some wi) hits vars) w1) (inspect_variables H wi w))"

definition handle_line_breakpoint :: "'l host \<Rightarrow> u32 \<Rightarrow> size_t \<Rightarrow> 'l tracking \<Rightarrow> (bool \<times> 'l tracking) option" where
  "handle_line_breakpoint H break_at break_for k =
     (case line_hit_thread H (tk_wb k) of
        None \<Rightarrow> Some (False, k)
      | Some tid \<Rightarrow>
          let hits = tk_hits k + 1 in
          map_option (\<lambda>w. (True, k\<lparr>tk_hits := hits,
              tk_wb := (if break_for > 0 \<and> break_for \<le> hits then on_dbg (drop_line_breakpoint H) w else w)\<rparr>))
            (report_line_hit H break_at hits tid (tk_wb k)))"

definition handle_first_dispatch_inspection :: "'l host \<Rightarrow> nat \<Rightarrow> u64 \<Rightarrow> 'l workbench \<Rightarrow> 'l workbench option" where
  "handle_first_dispatch_inspection H n tid w0 =
     Option.bind (step_into_kernel H n tid w0) (\<lambda>w.
      case resolve_stopped_work_item (h_abi H) (process_of H w) tid (db_items (wb_dbg w)) of
        None \<Rightarrow> Some w
      | Some wi \<Rightarrow> map_option (\<lambda>(vars, w1). print_out (inspected_text wi vars) w1) (inspect_variables H wi w))"

definition set_tracker :: "tracker \<Rightarrow> 'l workbench \<Rightarrow> 'l workbench" where
  "set_tracker tr w = on_dbg (\<lambda>s. s\<lparr>db_items := (db_items s)\<lparr>is_tracker := tr\<rparr>\<rparr>) w"

text \<open>After the dispatches of a stop are recorded: set the line breakpoint if there are hits to come, then inspect.\<close>

definition after_dispatch :: "'l host \<Rightarrow> nat \<Rightarrow> bool \<Rightarrow> u32 \<Rightarrow> size_t \<Rightarrow> u64 \<Rightarrow> 'l tracking \<Rightarrow> 'l tracking option" where
  "after_dispatch H n inspect_vars break_at break_for tid k =
     (let w = tk_wb k;
          w1 = (if break_at > 0 \<and> \<not> sb_valid (h_api H) (db_lldb (wb_dbg w)) (db_line (wb_dbg w)) \<and> (break_for = 0 \<or> tk_hits k < break_for)
                then on_dbg (\<lambda>s. snd (set_source_breakpoint (h_api H) break_at s)) w else w)
      in if inspect_vars \<and> \<not> tk_inspected k \<and> tid \<noteq> 0
         then map_option (\<lambda>w2. k\<lparr>tk_wb := w2, tk_inspected := True\<rparr>) (handle_first_dispatch_inspection H n tid w1)
         else Some (k\<lparr>tk_wb := w1\<rparr>))"

text \<open>The body of the loop after \<^verbatim>\<open>Continue\<close>: whether to leave it.\<close>

definition track_stop :: "'l host \<Rightarrow> nat \<Rightarrow> cpu_abi \<Rightarrow> bool \<Rightarrow> u32 \<Rightarrow> size_t \<Rightarrow> 'l tracking \<Rightarrow> (bool \<times> 'l tracking) option" where
  "track_stop H n abi inspect_vars break_at break_for k =
     (if pr_state (process_of H (tk_wb k)) \<in> {State_exited, State_crashed} then Some (True, k)
      else if pr_state (process_of H (tk_wb k)) \<noteq> State_stopped then Some (False, k)
      else case handle_line_breakpoint H break_at break_for k of
        None \<Rightarrow> None
      | Some (True, k1) \<Rightarrow> Some (False, k1)
      | Some (False, k1) \<Rightarrow>
          let (any, ds) = record_dispatches abi (pr_threads (process_of H (tk_wb k1)))
                 \<lparr>ds_tracker = is_tracker (db_items (wb_dbg (tk_wb k1))), ds_count = tk_dispatches k1, ds_first = 0\<rparr>;
              k2 = k1\<lparr>tk_wb := set_tracker (ds_tracker ds) (tk_wb k1), tk_dispatches := ds_count ds\<rparr>
          in if \<not> any then Some (True, k2)
             else map_option (Pair False) (after_dispatch H n inspect_vars break_at break_for (ds_first ds) k2))"

fun track_loop :: "'l host \<Rightarrow> cpu_abi \<Rightarrow> bool \<Rightarrow> u32 \<Rightarrow> size_t \<Rightarrow> nat \<Rightarrow> 'l tracking \<Rightarrow> 'l tracking option" where
  "track_loop H abi inspect_vars break_at break_for 0 k = None"
| "track_loop H abi inspect_vars break_at break_for (Suc n) k =
     (case process_continue (h_api H) n (wb_dbg (tk_wb k)) of
        None \<Rightarrow> None
      | Some s \<Rightarrow>
          (case track_stop H n abi inspect_vars break_at break_for (k\<lparr>tk_wb := (tk_wb k)\<lparr>wb_dbg := s\<rparr>\<rparr>) of
             None \<Rightarrow> None
           | Some (True, k1) \<Rightarrow> Some k1
           | Some (False, k1) \<Rightarrow> track_loop H abi inspect_vars break_at break_for n k1))"

definition delete_if_valid :: "'l host \<Rightarrow> ('l debugger \<Rightarrow> int option) \<Rightarrow> 'l workbench \<Rightarrow> 'l workbench" where
  "delete_if_valid H handle w = on_dbg (\<lambda>s. if sb_valid (h_api H) (db_lldb s) (handle s)
     then s\<lparr>db_lldb := sb_delete (h_api H) (handle s) (db_lldb s)\<rparr> else s) w"

text \<open>\<^verbatim>\<open>set_workgroup_breakpoint\<close> is called unless its breakpoint is still valid; \<open>None\<close> inside is \<^verbatim>\<open>return 0\<close>.\<close>

definition track_start :: "'l host \<Rightarrow> 'l workbench \<Rightarrow> 'l workbench \<times> cpu_abi option" where
  "track_start H w =
     (if \<not> process_valid H w \<or> is_abi (db_items (wb_dbg w)) = None then (w, None)
      else let (ok, s) = (if sb_valid (h_api H) (db_lldb (wb_dbg w)) (db_wg (wb_dbg w)) then (True, wb_dbg w)
             else set_workgroup_breakpoint (h_api H) (db_kernel_name (wb_dbg w)) (wb_dbg w))
           in (w\<lparr>wb_dbg := s\<rparr>, if ok then is_abi (db_items s) else None))"

definition track_workgroup_dispatches :: "'l host \<Rightarrow> nat \<Rightarrow> bool \<Rightarrow> u32 \<Rightarrow> size_t \<Rightarrow> 'l workbench \<Rightarrow> (size_t \<times> 'l tracking) option" where
  "track_workgroup_dispatches H n inspect_vars break_at break_for w0 =
     (case track_start H w0 of
        (w, None) \<Rightarrow> Some (0, \<lparr>tk_wb = w, tk_dispatches = 0, tk_inspected = False, tk_hits = 0\<rparr>)
      | (w, Some abi) \<Rightarrow>
          map_option (\<lambda>k. (tk_dispatches k, k\<lparr>tk_wb := delete_if_valid H db_wg (delete_if_valid H db_line (tk_wb k))\<rparr>))
            (track_loop H abi inspect_vars break_at break_for n
               \<lparr>tk_wb = set_tracker (clear (is_tracker (db_items (wb_dbg w)))) w, tk_dispatches = 0, tk_inspected = False, tk_hits = 0\<rparr>))"

section \<open>How many hits are reported\<close>

abbreviation line_of :: "'l workbench \<Rightarrow> int option" where
  "line_of w \<equiv> db_line (wb_dbg w)"

lemma process_continue_line: "process_continue A n s = Some s' \<Longrightarrow> db_line s' = db_line s"
proof (induction A n s rule: process_continue.induct)
  case (2 A n s)
  obtain ev l where e: "api_next A (db_lldb s) = (ev, l)" by fastforce
  show ?case
  proof (cases ev)
    case (Callback i t)
    with "2.IH" [OF e [symmetric] refl Callback] "2.prems" e show ?thesis
      by (simp add: Let_def debugger_frame split: if_splits)
  qed (use "2.prems" e in \<open>auto simp: Let_def\<close>)
qed simp

lemma on_dbg_simps [simp]: "wb_dbg (on_dbg f w) = f (wb_dbg w)"
  by (simp add: on_dbg_def)

lemma line_of_print [simp]: "line_of (print_out t w) = line_of w"
  by (simp add: print_out_def)

lemma line_of_tracker [simp]: "line_of (set_tracker tr w) = line_of w"
  by (simp add: set_tracker_def)

lemma line_of_step: "step_thread H n plan tid w = Some w' \<Longrightarrow> line_of w' = line_of w"
  by (auto simp: step_thread_def on_lldb_def dest: process_continue_line)

lemma line_of_inspect: "inspect_variables H wi w = Some (vars, w') \<Longrightarrow> line_of w' = line_of w"
  by (auto simp: inspect_variables_def Let_def debugger_frame split: option.splits)

lemma line_of_report: "report_line_hit H break_at hits tid w = Some w' \<Longrightarrow> line_of w' = line_of w"
  by (auto simp: report_line_hit_def dest: line_of_inspect split: option.splits)

lemma line_of_first: "handle_first_dispatch_inspection H n tid w = Some w' \<Longrightarrow> line_of w' = line_of w"
  by (auto simp: handle_first_dispatch_inspection_def step_into_kernel_def bind_eq_Some_conv
      dest!: line_of_inspect line_of_step split: option.splits if_splits)

text \<open>The number of hits stays within the limit, and at the limit there is no line breakpoint left.\<close>

definition within_limit :: "size_t \<Rightarrow> 'l tracking \<Rightarrow> bool" where
  "within_limit break_for k \<longleftrightarrow> tk_hits k \<le> break_for \<and> (tk_hits k = break_for \<longrightarrow> line_of (tk_wb k) = None)"

lemma within_limit_hit:
  assumes "within_limit break_for k" "0 < break_for" "handle_line_breakpoint H break_at break_for k = Some (r, k')"
  shows "within_limit break_for k'"
proof (cases "line_hit_thread H (tk_wb k)")
  case None
  with assms show ?thesis by (simp add: handle_line_breakpoint_def)
next
  case (Some tid)
  then have "line_of (tk_wb k) \<noteq> None" by (auto simp: line_hit_thread_def sb_valid_def split: if_splits option.splits)
  with assms(1) have lt: "tk_hits k < break_for" by (auto simp: within_limit_def)
  then have le: "tk_hits k + 1 \<le> break_for" by (rule inc_le)
  obtain w where "k' = k\<lparr>tk_hits := tk_hits k + 1,
      tk_wb := (if break_for > 0 \<and> break_for \<le> tk_hits k + 1 then on_dbg (drop_line_breakpoint H) w else w)\<rparr>"
    using assms(3) Some by (auto simp: handle_line_breakpoint_def Let_def)
  with le assms(2) show ?thesis by (auto simp: within_limit_def drop_line_breakpoint_def)
qed

lemma within_limit_after:
  assumes "within_limit break_for k" "0 < break_for" "after_dispatch H n iv break_at break_for tid k = Some k'"
  shows "within_limit break_for k'"
proof -
  let ?w = "tk_wb k"
  let ?w1 = "if break_at > 0 \<and> \<not> sb_valid (h_api H) (db_lldb (wb_dbg ?w)) (db_line (wb_dbg ?w)) \<and> (break_for = 0 \<or> tk_hits k < break_for)
     then on_dbg (\<lambda>s. snd (set_source_breakpoint (h_api H) break_at s)) ?w else ?w"
  have w1: "tk_hits k = break_for \<longrightarrow> line_of ?w1 = None" using assms(1,2) by (auto simp: within_limit_def)
  have "tk_hits k' = tk_hits k \<and> line_of (tk_wb k') = line_of ?w1"
    using assms(3) by (auto simp: after_dispatch_def Let_def dest: line_of_first split: if_splits)
  with w1 assms(1) show ?thesis by (simp add: within_limit_def)
qed

lemma within_limit_stop:
  assumes "within_limit break_for k" "0 < break_for" "track_stop H n abi iv break_at break_for k = Some (r, k')"
  shows "within_limit break_for k'"
proof (cases "pr_state (process_of H (tk_wb k)) = State_stopped")
  case False
  with assms show ?thesis by (auto simp: track_stop_def split: if_splits)
next
  case True
  then obtain b k1 where h: "handle_line_breakpoint H break_at break_for k = Some (b, k1)"
    using assms(3) by (auto simp: track_stop_def split: option.splits)
  note k1 = within_limit_hit [OF assms(1,2) h]
  show ?thesis
  proof (cases b)
    case True
    with h assms(3) k1 \<open>pr_state _ = _\<close> show ?thesis by (simp add: track_stop_def)
  next
    case False
    obtain any ds where ds: "record_dispatches abi (pr_threads (process_of H (tk_wb k1)))
       \<lparr>ds_tracker = is_tracker (db_items (wb_dbg (tk_wb k1))), ds_count = tk_dispatches k1, ds_first = 0\<rparr> = (any, ds)" by fastforce
    let ?k2 = "k1\<lparr>tk_wb := set_tracker (ds_tracker ds) (tk_wb k1), tk_dispatches := ds_count ds\<rparr>"
    have k2: "within_limit break_for ?k2" using k1 by (simp add: within_limit_def)
    with h False ds True assms(3) within_limit_after [OF k2 assms(2)] show ?thesis
      by (auto simp: track_stop_def Let_def split: if_splits)
  qed
qed

lemma within_limit_loop:
  "track_loop H abi iv break_at break_for n k = Some k' \<Longrightarrow> 0 < break_for \<Longrightarrow> within_limit break_for k \<Longrightarrow> within_limit break_for k'"
proof (induction n arbitrary: k)
  case (Suc n)
  obtain s where s: "process_continue (h_api H) n (wb_dbg (tk_wb k)) = Some s"
    using Suc.prems(1) by (auto split: option.splits)
  let ?k = "k\<lparr>tk_wb := (tk_wb k)\<lparr>wb_dbg := s\<rparr>\<rparr>"
  have k: "within_limit break_for ?k" using process_continue_line [OF s] Suc.prems(3) by (simp add: within_limit_def)
  obtain r k1 where t: "track_stop H n abi iv break_at break_for ?k = Some (r, k1)"
    using Suc.prems(1) s by (auto split: option.splits)
  have "within_limit break_for k1" by (rule within_limit_stop [OF k Suc.prems(2) t])
  with Suc s t show ?case by (cases r) auto
qed simp

lemma delete_if_valid_gone:
  assumes "lawful_lldb (h_api H) nid" "\<And>s l. handle (s\<lparr>db_lldb := l\<rparr>) = handle s"
  shows "\<not> sb_valid (h_api H) (db_lldb (wb_dbg (delete_if_valid H handle w))) (handle (wb_dbg (delete_if_valid H handle w)))"
    and "\<not> sb_valid (h_api H) (db_lldb (wb_dbg w)) b \<Longrightarrow> \<not> sb_valid (h_api H) (db_lldb (wb_dbg (delete_if_valid H handle w))) b"
  using assms by (auto simp: delete_if_valid_def sb_valid_def sb_delete_def lawful_lldb_def split: option.splits)


text \<open>A run that stops at the line breakpoint and then ends.\<close>

definition line_process :: lldb_process where
  "line_process = enqueue_process\<lparr>pr_threads := [idle_thread\<lparr>th_reason := Stop_breakpoint, th_reason_data := 1\<rparr>]\<rparr>"

definition demo_host :: "demo_lldb host" where
  "demo_host = \<lparr>h_api = demo_api [] None, h_create_target = (\<lambda>b d. (True, d)),
     h_launch = (\<lambda>args e d. (True, True, d)), h_step_into = (\<lambda>t d. d), h_step_over = (\<lambda>t d. d),
     h_kill = (\<lambda>d. d), h_read_memory = (\<lambda>d a n. []), h_inspection = (\<lambda>d. demo_inspection), h_abi = Some x86_abi, h_order = (\<lambda>t. [])\<rparr>"

definition tracked_bench :: "demo_lldb workbench" where
  "tracked_bench = on_dbg (\<lambda>s. s\<lparr>db_process := True, db_target := True, db_line := Some 1, db_wg := Some 2\<rparr>)
     (new_workbench (Some x86_abi) ((demo_start [(Halted, line_process)])\<lparr>demo_next := 3, demo_live := [(1, 0x10), (2, 0x20)]\<rparr>))"

lemma four_steps: "4 = Suc (Suc (Suc (Suc 0)))"
  by simp

lemma tracked_run:
  "\<exists>k. track_workgroup_dispatches demo_host 4 False 3 1 tracked_bench = Some (0, k) \<and> tk_hits k = 1 \<and> snd (track_start demo_host tracked_bench) \<noteq> None"
  by (simp add: track_workgroup_dispatches_def track_start_def tracked_bench_def new_workbench_def new_debugger_def on_dbg_def
      process_valid_def process_of_def demo_host_def demo_api_def demo_start_def sb_valid_def new_item_state_def four_steps
      set_tracker_def demo_step_def track_stop_def handle_line_breakpoint_def line_hit_thread_def find_line_breakpoint_thread_def
      line_process_def enqueue_process_def idle_thread_def report_line_hit_def resolve_stopped_work_item_def print_out_def
      drop_line_breakpoint_def sb_delete_def delete_if_valid_def Let_def)


end
