(* ===== verification/PoclBackend.thy ===== *)
theory PoclBackend
  imports Tracking
begin

text \<open>
  The execution control of \<^verbatim>\<open>ocldbg/backends/cpu/PoclCPUBackend.cpp\<close>: the \<^verbatim>\<open>Backend\<close> operations over
  a \<^verbatim>\<open>DebuggerContext\<close> that \<^verbatim>\<open>launch\<close> creates.  The third component of an operation that runs the
  debuggee is what the stop callback is given, if it is called; a result \<open>None\<close> is fuel that ran out.
\<close>

section \<open>The operations\<close>

record 'l pocl =
  pb_dbg :: "'l workbench option"
  pb_pending :: "(u64, source_location) omap"
  pb_next_bp_id :: u64
  pb_launched :: bool
  pb_halted :: bool

definition new_pocl :: "'l pocl" where
  "new_pocl = \<lparr>pb_dbg = None, pb_pending = [], pb_next_bp_id = 1, pb_launched = False, pb_halted = False\<rparr>"

type_synonym pocl_stop = "cpu_exec_ctx ocl_stop_context option"

text \<open>What \<^verbatim>\<open>list_stopped_work_items\<close> and \<^verbatim>\<open>select_work_item\<close> begin with: the target, and its process.\<close>

definition use_process :: "'l lldb_api \<Rightarrow> 'l debugger \<Rightarrow> 'l debugger" where
  "use_process A s = (let s1 = use_target A s in if db_target s1 then s1\<lparr>db_process := True\<rparr> else s1)"

definition stop_items :: "'l host \<Rightarrow> 'l workbench \<Rightarrow> cpu_exec_ctx ocl_work_item list \<times> 'l workbench" where
  "stop_items H w =
     (let s = use_process (h_api H) (wb_dbg w);
          (items, st) = list_stopped_work_items (db_target s) (process_of H w) (db_items s)
      in (items, w\<lparr>wb_dbg := set_items st s\<rparr>))"

definition notify_stop :: "'l host \<Rightarrow> 'l pocl \<Rightarrow> 'l pocl \<times> pocl_stop" where
  "notify_stop H p =
     (case pb_dbg p of
        None \<Rightarrow> (p, None)
      | Some w \<Rightarrow>
          (case stop_items H w of
             ([], w1) \<Rightarrow> (p\<lparr>pb_dbg := Some w1\<rparr>, None)
           | (i # items, w1) \<Rightarrow> (p\<lparr>pb_dbg := Some w1, pb_halted := True\<rparr>, Some \<lparr>stopped = i, visible = items\<rparr>)))"

fun add_pending :: "'l host \<Rightarrow> (u64 \<times> source_location) list \<Rightarrow> 'l debugger \<Rightarrow> 'l debugger" where
  "add_pending H [] s = s"
| "add_pending H ((i, loc) # bps) s = add_pending H bps (snd (add_ocl_breakpoint (h_api H) (loc_file loc) (loc_line loc) s))"

text \<open>\<open>l\<close> is the state LLDB is in when the debugger is created.\<close>

definition pocl_launch :: "'l host \<Rightarrow> 'l \<Rightarrow> string \<Rightarrow> string list \<Rightarrow> 'l pocl \<Rightarrow> bool \<times> 'l pocl" where
  "pocl_launch H l host_binary args p =
     (let w0 = (case pb_dbg p of None \<Rightarrow> new_workbench (h_abi H) l | Some w \<Rightarrow> w);
          w1 = on_dbg (add_pending H (pb_pending p)) (redirect_output_to_stderr w0);
          (ok, w2) = debugger_launch H host_binary args True w1
      in if \<not> ok then (False, p\<lparr>pb_dbg := Some w2\<rparr>)
         else let w3 = on_dbg (\<lambda>s. snd (set_workgroup_breakpoint (h_api H) [] s)) w2;
                  w4 = on_dbg (ensure_ocl_trampoline (h_api H)) w3;
                  w5 = on_dbg (\<lambda>s. snd (resolve_pending_ocl_breakpoints (h_api H) s)) w4
              in (True, p\<lparr>pb_dbg := Some w5, pb_launched := True\<rparr>))"

definition pocl_detach :: "'l host \<Rightarrow> 'l pocl \<Rightarrow> 'l pocl" where
  "pocl_detach H p = p\<lparr>pb_dbg := map_option (terminate_process H) (pb_dbg p), pb_launched := False, pb_halted := False\<rparr>"

definition pocl_set_breakpoint :: "'l host \<Rightarrow> source_location \<Rightarrow> 'l pocl \<Rightarrow> u64 \<times> 'l pocl" where
  "pocl_set_breakpoint H loc p =
     (let i = pb_next_bp_id p in
      (i, p\<lparr>pb_next_bp_id := i + 1, pb_pending := om_insert i loc (pb_pending p),
            pb_dbg := map_option (on_dbg (\<lambda>s. snd (add_ocl_breakpoint (h_api H) (loc_file loc) (loc_line loc) s))) (pb_dbg p)\<rparr>))"

definition pocl_remove_breakpoint :: "'l host \<Rightarrow> u64 \<Rightarrow> 'l pocl \<Rightarrow> 'l pocl" where
  "pocl_remove_breakpoint H i p =
     p\<lparr>pb_pending := om_erase i (pb_pending p),
       pb_dbg := map_option (on_dbg (\<lambda>s. snd (delete_ocl_breakpoint (h_api H) i s))) (pb_dbg p)\<rparr>"

definition pocl_resume :: "'l host \<Rightarrow> nat \<Rightarrow> 'l pocl \<Rightarrow> ('l pocl \<times> pocl_stop) option" where
  "pocl_resume H n p =
     (case pb_dbg p of
        None \<Rightarrow> Some (p, None)
      | Some w \<Rightarrow>
          (case continue_execution (h_api H) n (wb_dbg w) of
             None \<Rightarrow> None
           | Some (r, s) \<Rightarrow>
               let p1 = p\<lparr>pb_halted := False, pb_dbg := Some (w\<lparr>wb_dbg := s\<rparr>)\<rparr>
               in Some (if r then notify_stop H p1 else (p1, None))))"

text \<open>
  The thread of a context is valid while the process has it.  Stepping does not need the debugger: a context
  can only come from one, so that without one there is none.
\<close>

definition pocl_step :: "'l host \<Rightarrow> nat \<Rightarrow> (u64 \<Rightarrow> 'l \<Rightarrow> 'l) \<Rightarrow> cpu_exec_ctx ocl_work_item \<Rightarrow> 'l pocl \<Rightarrow> ('l pocl \<times> pocl_stop) option" where
  "pocl_step H n plan wi p =
     (case (pb_dbg p, exec_ctx wi) of
        (Some w, Some ctx) \<Rightarrow>
          if ctx_frame ctx \<noteq> None \<and> (\<exists>t \<in> set (pr_threads (process_of H w)). th_valid t \<and> th_id t = host_thread_id ctx)
          then map_option (\<lambda>w1. notify_stop H (p\<lparr>pb_dbg := Some w1\<rparr>)) (step_thread H n plan (host_thread_id ctx) w)
          else Some (p, None)
      | _ \<Rightarrow> Some (p, None))"

definition pocl_step_over :: "'l host \<Rightarrow> nat \<Rightarrow> cpu_exec_ctx ocl_work_item \<Rightarrow> 'l pocl \<Rightarrow> ('l pocl \<times> pocl_stop) option" where
  "pocl_step_over H n wi p = pocl_step H n (h_step_over H) wi p"

definition pocl_step_in :: "'l host \<Rightarrow> nat \<Rightarrow> cpu_exec_ctx ocl_work_item \<Rightarrow> 'l pocl \<Rightarrow> ('l pocl \<times> pocl_stop) option" where
  "pocl_step_in H n wi p = pocl_step H n (h_step_into H) wi p"

definition pocl_select_work_item :: "'l host \<Rightarrow> size3 \<Rightarrow> 'l pocl \<Rightarrow> cpu_exec_ctx ocl_work_item option \<times> 'l pocl" where
  "pocl_select_work_item H gid p =
     (case pb_dbg p of
        None \<Rightarrow> (None, p)
      | Some w \<Rightarrow>
          let s = use_process (h_api H) (wb_dbg w);
              (ok, items) = select_work_item (h_order H) (db_target s) (process_of H w) gid (db_items s);
              p1 = p\<lparr>pb_dbg := Some (w\<lparr>wb_dbg := set_items items s\<rparr>)\<rparr>
          in (if ok then is_selected items else None, p1))"

definition pocl_read_global_memory :: "'l host \<Rightarrow> u64 \<Rightarrow> size_t \<Rightarrow> 'l pocl \<Rightarrow> u8 list" where
  "pocl_read_global_memory H addr len p = (case pb_dbg p of None \<Rightarrow> [] | Some w \<Rightarrow> debugger_read_memory H addr len w)"

section \<open>The breakpoints of the backend and of the debugger\<close>

text \<open>What a front end can ask of a launched backend, and before.\<close>

datatype pocl_request = Set_breakpoint source_location | Remove_breakpoint u64 | Resume
  | Step_over "cpu_exec_ctx ocl_work_item" | Step_in "cpu_exec_ctx ocl_work_item" | Select size3 | Detach

fun pocl_call :: "'l host \<Rightarrow> nat \<Rightarrow> pocl_request \<Rightarrow> 'l pocl \<Rightarrow> 'l pocl option" where
  "pocl_call H n (Set_breakpoint loc) p = Some (snd (pocl_set_breakpoint H loc p))"
| "pocl_call H n (Remove_breakpoint i) p = Some (pocl_remove_breakpoint H i p)"
| "pocl_call H n Resume p = map_option fst (pocl_resume H n p)"
| "pocl_call H n (Step_over wi) p = map_option fst (pocl_step_over H n wi p)"
| "pocl_call H n (Step_in wi) p = map_option fst (pocl_step_in H n wi p)"
| "pocl_call H n (Select gid) p = Some (snd (pocl_select_work_item H gid p))"
| "pocl_call H n Detach p = Some (pocl_detach H p)"

fun pocl_calls :: "'l host \<Rightarrow> nat \<Rightarrow> pocl_request list \<Rightarrow> 'l pocl \<Rightarrow> 'l pocl option" where
  "pocl_calls H n [] p = Some p"
| "pocl_calls H n (c # cs) p = Option.bind (pocl_call H n c p) (pocl_calls H n cs)"

definition same_book :: "'l debugger \<Rightarrow> 'l debugger \<Rightarrow> bool" where
  "same_book s s' \<longleftrightarrow> table_entries s' = table_entries s \<and> db_next_id s' = db_next_id s"

lemma same_book_refl [simp]: "same_book s s"
  by (simp add: same_book_def)

lemma same_book_trans: "same_book s1 s2 \<Longrightarrow> same_book s s1 \<Longrightarrow> same_book s s2"
  by (simp add: same_book_def)

lemma same_book_call: "same_book s (call_debugger A c s)"
  by (simp add: same_book_def call_debugger_entries)

lemmas same_book_ops = same_book_call [of _ _ Resolve_pending, simplified] same_book_call [of _ _ "Trampoline_hit t" for t, simplified]
  same_book_call [of _ _ Ensure_trampoline, simplified] same_book_call [of _ _ "Set_workgroup n" for n, simplified]

lemma same_book_items [simp]: "same_book s (set_items i s) = True" "same_book s (s\<lparr>db_lldb := l\<rparr>) = True"
  "same_book s (s\<lparr>db_kernel_name := k\<rparr>) = True" "same_book s (s\<lparr>db_process := b\<rparr>) = True" "same_book s (s\<lparr>db_target := b\<rparr>) = True"
  "same_book s (s\<lparr>db_redirect_stderr := b\<rparr>) = True"
  by (simp_all add: same_book_def set_items_def table_entries_def)

lemma same_book_target: "same_book s (use_target A s)"
  by (simp add: same_book_def table_entries_def debugger_frame)

lemma same_book_continue: "process_continue A n s = Some s' \<Longrightarrow> same_book s s'"
proof (induction A n s rule: process_continue.induct)
  case (2 A n s)
  obtain ev l where e: "api_next A (db_lldb s) = (ev, l)" by fastforce
  show ?case
  proof (cases ev)
    case (Callback i t)
    let ?s = "s\<lparr>db_lldb := l\<rparr>"
    have "same_book ?s s'"
      using "2.IH" [OF e [symmetric] refl Callback] "2.prems" e Callback same_book_trans [OF _ same_book_ops(2)]
      by (auto simp: Let_def split: if_splits)
    then show ?thesis using same_book_trans [of ?s s' s] by simp
  next
    case Halted
    with "2.prems" e have "s' = s\<lparr>db_lldb := l\<rparr>" by (simp add: Let_def)
    then show ?thesis by simp
  qed
qed simp

lemma same_book_launch: "same_book s (note_launch A s)"
proof -
  obtain ok name items where i: "infer_kernel_launch (api_process A (db_lldb s)) (db_kernel_name s) (db_items s) = (ok, name, items)"
    by (metis prod_cases3)
  let ?s1 = "(set_items items s)\<lparr>db_kernel_name := name\<rparr>"
  let ?s2 = "if name \<noteq> [] then snd (set_workgroup_breakpoint A name ?s1) else ?s1"
  have "same_book s ?s1" using same_book_trans [of "set_items items s" ?s1 s] by simp
  then have "same_book s ?s2" using same_book_trans [OF same_book_ops(4)] by (cases "name = []") simp_all
  from same_book_trans [OF same_book_ops(3) this] show ?thesis by (simp add: note_launch_def i Let_def)
qed

lemma same_book_stop: "continue_stop A s = (r, s') \<Longrightarrow> same_book s s'"
proof -
  assume c: "continue_stop A s = (r, s')"
  let ?s1 = "snd (resolve_pending_ocl_breakpoints A (note_launch A (record_stop A s)))"
  have "same_book s (record_stop A s)" by (simp add: record_stop_def)
  from same_book_trans [OF same_book_ops(1) same_book_trans [OF same_book_launch this]] have 1: "same_book s ?s1" .
  moreover have "same_book s (set_items i ?s1)" for i using same_book_trans [OF _ 1] by simp
  ultimately show ?thesis using c by (auto simp: continue_stop_def Let_def split: if_splits prod.splits)
qed

lemma same_book_loop: "continue_loop A n s = Some (r, s') \<Longrightarrow> same_book s s'"
proof (induction n arbitrary: s)
  case (Suc n)
  obtain s1 where 1: "process_continue A n s = Some s1" using Suc.prems by (auto split: option.splits)
  obtain r1 s2 where 2: "continue_stop A s1 = (r1, s2)" by fastforce
  from same_book_trans [OF same_book_stop [OF 2] same_book_continue [OF 1]] have "same_book s s2" .
  with Suc 1 2 show ?case by (cases r1) (auto intro: same_book_trans)
qed simp

lemma same_book_execution: "continue_execution A n s = Some (r, s') \<Longrightarrow> same_book s s'"
proof -
  assume c: "continue_execution A n s = Some (r, s')"
  let ?s1 = "(use_target A s)\<lparr>db_process := True\<rparr>"
  have 1: "same_book s ?s1" using same_book_trans [of "use_target A s" ?s1 s, OF _ same_book_target] by simp
  have "same_book s (ensure_ocl_trampoline A ?s1)" by (rule same_book_trans [OF same_book_ops(3) 1])
  then show ?thesis using c 1 same_book_target [of s A]
    by (auto simp: continue_execution_def Let_def split: if_splits dest: same_book_loop intro: same_book_trans)
qed

lemma same_book_process: "same_book s (use_process A s)"
  using same_book_trans [of "use_target A s" "(use_target A s)\<lparr>db_process := True\<rparr>" s, OF _ same_book_target]
  by (simp add: use_process_def Let_def same_book_target)

text \<open>Where the backend's map and the debugger's table agree.\<close>

definition entries_of_pending :: "(u64, source_location) omap \<Rightarrow> (size_t \<times> string) list" where
  "entries_of_pending m = map (\<lambda>e. (fst e, loc_file (snd e))) m"

definition books_agree :: "'l pocl \<Rightarrow> bool" where
  "books_agree p \<longleftrightarrow> (\<exists>w. pb_dbg p = Some w \<and> table_entries (wb_dbg w) = entries_of_pending (pb_pending p)
      \<and> db_next_id (wb_dbg w) = pb_next_bp_id p)
    \<and> sorted_wrt (<) (map fst (pb_pending p)) \<and> (\<forall>i \<in> fst ` set (pb_pending p). i < pb_next_bp_id p)"

lemma books_agree_keep:
  assumes "books_agree p" "pb_dbg p = Some w" "same_book (wb_dbg w) (wb_dbg w')"
    "pb_dbg p' = Some w'" "pb_pending p' = pb_pending p" "pb_next_bp_id p' = pb_next_bp_id p"
  shows "books_agree p'"
  using assms by (simp add: books_agree_def same_book_def)

lemma same_book_use_items: "same_book s (set_items st (use_process A s))"
  by (rule same_book_trans [of "use_process A s" _ s, OF _ same_book_process]) simp

lemma same_book_stop_items: "stop_items H w = (items, w') \<Longrightarrow> same_book (wb_dbg w) (wb_dbg w')"
  by (auto simp: stop_items_def Let_def same_book_use_items split: prod.splits)

lemma books_agree_notify:
  assumes "books_agree p"
  shows "books_agree (fst (notify_stop H p))"
proof -
  obtain w where w: "pb_dbg p = Some w" using assms by (auto simp: books_agree_def)
  obtain items w1 where i: "stop_items H w = (items, w1)" by fastforce
  from books_agree_keep [OF assms w same_book_stop_items [OF i]] show ?thesis
    by (cases items) (simp_all add: notify_stop_def w i)
qed

lemma om_insert_last: "\<forall>e \<in> set m. fst e < k \<Longrightarrow> om_insert k v m = m @ [(k, v)]"
  by (induction m) auto

lemma om_erase_first: "distinct (map fst m) \<Longrightarrow> entries_of_pending (om_erase k m) = remove_first k (entries_of_pending m)"
proof -
  assume "distinct (map fst m)"
  then have "distinct (map fst (entries_of_pending m))" by (simp add: entries_of_pending_def comp_def)
  from remove_first_filter [OF this] show ?thesis
    by (simp add: entries_of_pending_def om_erase_def filter_map comp_def)
qed

lemma books_agree_set:
  assumes "books_agree p" "unat (pb_next_bp_id p) + 1 < 2 ^ 64"
  shows "books_agree (snd (pocl_set_breakpoint H loc p))"
proof -
  obtain w where w: "pb_dbg p = Some w" "table_entries (wb_dbg w) = entries_of_pending (pb_pending p)"
    "db_next_id (wb_dbg w) = pb_next_bp_id p" using assms(1) by (auto simp: books_agree_def)
  let ?i = "pb_next_bp_id p"
  have lt: "\<forall>e \<in> set (pb_pending p). fst e < ?i" using assms(1) by (auto simp: books_agree_def)
  have "?i < ?i + 1" using assms(2) by (simp add: word_less_nat_alt unat_plus_no_wrap)
  then have "\<forall>i \<in> insert ?i (fst ` set (pb_pending p)). i < ?i + 1" using lt by (auto intro: less_trans)
  then show ?thesis using w assms(1) om_insert_last [OF lt, of loc] lt
    by (auto simp: books_agree_def pocl_set_breakpoint_def Let_def add_entry_frame entries_of_pending_def sorted_wrt_append)
qed

lemma books_agree_remove:
  assumes "books_agree p"
  shows "books_agree (pocl_remove_breakpoint H i p)"
proof -
  obtain w where w: "pb_dbg p = Some w" "table_entries (wb_dbg w) = entries_of_pending (pb_pending p)"
    "db_next_id (wb_dbg w) = pb_next_bp_id p" using assms by (auto simp: books_agree_def)
  have d: "distinct (map fst (pb_pending p))" using assms by (simp add: books_agree_def om_ok_distinct)
  have "sorted_wrt (<) (map fst (om_erase i (pb_pending p)))" using assms by (simp add: books_agree_def)
  with w assms om_erase_first [OF d] show ?thesis
    by (auto simp: books_agree_def pocl_remove_breakpoint_def ocl_table.remove_entry ocl_table.remove_key keys_om_erase)
qed

lemma books_agree_step:
  assumes "books_agree p" "pocl_step H n plan wi p = Some (p', st)"
  shows "books_agree p'"
proof -
  obtain w where w: "pb_dbg p = Some w" using assms(1) by (auto simp: books_agree_def)
  have "books_agree (fst (notify_stop H (p\<lparr>pb_dbg := Some w1\<rparr>)))" if st: "step_thread H n plan tid w = Some w1" for tid w1
  proof (rule books_agree_notify [OF books_agree_keep [OF assms(1) w]])
    obtain s where "process_continue (h_api H) n (wb_dbg (on_lldb (plan tid) w)) = Some s" "w1 = w\<lparr>wb_dbg := s\<rparr>"
      using st by (auto simp: step_thread_def)
    with same_book_trans [OF same_book_continue, of "h_api H" n "wb_dbg (on_lldb (plan tid) w)" s "wb_dbg w"]
    show "same_book (wb_dbg w) (wb_dbg w1)" by (simp add: on_lldb_def)
  qed simp_all
  with assms w show ?thesis by (auto simp: pocl_step_def split: option.splits if_splits) (metis fst_conv)
qed

lemma books_agree_call:
  assumes "books_agree p" "unat (pb_next_bp_id p) + 1 < 2 ^ 64" "pocl_call H n c p = Some p'"
  shows "books_agree p'"
proof -
  obtain w where w: "pb_dbg p = Some w" using assms(1) by (auto simp: books_agree_def)
  note step = books_agree_step [OF assms(1)]
  show ?thesis
  proof (cases c)
    case (Set_breakpoint loc)
    with books_agree_set [OF assms(1,2)] assms(3) show ?thesis by auto
  next
    case (Remove_breakpoint i)
    with books_agree_remove [OF assms(1)] assms(3) show ?thesis by auto
  next
    case Resume
    obtain r s where c: "continue_execution (h_api H) n (wb_dbg w) = Some (r, s)"
      using assms(3) Resume w by (auto simp: pocl_resume_def split: option.splits)
    let ?p = "p\<lparr>pb_halted := False, pb_dbg := Some (w\<lparr>wb_dbg := s\<rparr>)\<rparr>"
    have "books_agree ?p" by (rule books_agree_keep [OF assms(1) w]) (simp_all add: same_book_execution [OF c])
    with books_agree_notify [OF this, of H] assms(3) Resume w c show ?thesis by (auto simp: pocl_resume_def Let_def split: if_splits)
  next
    case (Step_over wi)
    with step assms(3) show ?thesis by (auto simp: pocl_step_over_def)
  next
    case (Step_in wi)
    with step assms(3) show ?thesis by (auto simp: pocl_step_in_def)
  next
    case (Select gid)
    then obtain items where "p' = p\<lparr>pb_dbg := Some (w\<lparr>wb_dbg := set_items items (use_process (h_api H) (wb_dbg w))\<rparr>)\<rparr>"
      using assms(3) w by (auto simp: pocl_select_work_item_def Let_def split: prod.splits)
    then show ?thesis by (intro books_agree_keep [OF assms(1) w]) (simp_all add: same_book_use_items)
  next
    case Detach
    have "same_book (wb_dbg w) (wb_dbg (terminate_process H w))" by (simp add: terminate_process_def on_lldb_def)
    with assms(3) Detach w books_agree_keep [OF assms(1) w] show ?thesis by (auto simp: pocl_detach_def)
  qed
qed

lemma next_id_call:
  assumes "pocl_call H n c p = Some p'"
  shows "pb_next_bp_id p' = pb_next_bp_id p \<or> pb_next_bp_id p' = pb_next_bp_id p + 1"
proof -
  have notify: "pb_next_bp_id q' = pb_next_bp_id q" if "notify_stop H q = (q', st)" for q q' st
    using that by (auto simp: notify_stop_def split: option.splits prod.splits list.splits)
  have step: "pb_next_bp_id q = pb_next_bp_id p" if "pocl_step H n plan wi p = Some (q, st)" for plan wi q st
    using that by (auto simp: pocl_step_def split: option.splits if_splits dest!: notify)
  show ?thesis
  proof (cases c)
    case Resume
    with assms show ?thesis
      by (auto simp: pocl_resume_def Let_def split: option.splits prod.splits if_splits dest!: notify)
  qed (use assms step in \<open>auto simp: pocl_set_breakpoint_def pocl_remove_breakpoint_def pocl_detach_def pocl_step_over_def pocl_step_in_def
         pocl_select_work_item_def Let_def split: option.splits prod.splits\<close>)
qed

lemma next_id_grows:
  assumes "pocl_call H n c p = Some p'" "unat (pb_next_bp_id p) + 1 < 2 ^ 64"
  shows "unat (pb_next_bp_id p') \<le> unat (pb_next_bp_id p) + 1"
  using next_id_call [OF assms(1)] assms(2) by (auto simp: unat_plus_no_wrap)

lemma books_agree_calls:
  "books_agree p \<Longrightarrow> unat (pb_next_bp_id p) + length cs < 2 ^ 64 \<Longrightarrow> pocl_calls H n cs p = Some p' \<Longrightarrow> books_agree p'"
proof (induction cs arbitrary: p)
  case (Cons c cs)
  then obtain p1 where 1: "pocl_call H n c p = Some p1" "pocl_calls H n cs p1 = Some p'" by (auto simp: bind_eq_Some_conv)
  have lt: "unat (pb_next_bp_id p) + 1 < 2 ^ 64" using Cons.prems(2) by simp
  from next_id_grows [OF 1(1) lt] Cons.prems(2) have "unat (pb_next_bp_id p1) + length cs < 2 ^ 64" by simp
  with Cons.IH books_agree_call [OF Cons.prems(1) lt 1(1)] 1(2) show ?case by blast
qed simp

text \<open>Before the launch the ids are consecutive, so that the debugger gives the same ones.\<close>

fun numbered :: "u64 \<Rightarrow> (u64 \<times> 'v) list \<Rightarrow> bool" where
  "numbered m [] = True"
| "numbered m ((i, v) # bps) = (i = m \<and> numbered (m + 1) bps)"

lemma numbered_append: "numbered m (bps @ [(i, v)]) \<longleftrightarrow> numbered m bps \<and> i = m + of_nat (length bps)"
  by (induction m bps rule: numbered.induct) (auto simp: algebra_simps)

lemma add_pending_entries:
  "numbered (db_next_id s) bps \<Longrightarrow>
   table_entries (add_pending H bps s) = table_entries s @ entries_of_pending bps
   \<and> db_next_id (add_pending H bps s) = db_next_id s + of_nat (length bps)"
proof (induction H bps s rule: add_pending.induct)
  case (2 H i loc bps s)
  then show ?case by (simp add: add_entry_frame entries_of_pending_def algebra_simps)
qed (simp add: entries_of_pending_def)

definition set_all :: "'l host \<Rightarrow> source_location list \<Rightarrow> 'l pocl \<Rightarrow> 'l pocl" where
  "set_all H locs p = fold (\<lambda>loc p. snd (pocl_set_breakpoint H loc p)) locs p"

definition fresh_book :: "'l pocl \<Rightarrow> bool" where
  "fresh_book p \<longleftrightarrow> pb_dbg p = None \<and> numbered 1 (pb_pending p) \<and> pb_next_bp_id p = 1 + of_nat (length (pb_pending p))
    \<and> sorted_wrt (<) (map fst (pb_pending p)) \<and> (\<forall>i \<in> fst ` set (pb_pending p). i < pb_next_bp_id p)"

lemma fresh_set_all:
  "length locs + 1 < 2 ^ 64 \<Longrightarrow> fresh_book (set_all H locs new_pocl) \<and> length (pb_pending (set_all H locs new_pocl)) = length locs"
proof (induction locs rule: rev_induct)
  case Nil
  then show ?case by (simp add: set_all_def fresh_book_def new_pocl_def)
next
  case (snoc loc locs)
  let ?p = "set_all H locs new_pocl"
  have IH: "fresh_book ?p" "length (pb_pending ?p) = length locs" using snoc by simp_all
  let ?i = "pb_next_bp_id ?p"
  have lt: "\<forall>e \<in> set (pb_pending ?p). fst e < ?i" using IH(1) by (auto simp: fresh_book_def)
  have "unat ?i = 1 + length locs" using IH snoc.prems by (simp add: fresh_book_def unat_of_nat flip: of_nat_Suc)
  then have "?i < ?i + 1" using snoc.prems by (simp add: word_less_nat_alt unat_plus_no_wrap)
  then have "\<forall>i \<in> insert ?i (fst ` set (pb_pending ?p)). i < ?i + 1" using lt by (auto intro: less_trans)
  moreover have "set_all H (locs @ [loc]) new_pocl = snd (pocl_set_breakpoint H loc ?p)" by (simp add: set_all_def)
  ultimately show ?case using IH om_insert_last [OF lt, of loc] lt
    by (auto simp: fresh_book_def pocl_set_breakpoint_def Let_def numbered_append sorted_wrt_append)
qed

lemma same_book_debugger_launch: "debugger_launch H b args e w = (ok, w') \<Longrightarrow> same_book (wb_dbg w) (wb_dbg w')"
  by (auto simp: debugger_launch_def Let_def same_book_def table_entries_def split: prod.splits if_splits)

lemma launch_book:
  assumes "pb_dbg p = None" "pocl_launch H l b args p = (ok, p')"
  shows "\<exists>w. pb_dbg p' = Some w \<and> pb_pending p' = pb_pending p \<and> pb_next_bp_id p' = pb_next_bp_id p
    \<and> same_book (add_pending H (pb_pending p) (wb_dbg (redirect_output_to_stderr (new_workbench (h_abi H) l)))) (wb_dbg w)"
proof -
  let ?w1 = "on_dbg (add_pending H (pb_pending p)) (redirect_output_to_stderr (new_workbench (h_abi H) l))"
  obtain ok2 w2 where l: "debugger_launch H b args True ?w1 = (ok2, w2)" by fastforce
  have w2: "same_book (wb_dbg ?w1) (wb_dbg w2)" by (rule same_book_debugger_launch [OF l])
  let ?s5 = "snd (resolve_pending_ocl_breakpoints (h_api H) (ensure_ocl_trampoline (h_api H) (snd (set_workgroup_breakpoint (h_api H) [] (wb_dbg w2)))))"
  have "same_book (wb_dbg ?w1) ?s5"
    by (intro same_book_trans [OF same_book_ops(1)] same_book_trans [OF same_book_ops(3)] same_book_trans [OF same_book_ops(4)] w2)
  with w2 l assms show ?thesis by (auto simp: pocl_launch_def Let_def split: if_splits)
qed

lemma new_bench_book:
  "table_entries (wb_dbg (redirect_output_to_stderr (new_workbench abi l))) = []"
  "db_next_id (wb_dbg (redirect_output_to_stderr (new_workbench abi l))) = 1"
  by (simp_all add: redirect_output_to_stderr_def new_workbench_def new_debugger_def table_entries_def)

lemma launched_book:
  assumes "fresh_book p" "pocl_launch H l b args p = (ok, p')"
  shows "books_agree p' \<and> pb_next_bp_id p' = pb_next_bp_id p"
proof -
  let ?s = "wb_dbg (redirect_output_to_stderr (new_workbench (h_abi H) l))"
  have f: "pb_dbg p = None" "numbered 1 (pb_pending p)" "pb_next_bp_id p = 1 + of_nat (length (pb_pending p))"
    using assms(1) by (simp_all add: fresh_book_def)
  have w1: "table_entries (add_pending H (pb_pending p) ?s) = entries_of_pending (pb_pending p)"
    "db_next_id (add_pending H (pb_pending p) ?s) = pb_next_bp_id p"
    using add_pending_entries [of ?s "pb_pending p" H] f(2,3) by (simp_all add: new_bench_book)
  obtain w where w: "pb_dbg p' = Some w" "pb_pending p' = pb_pending p" "pb_next_bp_id p' = pb_next_bp_id p"
    "same_book (add_pending H (pb_pending p) ?s) (wb_dbg w)" using launch_book [OF f(1) assms(2)] by blast
  have e: "table_entries (wb_dbg w) = entries_of_pending (pb_pending p)" "db_next_id (wb_dbg w) = pb_next_bp_id p"
    using w(4) w1 by (simp_all only: same_book_def)
  have k: "sorted_wrt (<) (map fst (pb_pending p)) \<and> (\<forall>i \<in> fst ` set (pb_pending p). i < pb_next_bp_id p)"
    using assms(1) unfolding fresh_book_def by (elim conjE) (intro conjI)
  show ?thesis unfolding books_agree_def w(1-3) using e k by (intro conjI exI [of _ w]) simp_all
qed

text \<open>
  A breakpoint removed before the launch shifts the ids of the later ones: the front end knows the one that
  is left by the id 2, the debugger by the id 1.
\<close>

lemma remove_before_launch_shifts:
  assumes "pocl_launch H l b args (pocl_remove_breakpoint H 1 (set_all H [loc1, loc2] new_pocl)) = (ok, p)"
  shows "map fst (pb_pending p) = [2] \<and> (\<exists>w. pb_dbg p = Some w \<and> table_entries (wb_dbg w) = [(1, loc_file loc2)])"
proof -
  let ?p = "pocl_remove_breakpoint H 1 (set_all H [loc1, loc2] new_pocl)"
  have p: "pb_dbg ?p = None" "pb_pending ?p = [(2, loc2)]"
    by (simp_all add: set_all_def new_pocl_def pocl_set_breakpoint_def pocl_remove_breakpoint_def om_erase_def Let_def)
  from launch_book [OF p(1) assms] show ?thesis
    by (auto simp: p(2) same_book_def add_entry_frame new_bench_book)
qed



end
