(* ===== verification/OclCommands.thy ===== *)
theory OclCommands
  imports PoclBackend
begin

text \<open>
  \<^verbatim>\<open>ocldbg/CustomCommands.cpp\<close>: the \<^verbatim>\<open>ocl\<close> commands of the interactive session.  A handler takes the
  text after the command's name and the terminal: the debugger, whose \<open>db_out\<close> is the standard output, and
  what went to the standard error.  A result \<open>None\<close> is a variable reader's undefined behaviour.
\<close>

section \<open>The terminal\<close>

record 'l terminal =
  tm_bench :: "'l workbench"
  tm_err :: string

definition line_end :: string where
  "line_end = [CHR 0x0A]"

definition say :: "string \<Rightarrow> 'l terminal \<Rightarrow> 'l terminal" where
  "say t s = s\<lparr>tm_bench := print_out (t @ line_end) (tm_bench s)\<rparr>"

definition complain :: "string \<Rightarrow> 'l terminal \<Rightarrow> 'l terminal" where
  "complain t s = s\<lparr>tm_err := tm_err s @ t @ line_end\<rparr>"

abbreviation dbg_of :: "'l terminal \<Rightarrow> 'l debugger" where
  "dbg_of s \<equiv> wb_dbg (tm_bench s)"

definition put_dbg :: "'l debugger \<Rightarrow> 'l terminal \<Rightarrow> 'l terminal" where
  "put_dbg d s = s\<lparr>tm_bench := (tm_bench s)\<lparr>wb_dbg := d\<rparr>\<rparr>"

definition trim_left :: "string \<Rightarrow> string" where
  "trim_left s = dropWhile isspace s"

definition trim :: "string \<Rightarrow> string" where
  "trim s = rev (dropWhile isspace (rev (trim_left s)))"

section \<open>Breakpoints\<close>

definition shown_file :: "string \<Rightarrow> string" where
  "shown_file f = (if f = [] then ''<kernel>'' else f)"

text \<open>\<^verbatim>\<open>{:#x}\<close>\<close>

definition hex_address :: "u64 \<Rightarrow> string" where
  "hex_address a = ''0x'' @ hex_of_nat (unat a)"

definition listed_text :: "listed_breakpoint \<Rightarrow> string" where
  "listed_text bp = ''  #'' @ to_string (lb_id bp) @ '': '' @ shown_file (lb_file bp) @ '':'' @ to_string (lb_line bp)
     @ (if lb_resolved bp then '' (resolved at '' @ hex_address (lb_address bp) @ '')'' else '' (pending)'')"

definition handle_break_list :: "'l terminal \<Rightarrow> 'l terminal" where
  "handle_break_list s =
     (case list_ocl_breakpoints (dbg_of s) of
        [] \<Rightarrow> say ''[ocldbg] No OpenCL breakpoints set.'' s
      | bps \<Rightarrow> fold (\<lambda>bp. say (listed_text bp)) bps (say ''[ocldbg] OpenCL Breakpoints:'' s))"

definition handle_break_delete :: "'l host \<Rightarrow> string \<Rightarrow> 'l terminal \<Rightarrow> 'l terminal" where
  "handle_break_delete H arg0 s =
     (let arg = trim arg0 in
      if arg = [] then complain ''[ocldbg] Error: Missing breakpoint ID to delete'' s
      else case stoul arg of
        Inl e \<Rightarrow> complain (''[ocldbg] Error: Invalid breakpoint ID '' @ CHR 0x27 # arg @ [CHR 0x27]) s
      | Inr i \<Rightarrow>
          let (ok, d) = delete_ocl_breakpoint (h_api H) i (dbg_of s); s1 = put_dbg d s
          in if ok then say (''[ocldbg] Deleted OpenCL breakpoint #'' @ to_string i) s1
             else complain (''[ocldbg] Error: OpenCL breakpoint #'' @ to_string i @ '' not found'') s1)"

text \<open>What stands before and after the last colon, if there is one.\<close>

definition split_location :: "string \<Rightarrow> (string \<times> string) option" where
  "split_location spec =
     (if CHR '':'' \<in> set spec
      then Some (rev (drop 1 (dropWhile (\<lambda>c. c \<noteq> CHR '':'') (rev spec))), rev (takeWhile (\<lambda>c. c \<noteq> CHR '':'') (rev spec)))
      else None)"

text \<open>The file and line of a specification, or the complaint.\<close>

definition read_location :: "string \<Rightarrow> string + string \<times> u32" where
  "read_location spec =
     (case split_location spec of
        Some (file, line_part) \<Rightarrow>
          (case stoul line_part of
             Inl e \<Rightarrow> Inl (''[ocldbg] Error: Invalid line number '' @ CHR 0x27 # line_part @ [CHR 0x27])
           | Inr n \<Rightarrow> Inr (file, ucast n))
      | None \<Rightarrow>
          (case stoul spec of
             Inl e \<Rightarrow> Inl (''[ocldbg] Error: Invalid breakpoint specification '' @ CHR 0x27 # spec @ [CHR 0x27])
           | Inr n \<Rightarrow> Inr ([], ucast n)))"

definition added_text :: "size_t \<Rightarrow> string \<Rightarrow> u32 \<Rightarrow> listed_breakpoint list \<Rightarrow> string" where
  "added_text i file line bps =
     (case find (\<lambda>bp. lb_id bp = i) bps of
        Some bp \<Rightarrow>
          if lb_resolved bp
          then ''[ocldbg] Breakpoint #'' @ to_string i @ '': resolved at address '' @ hex_address (lb_address bp)
                 @ '' ('' @ shown_file file @ '':'' @ to_string line @ '')''
          else ''[ocldbg] Breakpoint #'' @ to_string i @ '' (pending) set at '' @ shown_file file @ '':'' @ to_string line
      | None \<Rightarrow> ''[ocldbg] Breakpoint #'' @ to_string i @ '' (pending) set at '' @ shown_file file @ '':'' @ to_string line)"

definition handle_break_add :: "'l host \<Rightarrow> string \<Rightarrow> 'l terminal \<Rightarrow> 'l terminal" where
  "handle_break_add H spec0 s =
     (let spec = trim spec0 in
      if spec = [] then complain ''[ocldbg] Error: Missing breakpoint location (usage: ocl break [<file>:]<line>)'' s
      else case read_location spec of
        Inl e \<Rightarrow> complain e s
      | Inr (file, line) \<Rightarrow>
          let (i, d) = add_ocl_breakpoint (h_api H) file line (dbg_of s)
          in say (added_text i file line (list_ocl_breakpoints d)) (put_dbg d s))"

definition handle_break_command :: "'l host \<Rightarrow> string \<Rightarrow> 'l terminal \<Rightarrow> 'l terminal" where
  "handle_break_command H subcmd0 s =
     (let subcmd = trim subcmd0 in
      if subcmd = [] \<or> subcmd = ''list'' then handle_break_list s
      else if starts_with subcmd ''delete '' \<or> starts_with subcmd ''del ''
        then handle_break_delete H (drop 1 (dropWhile (\<lambda>c. c \<noteq> CHR '' '') subcmd)) s
      else handle_break_add H subcmd s)"

section \<open>Variables\<close>

definition printed_value :: "var_value \<Rightarrow> string" where
  "printed_value v = ''('' @ vv_type_name v @ (if vv_address_space v = [] then [] else '' '' @ vv_address_space v) @ '') ''
     @ vv_name v @ '' = '' @ (if vv_available v then vv_value_str v else ''<unavailable>'')"

definition handle_print_command :: "'l host \<Rightarrow> string \<Rightarrow> 'l terminal \<Rightarrow> 'l terminal option" where
  "handle_print_command H arg0 s =
     (let arg = trim arg0 in
      if arg = [] then Some (complain ''[ocldbg] Error: Missing variable name to print (usage: ocl print <name>)'' s)
      else map_option (\<lambda>(val, w). let s1 = s\<lparr>tm_bench := w\<rparr> in
             case val of None \<Rightarrow> say (''[ocldbg] Variable '' @ CHR 0x27 # arg @ CHR 0x27 # '' not found in current scope'') s1
             | Some v \<Rightarrow> say (printed_value v) s1)
           (get_variable_value H arg (tm_bench s)))"

definition handle_vars_command :: "'l host \<Rightarrow> 'l terminal \<Rightarrow> 'l terminal option" where
  "handle_vars_command H s =
     map_option (\<lambda>(vars, w). let s1 = s\<lparr>tm_bench := w\<rparr> in
         if vars = [] then say ''[ocldbg] No variables in scope or process not stopped in OpenCL kernel'' s1
         else s1\<lparr>tm_bench := print_out (concat (map variable_line vars)) w\<rparr>)
       (inspect_current_frame_variables H (tm_bench s))"

section \<open>Work-items\<close>

definition select_on_bench :: "'l host \<Rightarrow> size3 \<Rightarrow> 'l workbench \<Rightarrow> bool \<times> 'l workbench" where
  "select_on_bench H gid w =
     (let s = use_process (h_api H) (wb_dbg w);
          (ok, items) = select_work_item (h_order H) (db_target s) (process_of H w) gid (db_items s)
      in (ok, w\<lparr>wb_dbg := set_items items s\<rparr>))"

definition is_marked :: "cpu_exec_ctx ocl_work_item option \<Rightarrow> cpu_exec_ctx ocl_work_item \<Rightarrow> bool" where
  "is_marked sel wi \<longleftrightarrow> (case sel of None \<Rightarrow> False | Some s \<Rightarrow> global_id s = global_id wi \<or> group_id s = group_id wi)"

definition stopped_text :: "cpu_exec_ctx ocl_work_item option \<Rightarrow> cpu_exec_ctx ocl_work_item \<Rightarrow> string" where
  "stopped_text sel wi = (if is_marked sel wi then ''* '' else ''  '') @ work_item_str wi @ '' [work-group '' @ size3_str (group_id wi) @ '']''"

text \<open>Three numbers, of which the later ones may be missing; a stream that has failed reads nothing more.\<close>

definition read_coordinates :: "string \<Rightarrow> size3 option" where
  "read_coordinates arg =
     (case read_size arg of
        None \<Rightarrow> None
      | Some (gx, r) \<Rightarrow>
          (case read_size r of
             None \<Rightarrow> Some (Size3 gx 0 0)
           | Some (gy, r') \<Rightarrow> (case read_size r' of None \<Rightarrow> Some (Size3 gx gy 0) | Some (gz, _) \<Rightarrow> Some (Size3 gx gy gz))))"

definition handle_select_command :: "'l host \<Rightarrow> string \<Rightarrow> 'l terminal \<Rightarrow> 'l terminal" where
  "handle_select_command H arg0 s =
     (let arg = trim arg0 in
      if arg = [] \<or> arg = ''list'' then
        (case stop_items H (tm_bench s) of
           ([], w) \<Rightarrow> say ''[ocldbg] No stopped work-items available'' (s\<lparr>tm_bench := w\<rparr>)
         | (wis, w) \<Rightarrow> fold (\<lambda>wi. say (stopped_text (is_selected (db_items (wb_dbg w))) wi)) wis
                        (say ''[ocldbg] Stopped work-items:'' (s\<lparr>tm_bench := w\<rparr>)))
      else case read_coordinates arg of
        None \<Rightarrow> complain ''[ocldbg] Error: Invalid work-item coordinate (usage: ocl select <gx> [<gy> [<gz>]])'' s
      | Some gid \<Rightarrow>
          let (ok, w) = select_on_bench H gid (tm_bench s); s1 = s\<lparr>tm_bench := w\<rparr>
          in if ok then say (''[ocldbg] Selected work-item WI'' @ size3_str gid) s1
             else say (''[ocldbg] Work-item WI'' @ size3_str gid @ '' not found among active work-items'') s1)"

definition handle_workitem_command :: "'l host \<Rightarrow> string \<Rightarrow> 'l terminal \<Rightarrow> 'l terminal" where
  "handle_workitem_command H arg0 s =
     (let arg = trim arg0 in
      if starts_with arg ''select '' \<or> arg = ''select'' then handle_select_command H (drop 6 arg) s
      else handle_select_command H arg s)"

section \<open>Dispatch\<close>

text \<open>Whether the rest of a command line is the command \<open>name\<close>: alone, or followed by a space.\<close>

definition is_command :: "string \<Rightarrow> string \<Rightarrow> bool" where
  "is_command name cmd \<longleftrightarrow> starts_with cmd (name @ '' '') \<or> cmd = name"

definition handle_ocl_command :: "'l host \<Rightarrow> string \<Rightarrow> 'l terminal \<Rightarrow> (bool \<times> 'l terminal) option" where
  "handle_ocl_command H cmd0 s =
     (if \<not> starts_with (trim cmd0) ''ocl'' then Some (False, s)
      else let cmd = trim (drop 3 (trim cmd0)) in
        if is_command ''break'' cmd then Some (True, handle_break_command H (drop 5 cmd) s)
        else if is_command ''b'' cmd then Some (True, handle_break_command H (drop 1 cmd) s)
        else if is_command ''print'' cmd then map_option (Pair True) (handle_print_command H (drop 5 cmd) s)
        else if is_command ''p'' cmd then map_option (Pair True) (handle_print_command H (drop 1 cmd) s)
        else if is_command ''vars'' cmd \<or> is_command ''v'' cmd then map_option (Pair True) (handle_vars_command H s)
        else if is_command ''select'' cmd then Some (True, handle_select_command H (drop 6 cmd) s)
        else if is_command ''workitem'' cmd then Some (True, handle_workitem_command H (drop 8 cmd) s)
        else if is_command ''wi'' cmd then Some (True, handle_workitem_command H (drop 2 cmd) s)
        else Some (True, say ''(unsupported)'' s))"

section \<open>Texts without space at their ends\<close>

definition solid :: "string \<Rightarrow> bool" where
  "solid s \<longleftrightarrow> s \<noteq> [] \<and> \<not> isspace (hd s) \<and> \<not> isspace (List.last s)"

lemma trim_solid [text_simps]: "solid s \<Longrightarrow> trim s = s"
  by (simp add: solid_def trim_def trim_left_def dropWhile_eq_self_iff [THEN iffD2] hd_rev)

lemma trim_space [text_simps]: "trim (CHR '' '' # s) = trim s"
  by (simp add: trim_def trim_left_def isspace_def)

lemma solid_append: "solid s \<Longrightarrow> t \<noteq> [] \<Longrightarrow> \<not> isspace (hd t) \<Longrightarrow> solid (t @ s)"
  by (simp add: solid_def)

lemma solid_no_space: "s \<noteq> [] \<Longrightarrow> \<forall>c \<in> set s. \<not> isspace c \<Longrightarrow> solid s"
  by (simp add: solid_def)

lemma solid_to_string [simp]: "solid (to_string w)"
  using plain_word_to_string [of w] unfolding plain_word_def by (intro solid_no_space) auto

text \<open>A command line is the command's name and its argument.\<close>

lemma ocl_command_line:
  assumes "solid (name @ CHR '' '' # arg)"
  shows "trim (''ocl '' @ name @ CHR '' '' # arg) = ''ocl '' @ name @ CHR '' '' # arg"
    "trim (drop 3 (''ocl '' @ name @ CHR '' '' # arg)) = name @ CHR '' '' # arg"
  using trim_solid [OF assms] trim_solid [OF solid_append [OF assms, of "''ocl ''"]] by (simp_all add: isspace_def trim_space)

lemma break_command_line:
  assumes "solid arg"
  shows "handle_ocl_command H (''ocl break '' @ arg) s = Some (True, handle_break_command H arg s)"
proof -
  have "solid (''break'' @ CHR '' '' # arg)" using solid_append [OF assms, of "''break ''"] by (simp add: isspace_def)
  note line = ocl_command_line [OF this]
  have "handle_break_command H (CHR '' '' # arg) s = handle_break_command H arg s"
    by (simp add: handle_break_command_def trim_space)
  with line show ?thesis by (simp add: handle_ocl_command_def starts_with_def is_command_def Let_def)
qed

section \<open>Breakpoints by command\<close>

lemma split_location_last: "CHR '':'' \<notin> set n \<Longrightarrow> split_location (f @ CHR '':'' # n) = Some (f, n)"
proof -
  assume n: "CHR '':'' \<notin> set n"
  then have "takeWhile (\<lambda>c. c \<noteq> CHR '':'') (rev n @ CHR '':'' # rev f) = rev n"
    "dropWhile (\<lambda>c. c \<noteq> CHR '':'') (rev n @ CHR '':'' # rev f) = CHR '':'' # rev f"
    by (subst takeWhile_append2 dropWhile_append2; auto)+
  then show ?thesis by (simp add: split_location_def)
qed

lemma read_location_text: "read_location (f @ CHR '':'' # to_string (line :: u32)) = Inr (f, line)"
proof -
  have "CHR '':'' \<notin> set (to_string line)" using dec_of_nat_digits [of "unat line"] by (auto simp: to_string_def is_digit_def)
  from split_location_last [OF this] show ?thesis by (simp add: read_location_def stoul_to_string_32)
qed

lemma terminal_frame [simp]:
  "dbg_of (put_dbg d s) = d" "tm_err (put_dbg d s) = tm_err s"
  "table_entries (dbg_of (say t s)) = table_entries (dbg_of s)" "db_out (dbg_of (say t s)) = db_out (dbg_of s) @ t @ line_end"
  "dbg_of (complain t s) = dbg_of s" "tm_err (say t s) = tm_err s"
  by (simp_all add: put_dbg_def say_def complain_def print_out_def on_dbg_def table_entries_def)

lemma no_space_command: "\<forall>c \<in> set s. \<not> isspace c \<Longrightarrow> \<not> starts_with s ''delete '' \<and> \<not> starts_with s ''del ''"
proof -
  assume "\<forall>c \<in> set s. \<not> isspace c"
  then have "CHR '' '' \<notin> set s" by (auto simp: isspace_def)
  then show ?thesis unfolding starts_with_iff by auto
qed

lemma entry_listed: "table_entries d = map (\<lambda>bp. (lb_id bp, lb_file bp)) (list_ocl_breakpoints d)"
  by (simp add: table_entries_def list_ocl_breakpoints_def)

lemma break_add_command:
  assumes "\<forall>c \<in> set f. \<not> isspace c"
  shows "\<exists>s' t. handle_ocl_command H (''ocl break '' @ f @ '':'' @ to_string (line :: u32)) s = Some (True, s')
    \<and> dbg_of s' = (snd (add_ocl_breakpoint (h_api H) f line (dbg_of s)))\<lparr>db_out := db_out (snd (add_ocl_breakpoint (h_api H) f line (dbg_of s))) @ t\<rparr>
    \<and> contains t (''#'' @ to_string (db_next_id (dbg_of s)))"
proof -
  let ?spec = "f @ CHR '':'' # to_string line"
  have clean: "\<forall>c \<in> set ?spec. \<not> isspace c" using assms plain_word_to_string [of line] by (auto simp: plain_word_def isspace_def)
  then have solid: "solid ?spec" by (intro solid_no_space) auto
  have "\<not> starts_with ?spec ''delete ''" "\<not> starts_with ?spec ''del ''" using no_space_command [OF clean] by simp_all
  moreover have "?spec \<noteq> ''list''"
  proof
    assume "?spec = ''list''"
    then have "CHR '':'' \<in> set ''list''" by (metis in_set_conv_decomp)
    then show False by simp
  qed
  ultimately have "handle_break_command H ?spec s = handle_break_add H ?spec s"
    by (simp add: handle_break_command_def Let_def trim_solid [OF solid])
  moreover have "handle_break_add H ?spec s = (let (i, d) = add_ocl_breakpoint (h_api H) f line (dbg_of s)
      in say (added_text i f line (list_ocl_breakpoints d)) (put_dbg d s))"
    by (simp add: handle_break_add_def Let_def trim_solid [OF solid] read_location_text)
  moreover have "contains (added_text i f line bps @ line_end) (''#'' @ to_string i)" for i bps
    by (auto simp: added_text_def contains_iff split: option.split intro: exI [of _ "''[ocldbg] Breakpoint ''"])
  ultimately show ?thesis
    using break_command_line [OF solid, of H s] add_entry_frame(1) [of "h_api H" f line "dbg_of s"]
    by (auto simp: split_beta say_def put_dbg_def print_out_def on_dbg_def intro!: exI)
qed

lemma break_delete_command:
  "\<exists>s'. handle_ocl_command H (''ocl break delete '' @ to_string (i :: size_t)) s = Some (True, s')
    \<and> table_entries (dbg_of s') = table_entries (snd (delete_ocl_breakpoint (h_api H) i (dbg_of s)))
    \<and> (tm_err s' = tm_err s \<longleftrightarrow> i \<in> fst ` set (table_entries (dbg_of s)))"
proof -
  let ?arg = "''delete '' @ to_string i"
  have solid: "solid ?arg" by (rule solid_append [OF solid_to_string]) (simp_all add: isspace_def)
  have "handle_break_command H ?arg s = handle_break_delete H (to_string i) s"
    using trim_solid [OF solid] by (simp add: handle_break_command_def Let_def starts_with_def)
  moreover have "to_string i \<noteq> []" using solid_to_string [of i] by (simp add: solid_def)
  moreover have "fst (delete_ocl_breakpoint (h_api H) i (dbg_of s)) \<longleftrightarrow> i \<in> fst ` set (table_entries (dbg_of s))"
    by (rule ocl_table.remove_found)
  ultimately show ?thesis
    using break_command_line [OF solid, of H s]
    by (simp add: handle_break_delete_def Let_def text_simps split_beta) (simp add: complain_def line_end_def)
qed

lemma remove_first_absent: "i \<notin> fst ` set es \<Longrightarrow> remove_first i es = es"
  by (induction es) auto

lemma remove_first_append: "i \<notin> fst ` set es \<Longrightarrow> remove_first i (es @ es') = es @ remove_first i es'"
  by (induction es) auto


definition fresh_terminal :: "demo_lldb terminal" where
  "fresh_terminal = \<lparr>tm_bench = new_workbench None (demo_start []), tm_err = []\<rparr>"


section \<open>Coordinates\<close>

lemma read_coordinates_text:
  "read_coordinates (spaced (map to_string [x])) = Some (Size3 x 0 0)"
  "read_coordinates (spaced (map to_string [x, y])) = Some (Size3 x y 0)"
  "read_coordinates (spaced (map to_string [x, y, z])) = Some (Size3 x y z)"
  by (simp_all add: read_coordinates_def text_simps read_size_dec_space read_size_dec_Nil read_size_space read_size_Nil)

end
