(* ===== verification/CliSession.thy ===== *)
theory CliSession
  imports OclCommands
begin

text \<open>
  \<^verbatim>\<open>ocldbg/cli.cpp\<close>: the command-line session.  Lines that begin with \<^verbatim>\<open>ocl\<close> are the debugger's own
  commands, the others go to LLDB's interpreter, which is a parameter: a command is done, with its result, or
  lets the debuggee run until it halts and goes on.  A result \<open>None\<close> is fuel that ran out, or undefined
  behaviour of a variable reader.
\<close>

section \<open>LLDB's command interpreter\<close>

record command_result =
  cr_out :: "string option"
  cr_err :: "string option"
  cr_quit :: bool

datatype interpreter_step = Lets_run | Command_done command_result

type_synonym 'l interpreter = "string \<Rightarrow> 'l \<Rightarrow> interpreter_step \<times> 'l"

fun handle_command :: "'l lldb_api \<Rightarrow> 'l interpreter \<Rightarrow> nat \<Rightarrow> string \<Rightarrow> 'l debugger \<Rightarrow> (command_result \<times> 'l debugger) option" where
  "handle_command A I 0 cmd d = None"
| "handle_command A I (Suc n) cmd d =
     (case I cmd (db_lldb d) of
        (Command_done r, l) \<Rightarrow> Some (r, d\<lparr>db_lldb := l\<rparr>)
      | (Lets_run, l) \<Rightarrow> Option.bind (process_continue A n (d\<lparr>db_lldb := l\<rparr>)) (handle_command A I n cmd))"

definition print_result :: "command_result \<Rightarrow> 'l terminal \<Rightarrow> 'l terminal" where
  "print_result r s = s\<lparr>tm_bench := (case cr_out r of None \<Rightarrow> tm_bench s | Some t \<Rightarrow> print_out t (tm_bench s)),
     tm_err := tm_err s @ (case cr_err r of None \<Rightarrow> [] | Some t \<Rightarrow> t)\<rparr>"

definition interpret_line :: "'l host \<Rightarrow> 'l interpreter \<Rightarrow> nat \<Rightarrow> string \<Rightarrow> 'l terminal \<Rightarrow> (bool \<times> 'l terminal) option" where
  "interpret_line H I n line s =
     map_option (\<lambda>(r, d). (cr_quit r, print_result r (put_dbg d s))) (handle_command (h_api H) I n line (dbg_of s))"

section \<open>Commands of the configuration\<close>

text \<open>The commands that let the debuggee run, before which the trampoline is set.\<close>

definition runs_debuggee :: "string \<Rightarrow> bool" where
  "runs_debuggee cmd \<longleftrightarrow> cmd = ''r'' \<or> starts_with cmd ''run'' \<or> cmd = ''c'' \<or> starts_with cmd ''continue'' \<or> starts_with cmd ''process launch''"

definition arm_trampoline :: "'l host \<Rightarrow> string \<Rightarrow> 'l terminal \<Rightarrow> 'l terminal" where
  "arm_trampoline H cmd s = (if runs_debuggee cmd then put_dbg (ensure_ocl_trampoline (h_api H) (dbg_of s)) s else s)"

definition prompt :: string where
  "prompt = ''(ocldbg) ''"

definition run_cli_command :: "'l host \<Rightarrow> 'l interpreter \<Rightarrow> nat \<Rightarrow> bool \<Rightarrow> string \<Rightarrow> 'l terminal \<Rightarrow> 'l terminal option" where
  "run_cli_command H I n echo cmd s =
     (let trimmed = trim_left cmd; shown = (\<lambda>s. if echo then say (prompt @ cmd) s else s) in
      if starts_with trimmed ''ocl'' then map_option snd (handle_ocl_command H trimmed (shown s))
      else map_option snd (interpret_line H I n cmd (shown (arm_trampoline H trimmed s))))"

fun run_cli_commands :: "'l host \<Rightarrow> 'l interpreter \<Rightarrow> nat \<Rightarrow> bool \<Rightarrow> string list \<Rightarrow> 'l terminal \<Rightarrow> 'l terminal option" where
  "run_cli_commands H I n echo [] s = Some s"
| "run_cli_commands H I n echo (cmd # cmds) s = Option.bind (run_cli_command H I n echo cmd s) (run_cli_commands H I n echo cmds)"

record cli_config =
  cc_host_binary :: string
  cc_host_args :: "string list"
  cc_one_line_before :: "string list"
  cc_source_before :: "string list"
  cc_source_after :: "string list"
  cc_one_line_after :: "string list"
  cc_batch :: bool

definition quoted :: "string \<Rightarrow> string" where
  "quoted t = CHR 0x22 # t @ [CHR 0x22]"

definition source_command :: "string \<Rightarrow> string" where
  "source_command f = ''command source '' @ quoted f"

definition target_commands :: "cli_config \<Rightarrow> string list" where
  "target_commands config =
     (if cc_host_binary config = [] then []
      else (''target create '' @ quoted (cc_host_binary config))
        # (if cc_host_args config = [] then []
           else [''settings set -- target.run-args'' @ concat (map (\<lambda>a. CHR '' '' # quoted a) (cc_host_args config))]))"

definition execute_pre_session_commands :: "'l host \<Rightarrow> 'l interpreter \<Rightarrow> nat \<Rightarrow> cli_config \<Rightarrow> 'l terminal \<Rightarrow> 'l terminal option" where
  "execute_pre_session_commands H I n config s =
     Option.bind (run_cli_commands H I n False (map source_command (cc_source_before config)) s) (\<lambda>s1.
     Option.bind (run_cli_commands H I n True (cc_one_line_before config) s1) (\<lambda>s2.
     Option.bind (run_cli_commands H I n False (target_commands config) s2) (\<lambda>s3.
     Option.bind (run_cli_commands H I n False (map source_command (cc_source_after config)) s3)
       (run_cli_commands H I n True (cc_one_line_after config)))))"

section \<open>The interactive loop\<close>

text \<open>One line: whether the session ends with it.\<close>

definition cli_line :: "'l host \<Rightarrow> 'l interpreter \<Rightarrow> nat \<Rightarrow> string \<Rightarrow> 'l terminal \<Rightarrow> (bool \<times> 'l terminal) option" where
  "cli_line H I n line s =
     (let trimmed = trim_left line in
      if trimmed = [] then Some (False, s)
      else if starts_with trimmed ''ocl'' then map_option (\<lambda>(_, s'). (False, s')) (handle_ocl_command H trimmed s)
      else if trimmed = ''quit'' \<or> trimmed = ''q'' \<or> trimmed = ''exit'' then Some (True, s)
      else interpret_line H I n line (arm_trampoline H trimmed s))"

definition show_text :: "string \<Rightarrow> 'l terminal \<Rightarrow> 'l terminal" where
  "show_text t s = s\<lparr>tm_bench := print_out t (tm_bench s)\<rparr>"

function cli_loop :: "'l host \<Rightarrow> 'l interpreter \<Rightarrow> nat \<Rightarrow> string \<Rightarrow> 'l terminal \<Rightarrow> 'l terminal option" where
  "cli_loop H I n inp s =
     (case get_line inp of
        None \<Rightarrow> Some (show_text line_end (show_text prompt s))
      | Some (line, rest, eof) \<Rightarrow>
          (case cli_line H I n line (show_text prompt s) of
             None \<Rightarrow> None
           | Some (True, s') \<Rightarrow> Some s'
           | Some (False, s') \<Rightarrow> cli_loop H I n rest s'))"
  by pat_completeness auto
termination
  by (relation "measure (\<lambda>(H, I, n, inp, s). length inp)") (auto dest: get_line_shorter)

declare cli_loop.simps [simp del]

definition run_cli :: "'l host \<Rightarrow> 'l interpreter \<Rightarrow> nat \<Rightarrow> cli_config \<Rightarrow> string \<Rightarrow> 'l terminal \<Rightarrow> 'l terminal option" where
  "run_cli H I n config inp s =
     Option.bind (execute_pre_session_commands H I n config s) (\<lambda>s1. if cc_batch config then Some s1 else cli_loop H I n inp s1)"

section \<open>Commands of the configuration and of the user\<close>

lemma ensure_trampoline_out:
  "ensure_ocl_trampoline A (d\<lparr>db_out := t\<rparr>) = (ensure_ocl_trampoline A d)\<lparr>db_out := t\<rparr>"
  "db_out (ensure_ocl_trampoline A d) = db_out d"
  by (simp_all add: ensure_ocl_trampoline_def Let_def use_target_def split: prod.split)

lemma arm_say: "arm_trampoline H cmd (say t s) = say t (arm_trampoline H cmd s)"
  by (simp add: arm_trampoline_def say_def put_dbg_def print_out_def on_dbg_def ensure_trampoline_out)

text \<open>
  A command given with \<^verbatim>\<open>-o\<close> or \<^verbatim>\<open>-O\<close> does what the user typing it does, after the prompt and the
  command are shown: except for the commands that end the session, which typed are not LLDB's, and an empty
  one, which typed is skipped.
\<close>

theorem one_line_as_typed:
  assumes "trim_left cmd \<notin> {[], ''quit'', ''q'', ''exit''}"
  shows "run_cli_command H I n True cmd s = map_option snd (cli_line H I n cmd (say (prompt @ cmd) s))"
proof (cases "starts_with (trim_left cmd) ''ocl''")
  case True
  with assms show ?thesis
    by (cases "handle_ocl_command H (trim_left cmd) (say (prompt @ cmd) s)") (auto simp: run_cli_command_def cli_line_def Let_def)
next
  case False
  with assms show ?thesis by (simp add: run_cli_command_def cli_line_def Let_def arm_say)
qed

section \<open>Lines of a session\<close>

text \<open>The lines of a session one by one: whether it ended before the input did.\<close>

fun cli_lines :: "'l host \<Rightarrow> 'l interpreter \<Rightarrow> nat \<Rightarrow> string list \<Rightarrow> 'l terminal \<Rightarrow> (bool \<times> 'l terminal) option" where
  "cli_lines H I n [] s = Some (False, s)"
| "cli_lines H I n (l # ls) s =
     (case cli_line H I n l (show_text prompt s) of
        None \<Rightarrow> None | Some (True, s') \<Rightarrow> Some (True, s') | Some (False, s') \<Rightarrow> cli_lines H I n ls s')"

lemma get_line_of_line: "CHR 0x0A \<notin> set l \<Longrightarrow> get_line (l @ line_end @ r) = Some (l, r, False)"
  using get_line_newline [of l r] by (simp add: line_end_def)

text \<open>
  A session handles the lines of its input one by one, each after a prompt, until one ends it; when
  none does it ends with the input, after a last prompt.
\<close>

theorem session_handles_lines:
  assumes "\<forall>l \<in> set ls. CHR 0x0A \<notin> set l"
  shows "cli_loop H I n (concat (map (\<lambda>l. l @ line_end) ls)) s =
    map_option (\<lambda>(ended, s'). if ended then s' else show_text line_end (show_text prompt s')) (cli_lines H I n ls s)"
  using assms
proof (induction ls arbitrary: s)
  case Nil
  show ?case by (simp add: cli_loop.simps [of H I n "[]"] get_line_def)
next
  case (Cons l ls)
  have "get_line (concat (map (\<lambda>l. l @ line_end) (l # ls))) = Some (l, concat (map (\<lambda>l. l @ line_end) ls), False)"
    using get_line_of_line [of l] Cons.prems by simp
  with Cons show ?case
    by (subst cli_loop.simps) (auto split: option.split bool.split simp del: concat.simps list.map)
qed

text \<open>An interpreter that knows how to leave.\<close>

definition quitting_interpreter :: "'l interpreter" where
  "quitting_interpreter cmd l = (Command_done \<lparr>cr_out = Some cmd, cr_err = None, cr_quit = (cmd = ''script quit'')\<rparr>, l)"

theorem one_line_as_typed_witness:
  "run_cli_command demo_host quitting_interpreter 3 True ''  run'' fresh_terminal
    = map_option snd (cli_line demo_host quitting_interpreter 3 ''  run'' (say (prompt @ ''  run'') fresh_terminal))"
  by (rule one_line_as_typed) (simp add: trim_left_def isspace_def)

theorem session_handles_lines_witness:
  "\<exists>s. cli_loop demo_host quitting_interpreter 3 (concat (map (\<lambda>l. l @ line_end) [''bt'', ''quit'', ''c''])) fresh_terminal = Some s
    \<and> db_out (dbg_of s) = prompt @ ''bt'' @ prompt"
proof -
  have "cli_lines demo_host quitting_interpreter 3 [''bt'', ''quit'', ''c''] fresh_terminal
    = Some (True, show_text prompt (show_text ''bt'' (show_text prompt fresh_terminal)))"
    by (simp add: cli_line_def trim_left_def isspace_def starts_with_def arm_trampoline_def runs_debuggee_def interpret_line_def
        eval_nat_numeral quitting_interpreter_def print_result_def put_dbg_def show_text_def print_out_def on_dbg_def fresh_terminal_def)
  then show ?thesis
    using session_handles_lines [of "[''bt'', ''quit'', ''c'']" demo_host quitting_interpreter 3 fresh_terminal]
    by (simp add: show_text_def print_out_def on_dbg_def fresh_terminal_def new_workbench_def new_debugger_def)
qed

end
