(* ===== verification/DapServer.thy ===== *)
theory DapServer
  imports Types "HOL-Library.List_Lexorder" "HOL-Library.Char_ord"
begin

text \<open>
  \<^verbatim>\<open>ocldbg/dap/DAPServer.{h,cpp}\<close>: the Debug Adapter Protocol server, over any \<^verbatim>\<open>Backend\<close>.  LLVM's
  JSON library is a parameter: a parser and a printer of the values below.  The bytes a client sends are
  the input string; what the server sends is the list of the JSON values of its messages, which
  \<open>output_text\<close> prints and frames.  A result \<open>None\<close> is a backend that does not come back, or undefined
  behaviour: of the backend, or a signed overflow on a number the client sent.
\<close>

section \<open>JSON\<close>

text \<open>
  A number that is not written as an integer carries the integer it equals, if any.  An object is a map
  from keys to values, here its entries in the order of the keys.
\<close>

datatype json = JNull | JBool bool | JInt int | JReal "int option" | JString string | JArray "json list"
  | JObject "(string \<times> json) list"

record json_lib =
  jl_parse :: "string \<Rightarrow> json option"
  jl_show :: "json \<Rightarrow> string"

type_synonym json_object = "(string, json) omap"

definition object_of :: "(string \<times> json) list \<Rightarrow> json_object" where
  "object_of kvs = fold (\<lambda>(k, v) m. om_insert k v m) kvs []"

text \<open>\<^verbatim>\<open>getString\<close>, \<^verbatim>\<open>getInteger\<close>, \<^verbatim>\<open>getArray\<close>, \<^verbatim>\<open>getObject\<close>: the value of a key if it has that kind.\<close>

definition as_string :: "json \<Rightarrow> string option" where
  "as_string v = (case v of JString s \<Rightarrow> Some s | _ \<Rightarrow> None)"

definition as_object :: "json \<Rightarrow> json_object option" where
  "as_object v = (case v of JObject m \<Rightarrow> Some m | _ \<Rightarrow> None)"

definition int64_range :: "int \<Rightarrow> bool" where
  "int64_range i \<longleftrightarrow> - (2 ^ 63) \<le> i \<and> i < 2 ^ 63"

definition as_integer :: "json \<Rightarrow> int option" where
  "as_integer v = (case v of JInt i \<Rightarrow> if int64_range i then Some i else None
     | JReal (Some i) \<Rightarrow> if int64_range i then Some i else None | _ \<Rightarrow> None)"

definition get_string :: "json_object \<Rightarrow> string \<Rightarrow> string option" where
  "get_string m k = Option.bind (map_of m k) as_string"

definition get_integer :: "json_object \<Rightarrow> string \<Rightarrow> int option" where
  "get_integer m k = Option.bind (map_of m k) as_integer"

definition get_array :: "json_object \<Rightarrow> string \<Rightarrow> json list option" where
  "get_array m k = Option.bind (map_of m k) (\<lambda>v. case v of JArray vs \<Rightarrow> Some vs | _ \<Rightarrow> None)"

definition get_object :: "json_object \<Rightarrow> string \<Rightarrow> json_object option" where
  "get_object m k = Option.bind (map_of m k) as_object"

definition value_or :: "'a option \<Rightarrow> 'a \<Rightarrow> 'a" where
  "value_or r d = (case r of None \<Rightarrow> d | Some x \<Rightarrow> x)"

text \<open>\<^verbatim>\<open>static_cast<int>\<close> of an \<^verbatim>\<open>int64_t\<close>.\<close>

definition to_int32 :: "int \<Rightarrow> int" where
  "to_int32 i = sint (word_of_int i :: u32)"

definition int32_range :: "int \<Rightarrow> bool" where
  "int32_range i \<longleftrightarrow> - (2 ^ 31) \<le> i \<and> i < 2 ^ 31"

section \<open>Names\<close>

definition format_dap_work_item_name :: "'c ocl_work_item \<Rightarrow> size_t \<Rightarrow> string" where
  "format_dap_work_item_name wi default_dim =
     (let g = global_id wi; w = group_id wi;
          dim0 = (if work_dim wi > 0 then work_dim wi else default_dim);
          dim = (if dim0 = 0 then (if dim_z g > 0 \<or> dim_z w > 0 then 3 else if dim_y g > 0 \<or> dim_y w > 0 then 2 else 1) else dim0)
      in if dim = 1 then ''Work-Item ('' @ to_string (dim_x g) @ '') [Work-Group ('' @ to_string (dim_x w) @ '')]''
         else if dim = 2 then ''Work-Item ('' @ to_string (dim_x g) @ '', '' @ to_string (dim_y g) @ '') [Work-Group (''
           @ to_string (dim_x w) @ '', '' @ to_string (dim_y w) @ '')]''
         else ''Work-Item ('' @ to_string (dim_x g) @ '', '' @ to_string (dim_y g) @ '', '' @ to_string (dim_z g) @ '') [Work-Group (''
           @ to_string (dim_x w) @ '', '' @ to_string (dim_y w) @ '', '' @ to_string (dim_z w) @ '')]'')"

fun infer_work_dim_from_args :: "string list \<Rightarrow> size_t" where
  "infer_work_dim_from_args [] = 1"
| "infer_work_dim_from_args [a] = 1"
| "infer_work_dim_from_args (a # b # args) =
     (if a = ''-g'' \<or> a = ''-g_size'' \<or> a = ''--global-size''
      then min (of_nat (length (filter (\<lambda>c. c = CHR '','' \<or> c = CHR ''x'') b)) + 1) 3
      else infer_work_dim_from_args (b # args))"

definition clean_kernel_function_name :: "string \<Rightarrow> string" where
  "clean_kernel_function_name fn =
     (if starts_with fn ''_pocl_kernel_'' then
        let sv = drop 13 fn in if ends_with sv ''_workgroup'' then take (length sv - 10) sv else sv
      else fn)"

section \<open>The backend and the state of the server\<close>

text \<open>
  The operations of \<^verbatim>\<open>Backend\<close> the server calls, and \<^verbatim>\<open>OCLVariableResolver::resolve\<close>.  Those that run
  the debuggee say what the stop callback was given, if it was called.  Message numbers and thread ids are
  \<^verbatim>\<open>int\<close> in the code and unbounded here: a session is taken to have fewer than \<open>2 ^ 31\<close> of them.
\<close>

record ('b, 'c) backend_api =
  ba_launch :: "string \<Rightarrow> string list \<Rightarrow> 'b \<Rightarrow> bool \<times> 'b"
  ba_detach :: "'b \<Rightarrow> 'b"
  ba_set_breakpoint :: "source_location \<Rightarrow> 'b \<Rightarrow> u64 \<times> 'b"
  ba_resume :: "'b \<Rightarrow> ('b \<times> 'c ocl_stop_context option) option"
  ba_step_over :: "'c ocl_work_item \<Rightarrow> 'b \<Rightarrow> ('b \<times> 'c ocl_stop_context option) option"
  ba_step_in :: "'c ocl_work_item \<Rightarrow> 'b \<Rightarrow> ('b \<times> 'c ocl_stop_context option) option"
  ba_select_work_item :: "size3 \<Rightarrow> 'b \<Rightarrow> 'c ocl_work_item option \<times> 'b"
  ba_resolve :: "'c ocl_work_item \<Rightarrow> 'b \<Rightarrow> (var_value list \<times> 'b) option"

datatype os_call = Setenv string string | Chdir string

record ('b, 'c) dap =
  da_backend :: 'b
  da_sent :: "json list"
  da_os :: "os_call list"
  da_next_seq :: int
  da_running :: bool
  da_threads :: "(int, 'c ocl_work_item) omap"
  da_stopped_thread_id :: int
  da_selected_wi :: "'c ocl_work_item option"
  da_current_source_file :: string
  da_user_source_file :: string
  da_launch_kernel_file :: string
  da_launch_work_dim :: size_t
  da_current_line :: u32
  da_current_stop :: "'c ocl_stop_context"
  da_next_thread_id :: int

definition new_dap :: "'b \<Rightarrow> ('b, 'c) dap" where
  "new_dap b = \<lparr>da_backend = b, da_sent = [], da_os = [], da_next_seq = 1, da_running = True, da_threads = [],
     da_stopped_thread_id = 1, da_selected_wi = None, da_current_source_file = [], da_user_source_file = [],
     da_launch_kernel_file = [], da_launch_work_dim = 1, da_current_line = 0,
     da_current_stop = \<lparr>stopped = empty_work_item, visible = []\<rparr>, da_next_thread_id = 1\<rparr>"

section \<open>Messages out\<close>

definition crlf2 :: string where
  "crlf2 = [CHR 0x0D, CHR 0x0A, CHR 0x0D, CHR 0x0A]"

text \<open>\<^verbatim>\<open>send_raw_message\<close>\<close>

definition frame_message :: "string \<Rightarrow> string" where
  "frame_message payload = ''Content-Length: '' @ dec_of_nat (length payload) @ crlf2 @ payload"

definition output_text :: "json_lib \<Rightarrow> ('b, 'c) dap \<Rightarrow> string" where
  "output_text J s = concat (map (\<lambda>v. frame_message (jl_show J v)) (da_sent s))"

text \<open>The body is printed by the handlers and parsed again here; a body that cannot be parsed is left empty.\<close>

definition body_value :: "json_lib \<Rightarrow> string \<Rightarrow> json" where
  "body_value J body = (if body \<noteq> [] \<and> body \<noteq> ''{}''
     then (case jl_parse J body of Some v \<Rightarrow> v | None \<Rightarrow> JObject []) else JObject [])"

definition make_response :: "json_lib \<Rightarrow> int \<Rightarrow> int \<Rightarrow> string \<Rightarrow> string \<Rightarrow> json" where
  "make_response J next_seq req_seq cmd body =
     JObject (object_of [(''seq'', JInt next_seq), (''type'', JString ''response''), (''request_seq'', JInt req_seq),
       (''command'', JString cmd), (''success'', JBool True), (''body'', body_value J body)])"

definition make_event :: "json_lib \<Rightarrow> int \<Rightarrow> string \<Rightarrow> string \<Rightarrow> json" where
  "make_event J next_seq event body =
     JObject (object_of [(''seq'', JInt next_seq), (''type'', JString ''event''), (''event'', JString event), (''body'', body_value J body)])"

definition send_response :: "json_lib \<Rightarrow> int \<Rightarrow> string \<Rightarrow> string \<Rightarrow> ('b, 'c) dap \<Rightarrow> ('b, 'c) dap" where
  "send_response J req_seq cmd body s =
     s\<lparr>da_sent := da_sent s @ [make_response J (da_next_seq s) req_seq cmd body], da_next_seq := da_next_seq s + 1\<rparr>"

definition send_event :: "json_lib \<Rightarrow> string \<Rightarrow> string \<Rightarrow> ('b, 'c) dap \<Rightarrow> ('b, 'c) dap" where
  "send_event J event body s =
     s\<lparr>da_sent := da_sent s @ [make_event J (da_next_seq s) event body], da_next_seq := da_next_seq s + 1\<rparr>"

definition show_object :: "json_lib \<Rightarrow> (string \<times> json) list \<Rightarrow> string" where
  "show_object J kvs = jl_show J (JObject (object_of kvs))"

section \<open>The stop callback\<close>

fun add_threads :: "'c ocl_work_item list \<Rightarrow> int \<Rightarrow> (int, 'c ocl_work_item) omap \<Rightarrow> int \<times> (int, 'c ocl_work_item) omap" where
  "add_threads [] n m = (n, m)"
| "add_threads (wi # wis) n m = add_threads wis (n + 1) (om_insert n wi m)"

definition on_stop :: "json_lib \<Rightarrow> 'c ocl_stop_context \<Rightarrow> ('b, 'c) dap \<Rightarrow> ('b, 'c) dap" where
  "on_stop J ctx s =
     (let stopped_id = 1;
          (next_id, threads) = add_threads (visible ctx) (stopped_id + 1) (om_insert stopped_id (stopped ctx) []);
          s1 = s\<lparr>da_current_stop := ctx, da_threads := threads, da_next_thread_id := next_id, da_stopped_thread_id := stopped_id,
                 da_selected_wi := None,
                 da_current_line := (if loc_line (location (stopped ctx)) > 0 then loc_line (location (stopped ctx)) else da_current_line s),
                 da_current_source_file := (if loc_file (location (stopped ctx)) \<noteq> [] then loc_file (location (stopped ctx))
                                            else da_current_source_file s)\<rparr>
      in send_event J ''stopped'' (show_object J [(''reason'', JString ''breakpoint''), (''threadId'', JInt stopped_id),
           (''allThreadsStopped'', JBool True)]) s1)"

definition after_run :: "json_lib \<Rightarrow> ('b \<times> 'c ocl_stop_context option) option \<Rightarrow> ('b, 'c) dap \<Rightarrow> ('b, 'c) dap option" where
  "after_run J r s =
     (case r of
        None \<Rightarrow> None
      | Some (b, None) \<Rightarrow> Some (s\<lparr>da_backend := b\<rparr>)
      | Some (b, Some ctx) \<Rightarrow> Some (on_stop J ctx (s\<lparr>da_backend := b\<rparr>)))"

section \<open>Initialisation, launch, breakpoints\<close>

definition handle_initialize :: "json_lib \<Rightarrow> int \<Rightarrow> ('b, 'c) dap \<Rightarrow> ('b, 'c) dap" where
  "handle_initialize J req_seq s =
     send_event J ''initialized'' ''{}'' (send_response J req_seq ''initialize'' (show_object J
       [(''supportsConfigurationDoneRequest'', JBool True), (''supportsFunctionBreakpoints'', JBool False),
        (''supportsConditionalBreakpoints'', JBool False), (''supportsEvaluateForHovers'', JBool True),
        (''supportsStepBack'', JBool False), (''supportsSetVariable'', JBool False)]) s)"

definition environment_calls :: "json_object \<Rightarrow> os_call list" where
  "environment_calls args =
     List.map_filter (\<lambda>e. case as_object e of None \<Rightarrow> None
         | Some obj \<Rightarrow> (case (get_string obj ''name'', get_string obj ''value'') of (Some n, Some v) \<Rightarrow> Some (Setenv n v) | _ \<Rightarrow> None))
       (value_or (get_array args ''environment'') [])
     @ List.map_filter (\<lambda>(k, v). map_option (Setenv k) (as_string v)) (value_or (get_object args ''env'') [])
     @ (case get_string args ''cwd'' of None \<Rightarrow> [] | Some d \<Rightarrow> [Chdir d])"

definition host_arguments :: "json_object \<Rightarrow> string list" where
  "host_arguments args = List.map_filter as_string (value_or (get_array args ''args'') [])"

definition launch_settings :: "json_object \<Rightarrow> ('b, 'c) dap \<Rightarrow> ('b, 'c) dap" where
  "launch_settings args s =
     (let host_args = host_arguments args;
          k0 = value_or (get_string args ''kernel'') (da_launch_kernel_file s);
          k = (if k0 = [] then value_or (find (\<lambda>a. ends_with a ''.cl'') host_args) [] else k0)
      in s\<lparr>da_launch_kernel_file := k,
           da_current_source_file := (if k \<noteq> [] then k else da_current_source_file s),
           da_user_source_file := (if k \<noteq> [] then k else da_user_source_file s),
           da_launch_work_dim := infer_work_dim_from_args host_args,
           da_os := da_os s @ environment_calls args\<rparr>)"

definition handle_launch :: "json_lib \<Rightarrow> ('b, 'c) backend_api \<Rightarrow> int \<Rightarrow> json_object option \<Rightarrow> ('b, 'c) dap \<Rightarrow> ('b, 'c) dap" where
  "handle_launch J B req_seq args s =
     (let (program, host_args, s1) = (case args of None \<Rightarrow> ([], [], s)
            | Some a \<Rightarrow> (value_or (get_string a ''program'') [], host_arguments a, launch_settings a s))
      in send_response J req_seq ''launch'' ''{}'' (s1\<lparr>da_backend := snd (ba_launch B program host_args (da_backend s1))\<rparr>))"

definition extract_source_path :: "json_object option \<Rightarrow> string" where
  "extract_source_path args =
     (case Option.bind args (\<lambda>a. get_object a ''source'') of
        None \<Rightarrow> []
      | Some src \<Rightarrow> (case get_string src ''path'' of Some p \<Rightarrow> p | None \<Rightarrow> value_or (get_string src ''name'') []))"

text \<open>\<^verbatim>\<open>static_cast<int64_t>\<close> of an id, and the response to one breakpoint.\<close>

definition create_bp_response :: "('b, 'c) backend_api \<Rightarrow> string \<Rightarrow> json \<Rightarrow> 'b \<Rightarrow> json \<times> 'b" where
  "create_bp_response B file_path bp_val b =
     (case as_object bp_val of
        None \<Rightarrow> (JObject [], b)
      | Some obj \<Rightarrow>
          let line = value_or (get_integer obj ''line'') 0;
              (bp_id, b1) = (if line > 0 then ba_set_breakpoint B \<lparr>loc_file = file_path, loc_line = word_of_int line\<rparr> b else (0, b))
          in (JObject (object_of [(''id'', JInt (sint bp_id)), (''verified'', JBool (bp_id > 0)), (''line'', JInt line)]), b1))"

fun create_bp_responses :: "('b, 'c) backend_api \<Rightarrow> string \<Rightarrow> json list \<Rightarrow> 'b \<Rightarrow> json list \<times> 'b" where
  "create_bp_responses B file_path [] b = ([], b)"
| "create_bp_responses B file_path (v # vs) b =
     (let (r, b1) = create_bp_response B file_path v b; (rs, b2) = create_bp_responses B file_path vs b1 in (r # rs, b2))"

definition handle_set_breakpoints :: "json_lib \<Rightarrow> ('b, 'c) backend_api \<Rightarrow> int \<Rightarrow> json_object option \<Rightarrow> ('b, 'c) dap \<Rightarrow> ('b, 'c) dap" where
  "handle_set_breakpoints J B req_seq args s =
     (let file_path = extract_source_path args;
          s1 = (if file_path \<noteq> [] then s\<lparr>da_current_source_file := file_path,
                  da_user_source_file := (if da_user_source_file s = [] \<or> da_launch_kernel_file s = [] then file_path
                                          else da_user_source_file s)\<rparr> else s);
          (resps, b) = create_bp_responses B file_path (value_or (Option.bind args (\<lambda>a. get_array a ''breakpoints'')) []) (da_backend s1)
      in send_response J req_seq ''setBreakpoints'' (show_object J [(''breakpoints'', JArray resps)]) (s1\<lparr>da_backend := b\<rparr>))"

definition handle_configuration_done :: "json_lib \<Rightarrow> ('b, 'c) backend_api \<Rightarrow> int \<Rightarrow> ('b, 'c) dap \<Rightarrow> ('b, 'c) dap option" where
  "handle_configuration_done J B req_seq s =
     (let s1 = send_response J req_seq ''configurationDone'' ''{}'' s in after_run J (ba_resume B (da_backend s1)) s1)"

section \<open>Threads and stack frames\<close>

definition thread_name :: "size_t \<Rightarrow> int \<Rightarrow> 'c ocl_work_item \<Rightarrow> string" where
  "thread_name default_dim tid wi =
     (if function_name wi \<noteq> [] \<and> \<not> contains (function_name wi) ''workgroup''
      then ''Host Thread #'' @ to_string_signed tid @ '' ('' @ function_name wi @ '')''
      else format_dap_work_item_name wi default_dim)"

definition thread_entry :: "size_t \<Rightarrow> int \<times> 'c ocl_work_item \<Rightarrow> json" where
  "thread_entry default_dim e = JObject (object_of [(''id'', JInt (fst e)), (''name'', JString (thread_name default_dim (fst e) (snd e)))])"

definition handle_threads :: "json_lib \<Rightarrow> int \<Rightarrow> ('b, 'c) dap \<Rightarrow> ('b, 'c) dap" where
  "handle_threads J req_seq s =
     send_response J req_seq ''threads''
       (show_object J [(''threads'', JArray (map (thread_entry (da_launch_work_dim s)) (da_threads s)))]) s"

record stack_frame_info =
  sf_file :: string
  sf_path :: string
  sf_line :: u32
  sf_fn_name :: string

definition extract_frame_info :: "'c ocl_work_item \<Rightarrow> string \<Rightarrow> u32 \<Rightarrow> stack_frame_info" where
  "extract_frame_info wi default_file default_line =
     (let file0 = (if default_file = [] then ''kernel.cl'' else default_file);
          line0 = (if default_line > 0 then default_line else 1);
          file = (if loc_file (location wi) \<noteq> [] then loc_file (location wi) else file0)
      in \<lparr>sf_file = file, sf_path = file,
          sf_line = (if loc_line (location wi) > 0 then loc_line (location wi) else line0),
          sf_fn_name = (if function_name wi \<noteq> [] then clean_kernel_function_name (function_name wi) else ''kernel'')\<rparr>)"

text \<open>What follows the last slash or backslash.\<close>

definition base_name :: "string \<Rightarrow> string" where
  "base_name p = rev (takeWhile (\<lambda>c. c \<noteq> CHR ''/'' \<and> c \<noteq> CHR 0x5C) (rev p))"

definition resolve_temp_source :: "string \<Rightarrow> stack_frame_info \<Rightarrow> stack_frame_info" where
  "resolve_temp_source preferred_path info =
     (if \<not> starts_with (sf_file info) ''tempfile_'' \<or> \<not> ends_with (sf_file info) ''.cl'' \<or> preferred_path = [] then info
      else info\<lparr>sf_path := preferred_path, sf_file := base_name preferred_path\<rparr>)"

definition requested_thread :: "json_object option \<Rightarrow> ('b, 'c) dap \<Rightarrow> int" where
  "requested_thread args s = (case args of None \<Rightarrow> da_stopped_thread_id s
     | Some a \<Rightarrow> to_int32 (value_or (get_integer a ''threadId'') (da_stopped_thread_id s)))"

definition item_of_thread :: "int \<Rightarrow> ('b, 'c) dap \<Rightarrow> 'c ocl_work_item" where
  "item_of_thread tid s = (case map_of (da_threads s) tid of Some wi \<Rightarrow> wi | None \<Rightarrow> stopped (da_current_stop s))"

text \<open>\<^verbatim>\<open>(tid * 10) + 1\<close> in \<^verbatim>\<open>int\<close>; \<open>None\<close> on overflow.\<close>

definition frame_id_of :: "int \<Rightarrow> int option" where
  "frame_id_of tid = (if int32_range (tid * 10) \<and> int32_range (tid * 10 + 1) then Some (tid * 10 + 1) else None)"

definition frame_entry :: "int \<Rightarrow> stack_frame_info \<Rightarrow> json" where
  "frame_entry fid info = JObject (object_of [(''id'', JInt fid), (''name'', JString (sf_fn_name info)), (''line'', JInt (uint (sf_line info))),
     (''column'', JInt 1), (''source'', JObject (object_of [(''name'', JString (sf_file info)), (''path'', JString (sf_path info))]))])"

definition handle_stack_trace :: "json_lib \<Rightarrow> int \<Rightarrow> json_object option \<Rightarrow> ('b, 'c) dap \<Rightarrow> ('b, 'c) dap option" where
  "handle_stack_trace J req_seq args s =
     (let tid = requested_thread args s;
          fallback = (if da_launch_kernel_file s \<noteq> [] then da_launch_kernel_file s else da_user_source_file s);
          info = resolve_temp_source fallback
                   (extract_frame_info (item_of_thread tid s) (da_current_source_file s) (da_current_line s))
      in map_option (\<lambda>fid. send_response J req_seq ''stackTrace''
             (show_object J [(''stackFrames'', JArray [frame_entry fid info]), (''totalFrames'', JInt 1)]) s) (frame_id_of tid))"

section \<open>Scopes and variables\<close>

text \<open>\<^verbatim>\<open>frame_id * 100\<close> in \<^verbatim>\<open>int64_t\<close>, and the reference after it; \<open>None\<close> on overflow.\<close>

definition base_ref_of :: "int \<Rightarrow> int option" where
  "base_ref_of fid = (if int64_range (fid * 100) \<and> int64_range (fid * 100 + 1) then Some (fid * 100) else None)"

definition scope_entry :: "string \<Rightarrow> int \<Rightarrow> json" where
  "scope_entry name ref = JObject (object_of [(''name'', JString name), (''variablesReference'', JInt ref), (''expensive'', JBool False)])"

definition handle_scopes :: "json_lib \<Rightarrow> int \<Rightarrow> json_object option \<Rightarrow> ('b, 'c) dap \<Rightarrow> ('b, 'c) dap option" where
  "handle_scopes J req_seq args s =
     (let fid = (case args of None \<Rightarrow> 1 | Some a \<Rightarrow> value_or (get_integer a ''frameId'') 1)
      in map_option (\<lambda>ref. send_response J req_seq ''scopes''
             (show_object J [(''scopes'', JArray [scope_entry ''__local'' ref, scope_entry ''__global'' (ref + 1)])]) s) (base_ref_of fid))"

definition is_global_var :: "var_value \<Rightarrow> bool" where
  "is_global_var v \<longleftrightarrow> vv_address_space v = ''__global'' \<or> vv_address_space v = ''__constant''"

definition variable_entry :: "var_value \<Rightarrow> json" where
  "variable_entry v = JObject (object_of [(''name'', JString (vv_name v)),
     (''value'', JString (if vv_available v then vv_value_str v else ''<unavailable>'')),
     (''type'', JString (vv_type_name v @ (if vv_address_space v \<noteq> [] then '' '' @ vv_address_space v else []))),
     (''variablesReference'', JInt 0)])"

definition populate_resolved_vars :: "var_value list \<Rightarrow> bool \<Rightarrow> json list" where
  "populate_resolved_vars resolved is_globals = map variable_entry (filter (\<lambda>v. is_global_var v = is_globals) resolved)"

definition resolve_target_wi :: "int \<Rightarrow> ('b, 'c) dap \<Rightarrow> 'c ocl_work_item" where
  "resolve_target_wi tid s =
     (case map_of (da_threads s) tid of
        Some wi \<Rightarrow> wi
      | None \<Rightarrow> (case da_selected_wi s of Some wi \<Rightarrow> wi | None \<Rightarrow> stopped (da_current_stop s)))"

text \<open>The thread and the scope a positive reference stands for.\<close>

definition decode_ref :: "int \<Rightarrow> int \<times> bool" where
  "decode_ref ref = (let is_globals = (ref mod 100 = 1); base = (if is_globals then ref - 1 else ref)
     in (to_int32 (base div 100 div 10), is_globals))"

definition handle_variables :: "json_lib \<Rightarrow> ('b, 'c) backend_api \<Rightarrow> int \<Rightarrow> json_object option \<Rightarrow> ('b, 'c) dap \<Rightarrow> ('b, 'c) dap option" where
  "handle_variables J B req_seq args s =
     (let ref = (case args of None \<Rightarrow> 0 | Some a \<Rightarrow> value_or (get_integer a ''variablesReference'') 0);
          respond = (\<lambda>vars s. send_response J req_seq ''variables'' (show_object J [(''variables'', JArray vars)]) s)
      in if ref \<le> 0 then Some (respond [] s)
         else let (tid0, is_globals) = decode_ref ref;
                  tid = (if tid0 = 0 then da_stopped_thread_id s else tid0)
              in map_option (\<lambda>(resolved, b). respond (populate_resolved_vars resolved is_globals) (s\<lparr>da_backend := b\<rparr>))
                   (ba_resolve B (resolve_target_wi tid s) (da_backend s)))"

section \<open>Selection and execution\<close>

definition requested_item :: "json_object option \<Rightarrow> size3" where
  "requested_item args =
     (let coord = (\<lambda>k. case args of None \<Rightarrow> 0 | Some a \<Rightarrow> word_of_int (value_or (get_integer a k) 0))
      in Size3 (coord ''gx'') (coord ''gy'') (coord ''gz''))"

definition handle_select_work_item :: "json_lib \<Rightarrow> ('b, 'c) backend_api \<Rightarrow> int \<Rightarrow> json_object option \<Rightarrow> ('b, 'c) dap \<Rightarrow> ('b, 'c) dap" where
  "handle_select_work_item J B req_seq args s =
     (case ba_select_work_item B (requested_item args) (da_backend s) of
        (Some wi, b) \<Rightarrow> send_response J req_seq ''ocldbg/selectWorkItem''
            (show_object J [(''selected'', JBool True), (''workItem'', JString (format_dap_work_item_name wi (da_launch_work_dim s)))])
            (s\<lparr>da_backend := b, da_selected_wi := Some wi\<rparr>)
      | (None, b) \<Rightarrow> send_response J req_seq ''ocldbg/selectWorkItem'' ''{\"selected\":false}'' (s\<lparr>da_backend := b\<rparr>))"

definition handle_step :: "json_lib \<Rightarrow> ('b, 'c) backend_api \<Rightarrow> int \<Rightarrow> string \<Rightarrow> json_object option \<Rightarrow> ('b, 'c) dap \<Rightarrow> ('b, 'c) dap option" where
  "handle_step J B req_seq cmd args s =
     (let wi = item_of_thread (requested_thread args s) s; s1 = send_response J req_seq cmd ''{}'' s
      in if cmd = ''next'' then after_run J (ba_step_over B wi (da_backend s1)) s1
         else if cmd = ''stepIn'' then after_run J (ba_step_in B wi (da_backend s1)) s1 else Some s1)"

definition handle_continue :: "json_lib \<Rightarrow> ('b, 'c) backend_api \<Rightarrow> int \<Rightarrow> ('b, 'c) dap \<Rightarrow> ('b, 'c) dap option" where
  "handle_continue J B req_seq s =
     (let s1 = send_response J req_seq ''continue'' ''{\"allThreadsContinued\":true}'' s in after_run J (ba_resume B (da_backend s1)) s1)"

definition handle_disconnect :: "json_lib \<Rightarrow> ('b, 'c) backend_api \<Rightarrow> int \<Rightarrow> ('b, 'c) dap \<Rightarrow> ('b, 'c) dap" where
  "handle_disconnect J B req_seq s =
     (let s1 = send_response J req_seq ''disconnect'' ''{}'' s in s1\<lparr>da_backend := ba_detach B (da_backend s1), da_running := False\<rparr>)"

section \<open>Dispatch\<close>

definition dispatch_request :: "json_lib \<Rightarrow> ('b, 'c) backend_api \<Rightarrow> string \<Rightarrow> int \<Rightarrow> json_object option \<Rightarrow> ('b, 'c) dap \<Rightarrow> ('b, 'c) dap option" where
  "dispatch_request J B command req_seq args s =
     (if command = ''initialize'' then Some (handle_initialize J req_seq s)
      else if command = ''launch'' then Some (handle_launch J B req_seq args s)
      else if command = ''setBreakpoints'' then Some (handle_set_breakpoints J B req_seq args s)
      else if command = ''setExceptionBreakpoints'' then Some (send_response J req_seq ''setExceptionBreakpoints'' ''{}'' s)
      else if command = ''configurationDone'' then handle_configuration_done J B req_seq s
      else if command = ''threads'' then Some (handle_threads J req_seq s)
      else if command = ''stackTrace'' then handle_stack_trace J req_seq args s
      else if command = ''scopes'' then handle_scopes J req_seq args s
      else if command = ''variables'' then handle_variables J B req_seq args s
      else if command = ''continue'' then handle_continue J B req_seq s
      else if command = ''next'' \<or> command = ''stepIn'' then handle_step J B req_seq command args s
      else if command = ''ocldbg/selectWorkItem'' then Some (handle_select_work_item J B req_seq args s)
      else if command = ''disconnect'' then Some (handle_disconnect J B req_seq s)
      else Some (send_response J req_seq command ''{}'' s))"

text \<open>A message that is a request: its command, sequence number and arguments.\<close>

definition request_of :: "json \<Rightarrow> (string \<times> int \<times> json_object option) option" where
  "request_of v =
     (case as_object v of
        None \<Rightarrow> None
      | Some obj \<Rightarrow> if get_string obj ''type'' \<noteq> Some ''request'' then None
          else map_option (\<lambda>cmd. (cmd, to_int32 (value_or (get_integer obj ''seq'') 0), get_object obj ''arguments''))
                 (get_string obj ''command''))"

definition handle_message :: "json_lib \<Rightarrow> ('b, 'c) backend_api \<Rightarrow> string \<Rightarrow> ('b, 'c) dap \<Rightarrow> ('b, 'c) dap option" where
  "handle_message J B msg s =
     (case Option.bind (jl_parse J msg) request_of of
        None \<Rightarrow> Some s
      | Some (command, req_seq, args) \<Rightarrow> dispatch_request J B command req_seq args s)"

section \<open>Messages in\<close>

definition strip_line_end :: "string \<Rightarrow> string" where
  "strip_line_end l = rev (dropWhile (\<lambda>c. c = CHR 0x0D \<or> c = CHR 0x0A) (rev l))"

definition header_length :: "string \<Rightarrow> size_t" where
  "header_length l = (case stoul (dropWhile isspace (drop 15 l)) of Inl e \<Rightarrow> 0 | Inr n \<Rightarrow> n)"

text \<open>The content length, the rest of the input, and whether its end was reached.\<close>

function read_header :: "string \<Rightarrow> bool \<Rightarrow> size_t \<Rightarrow> (size_t \<times> string \<times> bool) option" where
  "read_header s got_header content_length =
     (case get_line s of
        None \<Rightarrow> None
      | Some (l0, rest, eof) \<Rightarrow>
          let l = strip_line_end l0 in
          if l = [] then (if got_header then Some (content_length, rest, eof) else read_header rest got_header content_length)
          else if starts_with l ''Content-Length:'' then read_header rest True (header_length l)
          else read_header rest got_header content_length)"
  by pat_completeness auto

termination read_header
  by (relation "measure (\<lambda>(s, _). length s)") (auto dest: get_line_shorter)

declare read_header.simps [simp del]

definition read_dap_header :: "string \<Rightarrow> (size_t \<times> string \<times> bool) option" where
  "read_dap_header s = read_header s False 0"

text \<open>
  The next message and the input after it; \<open>None\<close> ends the session, which a content length that cannot be
  allocated does too.
\<close>

definition read_dap_message :: "string \<Rightarrow> (string \<times> string) option" where
  "read_dap_message s =
     (case read_dap_header s of
        None \<Rightarrow> None
      | Some (n, rest, eof) \<Rightarrow> if n = 0 \<or> eof \<or> length rest < unat n then None else Some (take (unat n) rest, drop (unat n) rest))"

lemma read_header_shorter: "read_header s g n = Some (n', rest, eof) \<Longrightarrow> length rest < length s"
proof (induction s g n rule: read_header.induct)
  case (1 s g n)
  obtain l0 r e where l: "get_line s = Some (l0, r, e)" using "1.prems" by (auto simp: read_header.simps [of s] split: option.splits)
  note sh = get_line_shorter [OF l]
  show ?case
  proof (cases "strip_line_end l0 = []")
    case True
    show ?thesis
    proof (cases g)
      case True
      with "1.prems" l sh \<open>strip_line_end l0 = []\<close> show ?thesis by (simp add: read_header.simps [of s])
    next
      case False
      with "1.prems" l \<open>strip_line_end l0 = []\<close> have "read_header r g n = Some (n', rest, eof)" by (simp add: read_header.simps [of s])
      from "1.IH"(1) [OF l refl refl refl \<open>strip_line_end l0 = []\<close> False this] sh show ?thesis by simp
    qed
  next
    case False
    show ?thesis
    proof (cases "starts_with (strip_line_end l0) ''Content-Length:''")
      case True
      with "1.prems" l False have "read_header r True (header_length (strip_line_end l0)) = Some (n', rest, eof)"
        by (simp add: read_header.simps [of s])
      from "1.IH"(2) [OF l refl refl refl False True this] sh show ?thesis by simp
    next
      case no: False
      with "1.prems" l False have "read_header r g n = Some (n', rest, eof)" by (simp add: read_header.simps [of s])
      from "1.IH"(3) [OF l refl refl refl False no this] sh show ?thesis by simp
    qed
  qed
qed

lemma read_message_shorter: "read_dap_message s = Some (msg, rest) \<Longrightarrow> length rest < length s"
  by (auto simp: read_dap_message_def read_dap_header_def dest!: read_header_shorter split: option.splits if_splits)

text \<open>\<^verbatim>\<open>run_stdio\<close> on all that a client sends.\<close>

function serve_input :: "json_lib \<Rightarrow> ('b, 'c) backend_api \<Rightarrow> string \<Rightarrow> ('b, 'c) dap \<Rightarrow> ('b, 'c) dap option" where
  "serve_input J B input s =
     (if \<not> da_running s then Some s
      else case read_dap_message input of
        None \<Rightarrow> Some s
      | Some (msg, rest) \<Rightarrow> (case handle_message J B msg s of None \<Rightarrow> None | Some s' \<Rightarrow> serve_input J B rest s'))"
  by pat_completeness auto

termination serve_input
  by (relation "measure (\<lambda>(J, B, input, s). length input)") (auto dest: read_message_shorter)

declare serve_input.simps [simp del]

definition run_stdio :: "json_lib \<Rightarrow> ('b, 'c) backend_api \<Rightarrow> string \<Rightarrow> ('b, 'c) dap \<Rightarrow> ('b, 'c) dap option" where
  "run_stdio J B input s = serve_input J B input (s\<lparr>da_running := True\<rparr>)"

text \<open>
  \<^verbatim>\<open>run_tcp\<close>: what the operating system answers to \<^verbatim>\<open>socket\<close>, to \<^verbatim>\<open>bind\<close> and \<^verbatim>\<open>listen\<close>, and the
  bytes of the client \<^verbatim>\<open>accept\<close> gives, which take the place of the standard input (\<^verbatim>\<open>dup2\<close> succeeds).
\<close>

record tcp_answers =
  tcp_socket :: bool
  tcp_listen :: bool
  tcp_client :: "string option"

definition run_tcp :: "json_lib \<Rightarrow> ('b, 'c) backend_api \<Rightarrow> tcp_answers \<Rightarrow> ('b, 'c) dap \<Rightarrow> ('b, 'c) dap option" where
  "run_tcp J B net s =
     (if \<not> tcp_socket net \<or> \<not> tcp_listen net then Some s
      else case tcp_client net of None \<Rightarrow> Some s | Some input \<Rightarrow> run_stdio J B input s)"

end
