(* ===== verification/DapProtocol.thy ===== *)
theory DapProtocol
  imports DapServer "HOL-Library.Countable"
begin

text \<open>
  Properties of the DAP server as a protocol: how it cuts its input into messages, that it answers every
  request once and numbers what it sends, and what the threads, frames and variable references it hands out
  mean when they come back.
\<close>

section \<open>Cutting the input into messages\<close>

lemma strip_return: "strip_line_end (l @ [CHR 0x0D]) = strip_line_end l"
  by (simp add: strip_line_end_def)

lemma strip_dec: "strip_line_end (l @ dec_of_nat n) = l @ dec_of_nat n"
proof -
  obtain ds d where d: "dec_of_nat n = ds @ [d]" by (cases "dec_of_nat n" rule: rev_cases) auto
  with dec_of_nat_digits [of n] have "is_digit d" by simp
  then have "d \<noteq> CHR 0x0D" "d \<noteq> CHR 0x0A" by (auto simp: is_digit_def)
  then show ?thesis by (simp add: strip_line_end_def d)
qed

lemma newline_notin_dec: "CHR 0x0A \<notin> set (dec_of_nat n)"
  using dec_of_nat_digits [of n] by (auto simp: is_digit_def)

lemma read_header_step:
  "get_line s = Some (l0, rest, eof) \<Longrightarrow> read_header s g n =
     (if strip_line_end l0 = [] then (if g then Some (n, rest, eof) else read_header rest g n)
      else if starts_with (strip_line_end l0) ''Content-Length:'' then read_header rest True (header_length (strip_line_end l0))
      else read_header rest g n)"
  by (subst read_header.simps) (simp add: Let_def)

lemma read_framed:
  assumes "payload \<noteq> []" "length payload < 2 ^ 64"
  shows "read_dap_message (frame_message payload @ rest) = Some (payload, rest)"
proof -
  obtain h where h: "h = ''Content-Length: '' @ dec_of_nat (length payload)" by blast
  have in1: "frame_message payload @ rest = (h @ [CHR 0x0D]) @ CHR 0x0A # ([CHR 0x0D] @ CHR 0x0A # (payload @ rest))"
    by (simp add: frame_message_def crlf2_def h)
  have l1: "get_line (frame_message payload @ rest) = Some (h @ [CHR 0x0D], [CHR 0x0D] @ CHR 0x0A # (payload @ rest), False)"
    unfolding in1 by (rule get_line_newline) (simp add: newline_notin_dec h)
  have l2: "get_line ([CHR 0x0D] @ CHR 0x0A # (payload @ rest)) = Some ([CHR 0x0D], payload @ rest, False)"
    by (rule get_line_newline) simp
  have s1: "strip_line_end (h @ [CHR 0x0D]) = h" unfolding strip_return h by (rule strip_dec)
  have s2: "strip_line_end [CHR 0x0D] = []" by (simp add: strip_line_end_def)
  have len: "header_length h = of_nat (length payload)"
    using assms(2) dropWhile_space_dec [of "length payload" "[]"]
    by (simp add: header_length_def stoul_def scan_number_dec_Nil h)
  have st: "starts_with h ''Content-Length:''" "h \<noteq> []" by (simp_all add: starts_with_def h)
  have "read_dap_header (frame_message payload @ rest) = Some (of_nat (length payload), payload @ rest, False)"
    unfolding read_dap_header_def read_header_step [OF l1] read_header_step [OF l2] s1 s2 using st len by simp
  moreover have u: "unat (of_nat (length payload) :: size_t) = length payload" using assms(2) by (simp add: unat_of_nat)
  moreover have "(of_nat (length payload) :: size_t) \<noteq> 0" using u assms(1) by (metis length_0_conv unat_0)
  ultimately show ?thesis by (simp add: read_dap_message_def)
qed

lemma read_nothing: "read_dap_message [] = None"
  by (simp add: read_dap_message_def read_dap_header_def read_header.simps get_line_def)

fun handle_all :: "json_lib \<Rightarrow> ('b, 'c) backend_api \<Rightarrow> string list \<Rightarrow> ('b, 'c) dap \<Rightarrow> ('b, 'c) dap option" where
  "handle_all J B [] s = Some s"
| "handle_all J B (m # ms) s = (if \<not> da_running s then Some s else Option.bind (handle_message J B m s) (handle_all J B ms))"

lemma serve_framed_tail:
  "\<forall>m \<in> set ms. m \<noteq> [] \<and> length m < 2 ^ 64 \<Longrightarrow> read_dap_message tail = None \<Longrightarrow>
     serve_input J B (concat (map frame_message ms) @ tail) s = handle_all J B ms s"
proof (induction ms arbitrary: s)
  case Nil
  then show ?case by (simp add: serve_input.simps [of J B])
next
  case (Cons m ms)
  have r: "read_dap_message (concat (map frame_message (m # ms)) @ tail) = Some (m, concat (map frame_message ms) @ tail)"
    using read_framed [of m] Cons.prems by simp
  show ?case
    by (subst serve_input.simps) (use Cons in \<open>simp add: r split: bind_splits option.split del: concat.simps list.map append.simps append_assoc\<close>)
qed

lemma serve_framed:
  "\<forall>m \<in> set ms. m \<noteq> [] \<and> length m < 2 ^ 64 \<Longrightarrow> serve_input J B (concat (map frame_message ms)) s = handle_all J B ms s"
  using serve_framed_tail [OF _ read_nothing] by simp

text \<open>
  Messages framed as the protocol says, however many of them, of whatever bytes and back to back, are
  the messages the server handles, one after the other, until a disconnect or the end of the input.
\<close>

theorem framed_messages_handled:
  assumes "\<forall>m \<in> set ms. m \<noteq> [] \<and> length m < 2 ^ 64"
  shows "run_stdio J B (concat (map frame_message ms)) s = handle_all J B ms (s\<lparr>da_running := True\<rparr>)"
  using assms by (simp add: run_stdio_def serve_framed)

section \<open>One response for every request\<close>

text \<open>The texts the handlers write as a body: a printed object, or one of three literals.\<close>

definition written_body :: "json_lib \<Rightarrow> string \<Rightarrow> bool" where
  "written_body J body \<longleftrightarrow> body \<in> {''{}'', ''{\"selected\":false}'', ''{\"allThreadsContinued\":true}''} \<or> (\<exists>kvs. body = show_object J kvs)"

lemma written_bodies [simp]: "written_body J ''{}''" "written_body J ''{\"selected\":false}''"
    "written_body J ''{\"allThreadsContinued\":true}''" "written_body J (show_object J kvs)"
  unfolding written_body_def by blast+

text \<open>What a handler sends: the response, and then at most one event.\<close>

definition answers :: "json_lib \<Rightarrow> int \<Rightarrow> string \<Rightarrow> ('b, 'c) dap \<Rightarrow> ('b, 'c) dap \<Rightarrow> bool" where
  "answers J req_seq cmd s s' \<longleftrightarrow>
     (\<exists>body evs. da_sent s' = da_sent s @ make_response J (da_next_seq s) req_seq cmd body # evs \<and> written_body J body
        \<and> (evs = [] \<or> (\<exists>e b. evs = [make_event J (da_next_seq s + 1) e b] \<and> written_body J b))
        \<and> da_next_seq s' = da_next_seq s + 1 + int (length evs))"

lemma answers_response:
  assumes "da_sent s1 = da_sent s" "da_next_seq s1 = da_next_seq s" "written_body J body"
  shows "answers J q c s (send_response J q c body s1)"
  unfolding answers_def by (rule exI [of _ body], rule exI [of _ "[]"]) (simp add: send_response_def assms)

lemma running_send [simp]: "da_running (send_response J q c body s) = da_running s"
  by (simp add: send_response_def)

lemma answers_with_event:
  assumes "da_sent s' = da_sent s @ [make_response J (da_next_seq s) q c body, make_event J (da_next_seq s + 1) e b]"
    "da_next_seq s' = da_next_seq s + 2" "written_body J body" "written_body J b"
  shows "answers J q c s s'"
  unfolding answers_def using assms
  by (intro exI [of _ body] exI [of _ "[make_event J (da_next_seq s + 1) e b]"]) auto

lemma answers_frame:
  "answers J q c s s' \<Longrightarrow> da_sent s'' = da_sent s' \<Longrightarrow> da_next_seq s'' = da_next_seq s' \<Longrightarrow> answers J q c s s''"
  by (simp add: answers_def)

lemma on_stop_sent:
  "\<exists>body. da_sent (on_stop J ctx s) = da_sent s @ [make_event J (da_next_seq s) ''stopped'' body] \<and> written_body J body
    \<and> da_next_seq (on_stop J ctx s) = da_next_seq s + 1 \<and> da_running (on_stop J ctx s) = da_running s"
  by (auto simp: on_stop_def Let_def send_event_def split: prod.split intro: exI [of _ "show_object J kvs" for kvs])

lemma answers_run:
  assumes "after_run J r (send_response J q c body s) = Some s'" and ok: "written_body J body"
  shows "answers J q c s s' \<and> da_running s' = da_running s"
proof -
  obtain b st where r: "r = Some (b, st)" using assms by (cases r) (auto simp: after_run_def)
  show ?thesis
  proof (cases st)
    case None
    with assms r have s': "s' = (send_response J q c body s)\<lparr>da_backend := b\<rparr>" by (simp add: after_run_def)
    have "answers J q c s (send_response J q c body s)" by (rule answers_response) (simp_all add: ok)
    then show ?thesis by (simp add: s' answers_def send_response_def)
  next
    case (Some ctx)
    with assms r have s': "s' = on_stop J ctx ((send_response J q c body s)\<lparr>da_backend := b\<rparr>)" by (simp add: after_run_def)
    obtain eb where "da_sent s' = da_sent s @ [make_response J (da_next_seq s) q c body, make_event J (da_next_seq s + 1) ''stopped'' eb]"
      "written_body J eb" "da_next_seq s' = da_next_seq s + 2" "da_running s' = da_running s"
      using on_stop_sent [of J ctx "(send_response J q c body s)\<lparr>da_backend := b\<rparr>"] by (auto simp: s' send_response_def)
    then show ?thesis unfolding answers_def
      by (intro conjI exI [of _ body] exI [of _ "[make_event J (da_next_seq s + 1) ''stopped'' eb]"]) (auto simp: ok)
  qed
qed

definition replies :: "json_lib \<Rightarrow> int \<Rightarrow> string \<Rightarrow> ('b, 'c) dap \<Rightarrow> ('b, 'c) dap \<Rightarrow> bool" where
  "replies J q c s s' \<longleftrightarrow> answers J q c s s' \<and> da_running s' = da_running s"

lemma initialize_replies: "handle_initialize J q s = s' \<Longrightarrow> replies J q ''initialize'' s s'"
  unfolding handle_initialize_def replies_def by (auto simp: send_response_def send_event_def intro!: answers_with_event)

lemma launch_replies: "handle_launch J B q args s = s' \<Longrightarrow> replies J q ''launch'' s s'"
  unfolding handle_launch_def replies_def
  by (cases args) (auto simp: launch_settings_def Let_def intro!: answers_response)

lemma plain_replies: "send_response J q c ''{}'' s = s' \<Longrightarrow> replies J q c s s'"
  unfolding replies_def by (auto intro!: answers_response)

lemma handler_replies:
  "handle_set_breakpoints J B q args s = s' \<Longrightarrow> replies J q ''setBreakpoints'' s s'"
  "handle_threads J q s = s' \<Longrightarrow> replies J q ''threads'' s s'"
  unfolding handle_set_breakpoints_def handle_threads_def replies_def
  by (auto simp: Let_def split_beta split: if_splits intro!: answers_response)

lemma select_replies: "handle_select_work_item J B q args s = s' \<Longrightarrow> replies J q ''ocldbg/selectWorkItem'' s s'"
  unfolding handle_select_work_item_def replies_def
  by (auto split: prod.splits option.splits intro!: answers_response)

lemmas immediate_replies = initialize_replies launch_replies plain_replies handler_replies select_replies

lemma query_replies:
  "handle_stack_trace J q args s = Some s' \<Longrightarrow> replies J q ''stackTrace'' s s'"
  "handle_scopes J q args s = Some s' \<Longrightarrow> replies J q ''scopes'' s s'"
  "handle_variables J B q args s = Some s' \<Longrightarrow> replies J q ''variables'' s s'"
  unfolding handle_stack_trace_def handle_scopes_def handle_variables_def replies_def
  by (auto simp: Let_def split_beta split: if_splits intro!: answers_response)

lemma after_run_replies:
  "after_run J r (send_response J q c body s) = Some s' \<Longrightarrow> written_body J body \<Longrightarrow> replies J q c s s'"
  unfolding replies_def by (rule answers_run)

lemma if_chainE: "(if b then x else y) = z \<Longrightarrow> (b \<Longrightarrow> x = z \<Longrightarrow> R) \<Longrightarrow> (\<not> b \<Longrightarrow> y = z \<Longrightarrow> R) \<Longrightarrow> R"
  by (cases b) simp_all

lemma run_replies:
  "handle_configuration_done J B q s = Some s' \<Longrightarrow> replies J q ''configurationDone'' s s'"
  "handle_continue J B q s = Some s' \<Longrightarrow> replies J q ''continue'' s s'"
  unfolding handle_configuration_done_def handle_continue_def Let_def by (erule after_run_replies, simp)+

lemma step_replies:
  assumes "handle_step J B q cmd args s = Some s'"
  shows "replies J q cmd s s'"
  using assms unfolding handle_step_def Let_def
  by (elim if_chainE) (auto elim!: after_run_replies intro: plain_replies)

lemma disconnect_answers:
  "handle_disconnect J B q s = s' \<Longrightarrow> answers J q ''disconnect'' s s' \<and> \<not> da_running s'"
  using answers_response [of s s J "''{}''" q "''disconnect''"]
  by (auto simp: handle_disconnect_def Let_def elim!: answers_frame)

lemma dispatch_answers:
  assumes "dispatch_request J B cmd q args s = Some s'"
  shows "answers J q cmd s s' \<and> da_running s' = (da_running s \<and> cmd \<noteq> ''disconnect'')"
proof -
  have stepping: "cmd = ''next'' \<or> cmd = ''stepIn'' \<Longrightarrow> cmd \<noteq> ''disconnect''" by auto
  show ?thesis
    using assms unfolding dispatch_request_def
    by (elim if_chainE) (simp_all add: disconnect_answers stepping
      immediate_replies [unfolded replies_def] query_replies [unfolded replies_def] run_replies [unfolded replies_def] step_replies [unfolded replies_def])
qed

text \<open>A field of an object, and the requests of an input that the server sees: those up to a disconnect.\<close>

definition field :: "string \<Rightarrow> json \<Rightarrow> json option" where
  "field k v = Option.bind (as_object v) (\<lambda>m. map_of m k)"

definition requests :: "json_lib \<Rightarrow> string list \<Rightarrow> (string \<times> int \<times> json_object option) list" where
  "requests J ms = List.map_filter (\<lambda>m. Option.bind (jl_parse J m) request_of) ms"

fun until_disconnect :: "(string \<times> 'a) list \<Rightarrow> (string \<times> 'a) list" where
  "until_disconnect [] = []"
| "until_disconnect (r # rs) = r # (if fst r = ''disconnect'' then [] else until_disconnect rs)"

definition responses :: "json list \<Rightarrow> (json option \<times> json option) list" where
  "responses sent = map (\<lambda>v. (field ''command'' v, field ''request_seq'' v)) (filter (\<lambda>v. field ''type'' v = Some (JString ''response'')) sent)"

lemma map_of_object_of: "map_of (object_of kvs) k = map_of (rev kvs) k"
proof -
  have "map_of (fold (\<lambda>(k, v) m. om_insert k v m) kvs m0) k = (case map_of (rev kvs) k of None \<Rightarrow> map_of m0 k | Some v \<Rightarrow> Some v)" for m0
    by (induction kvs arbitrary: m0) (auto simp: map_simps map_of_append map_add_def split: option.splits)
  from this [of "[]"] show ?thesis by (simp add: object_of_def split: option.split)
qed

lemma field_object: "field k (JObject (object_of kvs)) = map_of (rev kvs) k"
  by (simp add: field_def as_object_def map_of_object_of)

lemma response_fields:
  "field ''type'' (make_response J n q c body) = Some (JString ''response'')"
  "field ''seq'' (make_response J n q c body) = Some (JInt n)"
  "field ''request_seq'' (make_response J n q c body) = Some (JInt q)"
  "field ''command'' (make_response J n q c body) = Some (JString c)"
  "field ''body'' (make_response J n q c body) = Some (body_value J body)"
  by (simp_all add: make_response_def field_object)

lemma event_fields:
  "field ''type'' (make_event J n e body) = Some (JString ''event'')"
  "field ''seq'' (make_event J n e body) = Some (JInt n)"
  "field ''event'' (make_event J n e body) = Some (JString e)"
  "field ''body'' (make_event J n e body) = Some (body_value J body)"
  by (simp_all add: make_event_def field_object)

lemmas message_fields = response_fields event_fields

lemma answers_fields:
  assumes "answers J q c s s'"
  obtains es where "da_sent s' = da_sent s @ es" "responses es = [(Some (JString c), Some (JInt q))]"
    "map (field ''seq'') es = map (\<lambda>n. Some (JInt n)) [da_next_seq s..da_next_seq s' - 1]"
    "da_next_seq s' = da_next_seq s + int (length es)"
proof -
  obtain body evs where ev: "da_sent s' = da_sent s @ make_response J (da_next_seq s) q c body # evs"
    "evs = [] \<or> (\<exists>e b. evs = [make_event J (da_next_seq s + 1) e b] \<and> written_body J b)" "da_next_seq s' = da_next_seq s + 1 + int (length evs)"
    using assms unfolding answers_def by blast
  show thesis
    using ev(2) that [of "make_response J (da_next_seq s) q c body # evs"] ev(1,3)
    by (auto simp: responses_def message_fields upto_rec1)
qed

lemma responses_append: "responses (xs @ ys) = responses xs @ responses ys"
  by (simp add: responses_def)

definition answered :: "(string \<times> int \<times> 'a) list \<Rightarrow> (json option \<times> json option) list" where
  "answered rs = map (\<lambda>(c, q, _). (Some (JString c), Some (JInt q))) rs"

lemma numbers_split: "[i..i + int m + int n - 1] = [i..i + int m - 1] @ [i + int m..i + int m + int n - 1]"
  using upto_split1 [of i "i + int m" "i + int m + int n - 1"] by (cases n) simp_all

lemma handle_all_answers:
  "handle_all J B ms s = Some s' \<Longrightarrow> da_running s \<Longrightarrow>
     \<exists>es. da_sent s' = da_sent s @ es \<and> responses es = answered (until_disconnect (requests J ms))
       \<and> map (field ''seq'') es = map (\<lambda>n. Some (JInt n)) [da_next_seq s..da_next_seq s' - 1]
       \<and> da_next_seq s' = da_next_seq s + int (length es)"
proof (induction ms arbitrary: s)
  case Nil
  then show ?case by (simp add: responses_def requests_def answered_def map_filter_def)
next
  case (Cons m ms)
  obtain s1 where h: "handle_message J B m s = Some s1" "handle_all J B ms s1 = Some s'"
    using Cons.prems by (auto split: bind_splits)
  show ?case
  proof (cases "Option.bind (jl_parse J m) request_of")
    case None
    then have "s1 = s" "requests J (m # ms) = requests J ms" using h(1) by (simp_all add: handle_message_def requests_def List.map_filter_def)
    with Cons.IH [of s] h(2) Cons.prems(2) show ?thesis by simp
  next
    case (Some r)
    obtain c q a where r: "r = (c, q, a)" by (cases r)
    have req: "requests J (m # ms) = (c, q, a) # requests J ms" using Some by (simp add: r requests_def List.map_filter_def)
    have d: "dispatch_request J B c q a s = Some s1" using h(1) Some by (simp add: handle_message_def r)
    note an = dispatch_answers [OF d]
    obtain es where es: "da_sent s1 = da_sent s @ es" "responses es = [(Some (JString c), Some (JInt q))]"
      "map (field ''seq'') es = map (\<lambda>n. Some (JInt n)) [da_next_seq s..da_next_seq s1 - 1]"
      "da_next_seq s1 = da_next_seq s + int (length es)"
      using answers_fields [of J q c s s1] an by blast
    show ?thesis
    proof (cases "c = ''disconnect''")
      case True
      with an h(2) have "s' = s1" by (cases ms) auto
      with es req True show ?thesis by (simp add: answered_def)
    next
      case False
      with an Cons.prems(2) have "da_running s1" by simp
      from Cons.IH [OF h(2) this] obtain fs where fs: "da_sent s' = da_sent s1 @ fs"
        "responses fs = answered (until_disconnect (requests J ms))"
        "map (field ''seq'') fs = map (\<lambda>n. Some (JInt n)) [da_next_seq s1..da_next_seq s' - 1]"
        "da_next_seq s' = da_next_seq s1 + int (length fs)" by blast
      from es fs req False numbers_split [of "da_next_seq s" "length es" "length fs"] show ?thesis
        by (intro exI [of _ "es @ fs"]) (simp add: responses_append answered_def)
    qed
  qed
qed


section \<open>The messages are of the protocol\<close>

text \<open>A response or an event as the protocol has them.\<close>

definition dap_message :: "json \<Rightarrow> bool" where
  "dap_message v \<longleftrightarrow> (\<exists>n. field ''seq'' v = Some (JInt n)) \<and> (\<exists>m. field ''body'' v = Some (JObject m))
     \<and> (field ''type'' v = Some (JString ''response'') \<and> (\<exists>q c. field ''request_seq'' v = Some (JInt q) \<and> field ''command'' v = Some (JString c))
          \<and> field ''success'' v = Some (JBool True)
        \<or> field ''type'' v = Some (JString ''event'') \<and> (\<exists>e. field ''event'' v = Some (JString e)))"

text \<open>What is relied on: the text of an object is never read back as something else.\<close>

definition objects_stay_objects :: "json_lib \<Rightarrow> bool" where
  "objects_stay_objects J \<longleftrightarrow> (\<forall>t v. written_body J t \<longrightarrow> jl_parse J t = Some v \<longrightarrow> (\<exists>m. v = JObject m))"

lemma body_object: "objects_stay_objects J \<Longrightarrow> written_body J t \<Longrightarrow> \<exists>m. body_value J t = JObject m"
  unfolding objects_stay_objects_def body_value_def by (cases "jl_parse J t") simp_all

lemma made_messages:
  assumes "objects_stay_objects J" "written_body J body"
  shows "dap_message (make_response J n q c body)" "dap_message (make_event J n e body)"
proof -
  have "field ''success'' (make_response J n q c body) = Some (JBool True)" by (simp add: make_response_def field_object)
  with body_object [OF assms] show "dap_message (make_response J n q c body)" "dap_message (make_event J n e body)"
    unfolding dap_message_def by (simp_all add: message_fields)
qed

lemma answers_typed:
  assumes "answers J q c s s'" "objects_stay_objects J" "\<forall>v \<in> set (da_sent s). dap_message v"
  shows "\<forall>v \<in> set (da_sent s'). dap_message v"
  using assms unfolding answers_def by (auto simp: made_messages)

lemma handle_message_typed:
  assumes "handle_message J B m s = Some s'" "objects_stay_objects J" "\<forall>v \<in> set (da_sent s). dap_message v"
  shows "\<forall>v \<in> set (da_sent s'). dap_message v"
proof (cases "Option.bind (jl_parse J m) request_of")
  case None
  with assms show ?thesis by (simp add: handle_message_def)
next
  case (Some r)
  obtain c q a where r: "r = (c, q, a)" by (cases r)
  with Some assms(1) have "dispatch_request J B c q a s = Some s'" by (simp add: handle_message_def)
  from dispatch_answers [OF this] answers_typed [OF _ assms(2,3)] show ?thesis by blast
qed

lemma serve_typed:
  "serve_input J B inp s = Some s' \<Longrightarrow> objects_stay_objects J \<Longrightarrow> \<forall>v \<in> set (da_sent s). dap_message v
    \<Longrightarrow> \<forall>v \<in> set (da_sent s'). dap_message v"
proof (induction J B inp s rule: serve_input.induct)
  case (1 J B inp s)
  show ?case
  proof (cases "da_running s \<and> read_dap_message inp \<noteq> None")
    case False
    with "1.prems" show ?thesis by (subst (asm) serve_input.simps) (auto split: if_splits option.splits)
  next
    case True
    then obtain m rest where m: "read_dap_message inp = Some (m, rest)" by auto
    with True "1.prems"(1) obtain s1 where s1: "handle_message J B m s = Some s1" "serve_input J B rest s1 = Some s'"
      by (subst (asm) serve_input.simps) (auto split: option.splits)
    from handle_message_typed [OF s1(1) "1.prems"(2,3)] have "\<forall>v \<in> set (da_sent s1). dap_message v" .
    from "1.IH" [OF _ m refl s1(1) s1(2) "1.prems"(2) this] True show ?thesis by blast
  qed
qed


section \<open>Input that breaks off\<close>

lemma read_header_Nil [simp]: "read_header [] g n = None"
  by (subst read_header.simps) (simp add: get_line_def)

lemma read_within_line:
  assumes "CHR 0x0A \<notin> set s"
  shows "read_dap_message (take k s) = None"
proof (cases "take k s = []")
  case True
  show ?thesis unfolding True by (rule read_nothing)
next
  case False
  have "CHR 0x0A \<notin> set (take k s)" using assms by (meson in_set_takeD)
  from get_line_last [OF this False] show ?thesis
    unfolding read_dap_message_def read_dap_header_def by (simp add: read_header_step)
qed

lemma read_broken_off:
  assumes "k < length (frame_message m)" "length m < 2 ^ 64"
  shows "read_dap_message (take k (frame_message m)) = None"
proof -
  obtain h where h: "h = ''Content-Length: '' @ dec_of_nat (length m)" by blast
  have f: "frame_message m = (h @ [CHR 0x0D]) @ CHR 0x0A # ([CHR 0x0D] @ CHR 0x0A # m)"
    by (simp add: frame_message_def crlf2_def h)
  have nl: "CHR 0x0A \<notin> set (h @ [CHR 0x0D])" by (simp add: newline_notin_dec h)
  have len: "unat (header_length h) = length m"
    using assms(2) dropWhile_space_dec [of "length m" "[]"]
    by (simp add: header_length_def stoul_def scan_number_dec_Nil h unat_of_nat)
  have st: "starts_with h ''Content-Length:''" "h \<noteq> []" by (simp_all add: starts_with_def h)
  have s1: "strip_line_end (h @ [CHR 0x0D]) = h" unfolding strip_return h by (rule strip_dec)
  consider (early) "k \<le> length h + 1" | (line) j where "k = length h + 2 + j"
    by (metis add.commute add_2_eq_Suc' le_Suc_ex nat_le_linear not_less_eq_eq Suc_eq_plus1)
  then show ?thesis
  proof cases
    case early
    then have t: "take k (frame_message m) = take k (h @ [CHR 0x0D])" unfolding f by (subst take_append) simp
    show ?thesis unfolding t by (rule read_within_line [OF nl])
  next
    case line
    obtain r where r: "r = take j ([CHR 0x0D] @ CHR 0x0A # m)" by blast
    have t: "take k (frame_message m) = (h @ [CHR 0x0D]) @ CHR 0x0A # r" by (simp add: f line r take_Cons')
    have g: "read_dap_header (take k (frame_message m)) = read_header r True (header_length h)"
      unfolding t read_dap_header_def read_header_step [OF get_line_newline [OF nl]] s1 using st by simp
    consider "r = []" | "r = [CHR 0x0D]" | i where "r = [CHR 0x0D] @ CHR 0x0A # take i m" "i < length m"
      using assms(1) by (cases j rule: nat.exhaust; cases "j - 1") (auto simp: r f line)
    then show ?thesis
    proof cases
      case 2
      have "get_line [CHR 0x0D] = Some ([CHR 0x0D], [], True)" by (rule get_line_last) simp_all
      from read_header_step [OF this] g show ?thesis by (simp add: read_dap_message_def 2 strip_line_end_def)
    next
      case (3 i)
      have "get_line ([CHR 0x0D] @ CHR 0x0A # take i m) = Some ([CHR 0x0D], take i m, False)" by (rule get_line_newline) simp
      from read_header_step [OF this] g 3 len show ?thesis by (simp add: read_dap_message_def strip_line_end_def)
    qed (simp add: read_dap_message_def g)
  qed
qed

text \<open>
  C27.  Input that breaks off in the middle of a message, in its header or in its content, ends the session
  after the complete messages: the part is not acted on.
\<close>

theorem broken_off_message_ignored:
  assumes "\<forall>m \<in> set ms. m \<noteq> [] \<and> length m < 2 ^ 64" and "length m < 2 ^ 64" and "k < length (frame_message m)"
  shows "run_stdio J B (concat (map frame_message ms) @ take k (frame_message m)) s = handle_all J B ms (s\<lparr>da_running := True\<rparr>)"
  unfolding run_stdio_def by (rule serve_framed_tail [OF assms(1) read_broken_off [OF assms(3,2)]])

section \<open>A session\<close>

text \<open>A client that asks for the threads and disconnects, with a JSON library that knows four texts.\<close>

definition demo_request :: "string \<Rightarrow> int \<Rightarrow> json" where
  "demo_request c q = JObject [(''type'', JString ''request''), (''command'', JString c), (''seq'', JInt q)]"

definition demo_json :: json_lib where
  "demo_json = \<lparr>jl_parse = [''t'' \<mapsto> demo_request ''threads'' 7, ''d'' \<mapsto> demo_request ''disconnect'' 8, ''o'' \<mapsto> JObject []],
     jl_show = (\<lambda>v. ''o'')\<rparr>"

definition idle_backend :: "(nat, unit) backend_api" where
  "idle_backend = \<lparr>ba_launch = (\<lambda>p args n. (True, n)), ba_detach = (\<lambda>n. 0), ba_set_breakpoint = (\<lambda>loc n. (of_nat n, Suc n)),
     ba_resume = (\<lambda>n. Some (n, None)), ba_step_over = (\<lambda>wi n. Some (n, None)), ba_step_in = (\<lambda>wi n. Some (n, None)),
     ba_select_work_item = (\<lambda>g n. (None, n)), ba_resolve = (\<lambda>wi n. Some ([], n))\<rparr>"

lemma demo_parse: "jl_parse demo_json ''t'' = Some (demo_request ''threads'' 7)" "jl_parse demo_json ''d'' = Some (demo_request ''disconnect'' 8)"
  by (simp_all add: demo_json_def)

lemma demo_request_of: "q \<in> {7, 8} \<Longrightarrow> request_of (demo_request c q) = Some (c, q, None)"
  by (auto simp: demo_request_def request_of_def as_object_def get_string_def as_string_def get_integer_def as_integer_def
      int64_range_def value_or_def to_int32_def get_object_def)

lemma demo_session: "\<exists>s'. handle_all demo_json idle_backend [''t'', ''d'', ''t''] (new_dap 0) = Some s' \<and> \<not> da_running s'"
  by (simp add: handle_message_def demo_parse demo_request_of dispatch_request_def handle_threads_def handle_disconnect_def
      send_response_def new_dap_def)

theorem framed_messages_handled_witness:
  "run_stdio demo_json idle_backend (concat (map frame_message [''t'', ''d''])) (new_dap 0)
    = handle_all demo_json idle_backend [''t'', ''d''] (new_dap 0 \<lparr>da_running := True\<rparr>)"
  by (rule framed_messages_handled) simp

theorem broken_off_message_ignored_witness:
  "run_stdio demo_json idle_backend (concat (map frame_message [''t'']) @ take 20 (frame_message ''d'')) (new_dap 0)
    = handle_all demo_json idle_backend [''t''] (new_dap 0 \<lparr>da_running := True\<rparr>)"
  by (rule broken_off_message_ignored) (simp_all add: frame_message_def crlf2_def)


lemma demo_objects: "objects_stay_objects demo_json"
  by (auto simp: objects_stay_objects_def demo_json_def demo_request_def split: if_splits)


end
