(* ===== verification/DapReferences.thy ===== *)
theory DapReferences
  imports DapProtocol "HOL-Library.Countable"
begin

text \<open>
  What the DAP server hands out and takes back: the threads after a stop, and the chain from a thread over its
  frame and the two scopes of the frame to the thread's variables.  The bodies of responses go through text
  (\<open>body_value\<close>), so what reaches the client depends on the JSON library: \<open>lawful_json\<close> is what is
  relied on.
\<close>

section \<open>The JSON library\<close>

text \<open>
  Values that LLVM's library prints and parses without loss: \<^verbatim>\<open>int64_t\<close> integers, strings without bytes that
  would have to be valid UTF-8, objects with their keys in order.
\<close>

definition ascii :: "string \<Rightarrow> bool" where
  "ascii s = list_all (\<lambda>c. of_char c < (128 :: nat)) s"

fun json_ok :: "json \<Rightarrow> bool" where
  "json_ok JNull = True"
| "json_ok (JBool b) = True"
| "json_ok (JInt i) = int64_range i"
| "json_ok (JReal r) = False"
| "json_ok (JString s) = ascii s"
| "json_ok (JArray vs) = (\<forall>v \<in> set vs. json_ok v)"
| "json_ok (JObject kvs) = (om_ok kvs \<and> (\<forall>kv \<in> set kvs. ascii (fst kv)) \<and> (\<forall>kv \<in> set kvs. json_ok (snd kv)))"

definition lawful_json :: "json_lib \<Rightarrow> bool" where
  "lawful_json J \<longleftrightarrow> (\<forall>v. json_ok v \<longrightarrow> jl_parse J (jl_show J v) = Some v \<and> jl_show J v \<noteq> []
     \<and> (jl_show J v = ''{}'' \<longrightarrow> v = JObject []))"

lemma body_of_shown: "lawful_json J \<Longrightarrow> json_ok v \<Longrightarrow> body_value J (jl_show J v) = v"
  by (auto simp: lawful_json_def body_value_def split: option.split)

lemma object_of_ok: "om_ok (object_of kvs) \<and> set (object_of kvs) \<subseteq> set kvs"
proof -
  have ins: "set (om_insert k v m) \<subseteq> insert (k, v) (set m)" for k :: string and v :: json and m
    by (induction k v m rule: om_insert.induct) auto
  have "om_ok m \<Longrightarrow> om_ok (fold (\<lambda>(k, v) m. om_insert k v m) kvs m)
    \<and> set (fold (\<lambda>(k, v) m. om_insert k v m) kvs m) \<subseteq> set kvs \<union> set m" for m :: json_object
  proof (induction kvs arbitrary: m)
    case (Cons e kvs)
    obtain k v where e: "e = (k, v)" by (cases e)
    from Cons.IH [of "om_insert k v m"] Cons.prems ins [of k v m] show ?case by (auto simp: e)
  qed simp
  from this [of "[]"] show ?thesis by (simp add: object_of_def)
qed

lemma json_ok_object: "\<forall>kv \<in> set kvs. ascii (fst kv) \<and> json_ok (snd kv) \<Longrightarrow> json_ok (JObject (object_of kvs))"
  using object_of_ok [of kvs] by auto

text \<open>The elements of an array in the body of a message.\<close>

definition elements :: "string \<Rightarrow> json \<Rightarrow> json list" where
  "elements k v = (case Option.bind (field ''body'' v) (field k) of Some (JArray vs) \<Rightarrow> vs | _ \<Rightarrow> [])"

definition last_sent :: "('b, 'c) dap \<Rightarrow> json" where
  "last_sent s = last (da_sent s)"

lemma elements_of_response:
  assumes "lawful_json J" "\<forall>kv \<in> set kvs. ascii (fst kv) \<and> json_ok (snd kv)" "map_of (rev kvs) k = Some (JArray vs)"
  shows "elements k (last_sent (send_response J q c (show_object J kvs) s)) = vs"
proof -
  have "json_ok (JObject (object_of kvs))" using assms(2) by (rule json_ok_object)
  from body_of_shown [OF assms(1) this] show ?thesis
    using assms(3) by (simp add: last_sent_def send_response_def elements_def message_fields show_object_def field_object)
qed

section \<open>Names are printable\<close>

lemma ascii_append [simp]: "ascii (xs @ ys) = (ascii xs \<and> ascii ys)"
  by (simp add: ascii_def)

lemma ascii_Nil [simp]: "ascii []"
  by (simp add: ascii_def)

lemma ascii_Cons [simp]: "ascii (c # cs) = (of_char c < (128 :: nat) \<and> ascii cs)"
  by (simp add: ascii_def)

lemma ascii_subset: "ascii xs \<Longrightarrow> set ys \<subseteq> set xs \<Longrightarrow> ascii ys"
  by (auto simp: ascii_def list_all_iff)

lemma ascii_dec: "ascii (dec_of_nat n)"
  using dec_of_nat_digits [of n] by (auto simp: ascii_def list_all_iff is_digit_def less_eq_char_def)

lemma ascii_to_string [simp]: "ascii (to_string w)"
  by (simp add: to_string_def ascii_dec)

lemma ascii_base_name: "ascii p \<Longrightarrow> ascii (base_name p)"
  by (erule ascii_subset) (auto simp: base_name_def dest: set_takeWhileD)

lemma ascii_clean: "ascii f \<Longrightarrow> ascii (clean_kernel_function_name f)"
  by (erule ascii_subset) (auto simp: clean_kernel_function_name_def Let_def dest: in_set_takeD in_set_dropD)

lemma ascii_format [simp]: "ascii (format_dap_work_item_name wi d)"
  by (simp add: format_dap_work_item_name_def Let_def)

lemma ascii_to_string_signed [simp]: "ascii (to_string_signed i)"
  by (simp add: to_string_signed_def ascii_dec)

definition ascii_item :: "'c ocl_work_item \<Rightarrow> bool" where
  "ascii_item wi \<longleftrightarrow> ascii (function_name wi) \<and> ascii (loc_file (location wi))"

definition ascii_state :: "('b, 'c) dap \<Rightarrow> bool" where
  "ascii_state s \<longleftrightarrow> ascii (da_current_source_file s) \<and> ascii (da_launch_kernel_file s) \<and> ascii (da_user_source_file s)"

definition ascii_var :: "var_value \<Rightarrow> bool" where
  "ascii_var v \<longleftrightarrow> ascii (vv_name v) \<and> ascii (vv_value_str v) \<and> ascii (vv_type_name v) \<and> ascii (vv_address_space v)"

lemma thread_entry_ok: "ascii (function_name wi) \<Longrightarrow> int64_range tid \<Longrightarrow> json_ok (thread_entry d (tid, wi))"
  unfolding thread_entry_def by (rule json_ok_object) (simp add: thread_name_def)

lemma variable_entry_ok: "ascii_var v \<Longrightarrow> json_ok (variable_entry v)"
  unfolding variable_entry_def by (rule json_ok_object) (simp add: ascii_var_def int64_range_def)

lemma scope_entry_ok: "ascii name \<Longrightarrow> int64_range ref \<Longrightarrow> json_ok (scope_entry name ref)"
  unfolding scope_entry_def by (rule json_ok_object) simp

lemma frame_entry_ok:
  assumes "int64_range fid" "ascii (sf_fn_name info)" "ascii (sf_file info)" "ascii (sf_path info)"
  shows "json_ok (frame_entry fid info)"
proof -
  have "uint (sf_line info) < 2 ^ 63" using uint_lt2p [of "sf_line info"] by simp
  moreover have "- (2 ^ 63) \<le> uint (sf_line info)" by (rule order_trans [of _ 0]) simp_all
  ultimately have "int64_range (uint (sf_line info))" by (simp only: int64_range_def)
  moreover have "json_ok (JObject (object_of [(''name'', JString (sf_file info)), (''path'', JString (sf_path info))]))"
    by (rule json_ok_object) (simp add: assms)
  moreover have "int64_range 1" by (simp add: int64_range_def)
  ultimately show ?thesis
    unfolding frame_entry_def by (intro json_ok_object) (simp add: assms del: json_ok.simps(7))
qed

lemma frame_info_ascii:
  assumes "ascii_item wi" "ascii file" "ascii preferred"
    "info = resolve_temp_source preferred (extract_frame_info wi file line)"
  shows "ascii (sf_fn_name info)" "ascii (sf_file info)" "ascii (sf_path info)"
  using assms by (auto simp: ascii_item_def resolve_temp_source_def extract_frame_info_def Let_def ascii_clean ascii_base_name)

section \<open>Threads after a stop\<close>

lemma om_insert_greatest: "\<forall>k' \<in> fst ` set m. k' < k \<Longrightarrow> om_insert k v m = m @ [(k, v)]"
  by (induction k v m rule: om_insert.induct) force+

lemma add_threads_zip:
  "\<forall>k \<in> fst ` set m. k < n \<Longrightarrow>
     add_threads wis n m = (n + int (length wis), m @ zip [n..n + int (length wis) - 1] wis)"
proof (induction wis arbitrary: n m)
  case (Cons wi wis)
  have "\<forall>k \<in> fst ` set (om_insert n wi m). k < n + 1" using Cons.prems by (auto simp: keys_om_insert)
  from Cons.IH [OF this] om_insert_greatest [OF Cons.prems]
  have "add_threads (wi # wis) n m = (n + 1 + int (length wis), m @ (n, wi) # zip [n + 1..n + int (length wis)] wis)" by simp
  then show ?case by (simp add: upto_rec1)
qed simp

definition thread_table :: "'c ocl_stop_context \<Rightarrow> (int \<times> 'c ocl_work_item) list" where
  "thread_table ctx = zip [1..int (length (visible ctx)) + 1] (stopped ctx # visible ctx)"

lemma threads_of_stop: "da_threads (on_stop J ctx s) = thread_table ctx"
proof -
  have "add_threads (visible ctx) 2 (om_insert 1 (stopped ctx) [])
    = (2 + int (length (visible ctx)), (1, stopped ctx) # zip [2..int (length (visible ctx)) + 1] (visible ctx))"
    by (subst add_threads_zip) (auto simp: algebra_simps)
  then show ?thesis by (simp add: on_stop_def thread_table_def send_event_def upto_rec1)
qed

text \<open>
  After a stop the client's threads are the work-item that stopped, as thread 1, and the other visible
  work-items, numbered from 2 in their order; the event the client got first names thread 1.
\<close>

theorem threads_after_stop:
  assumes "lawful_json J" and "\<forall>wi \<in> set (stopped ctx # visible ctx). ascii (function_name wi)"
    and "length (visible ctx) < 2 ^ 31"
  shows "Option.bind (field ''body'' (last_sent (on_stop J ctx s))) (field ''threadId'') = Some (JInt 1)
    \<and> elements ''threads'' (last_sent (handle_threads J q (on_stop J ctx s)))
      = map (thread_entry (da_launch_work_dim s)) (thread_table ctx)"
proof
  have "json_ok (JObject (object_of [(''reason'', JString ''breakpoint''), (''threadId'', JInt 1), (''allThreadsStopped'', JBool True)]))"
    by (rule json_ok_object) (simp add: int64_range_def)
  from body_of_shown [OF assms(1) this]
  show "Option.bind (field ''body'' (last_sent (on_stop J ctx s))) (field ''threadId'') = Some (JInt 1)"
    by (simp add: on_stop_def Let_def split_beta send_event_def last_sent_def message_fields show_object_def field_object)
  have dim: "da_launch_work_dim (on_stop J ctx s) = da_launch_work_dim s"
    by (simp add: on_stop_def Let_def split_beta send_event_def)
  have "json_ok (thread_entry d e)" if e: "e \<in> set (thread_table ctx)" for d e
  proof -
    obtain tid wi where w: "e = (tid, wi)" by (cases e)
    with e have "tid \<in> set [1..int (length (visible ctx)) + 1]" "wi \<in> set (stopped ctx # visible ctx)"
      unfolding thread_table_def by (auto dest: set_zip_leftD set_zip_rightD)
    with assms(2,3) show ?thesis unfolding w by (intro thread_entry_ok) (auto simp: int64_range_def)
  qed
  then show "elements ''threads'' (last_sent (handle_threads J q (on_stop J ctx s)))
    = map (thread_entry (da_launch_work_dim s)) (thread_table ctx)"
    unfolding handle_threads_def by (intro elements_of_response [OF assms(1)]) (auto simp: threads_of_stop dim)
qed

section \<open>From a thread to its variables and back\<close>

lemma to_int32_self: "int32_range i \<Longrightarrow> to_int32 i = i"
  by (simp add: to_int32_def int32_range_def signed_of_int signed_take_bit_int_eq_self)

lemma decode_local: "int32_range tid \<Longrightarrow> decode_ref ((tid * 10 + 1) * 100) = (tid, False)"
  by (simp add: decode_ref_def Let_def to_int32_self)

lemma decode_global: "int32_range tid \<Longrightarrow> decode_ref ((tid * 10 + 1) * 100 + 1) = (tid, True)"
proof -
  assume t: "int32_range tid"
  have "((tid * 10 + 1) * 100 + 1) mod 100 = 1" using mod_mult_self3 [of "tid * 10 + 1" 100 1] by simp
  with t show ?thesis by (simp add: decode_ref_def Let_def to_int32_self)
qed

text \<open>The three requests one by one: each gives what the next one needs.\<close>

lemma send_response_frame:
  "da_threads (send_response J q c b s) = da_threads s" "da_backend (send_response J q c b s) = da_backend s"
  by (simp_all add: send_response_def)

lemma stack_trace_answer:
  assumes "lawful_json J" and "map_of (da_threads s) tid = Some wi" and "1 \<le> tid" and "tid * 10 + 1 < 2 ^ 31"
    and "ascii_item wi" and "ascii_state s"
  shows "\<exists>s1. handle_stack_trace J q (Some [(''threadId'', JInt tid)]) s = Some s1
    \<and> map (field ''id'') (elements ''stackFrames'' (last_sent s1)) = [Some (JInt (tid * 10 + 1))]
    \<and> da_threads s1 = da_threads s \<and> da_backend s1 = da_backend s"
proof -
  have tid: "int32_range tid" "int32_range (tid * 10)" "int32_range (tid * 10 + 1)" "int64_range tid" "int64_range (tid * 10 + 1)"
    using assms(3,4) by (auto simp: int32_range_def int64_range_def)
  obtain info where info: "info = resolve_temp_source (if da_launch_kernel_file s \<noteq> [] then da_launch_kernel_file s else da_user_source_file s)
      (extract_frame_info wi (da_current_source_file s) (da_current_line s))" by blast
  have ok: "json_ok (frame_entry (tid * 10 + 1) info)"
    by (rule frame_entry_ok [OF tid(5)]; rule frame_info_ascii [OF assms(5) _ _ info]) (use assms(6) in \<open>simp_all add: ascii_state_def\<close>)
  obtain s1 where s1: "s1 = send_response J q ''stackTrace'' (show_object J [(''stackFrames'', JArray [frame_entry (tid * 10 + 1) info]), (''totalFrames'', JInt 1)]) s"
    by blast
  have "handle_stack_trace J q (Some [(''threadId'', JInt tid)]) s = Some s1"
    using assms(2) tid by (simp add: handle_stack_trace_def Let_def requested_thread_def get_integer_def as_integer_def value_or_def
      to_int32_self item_of_thread_def frame_id_of_def s1 info)
  moreover have "elements ''stackFrames'' (last_sent s1) = [frame_entry (tid * 10 + 1) info]"
    unfolding s1 by (rule elements_of_response [OF assms(1)]) (use ok in \<open>simp_all add: int64_range_def\<close>)
  moreover have "field ''id'' (frame_entry (tid * 10 + 1) info) = Some (JInt (tid * 10 + 1))" by (simp add: frame_entry_def field_object)
  moreover have "da_threads s1 = da_threads s" "da_backend s1 = da_backend s" by (simp_all add: s1 send_response_frame)
  ultimately show ?thesis by (intro exI [of _ s1]) simp
qed

lemma scopes_answer:
  assumes "lawful_json J" and "int64_range fid" and "int64_range (fid * 100)" and "int64_range (fid * 100 + 1)"
  shows "\<exists>s2. handle_scopes J q (Some [(''frameId'', JInt fid)]) s1 = Some s2
    \<and> elements ''scopes'' (last_sent s2) = [scope_entry ''__local'' (fid * 100), scope_entry ''__global'' (fid * 100 + 1)]
    \<and> da_threads s2 = da_threads s1 \<and> da_backend s2 = da_backend s1"
proof -
  obtain s2 where s2: "s2 = send_response J q ''scopes'' (show_object J [(''scopes'', JArray [scope_entry ''__local'' (fid * 100), scope_entry ''__global'' (fid * 100 + 1)])]) s1"
    by blast
  have "handle_scopes J q (Some [(''frameId'', JInt fid)]) s1 = Some s2"
    using assms by (simp add: handle_scopes_def Let_def get_integer_def as_integer_def value_or_def base_ref_of_def s2)
  moreover have "elements ''scopes'' (last_sent s2) = [scope_entry ''__local'' (fid * 100), scope_entry ''__global'' (fid * 100 + 1)]"
    unfolding s2 by (rule elements_of_response [OF assms(1)]) (use assms in \<open>simp_all add: scope_entry_ok\<close>)
  moreover have "da_threads s2 = da_threads s1" "da_backend s2 = da_backend s1" by (simp_all add: s2 send_response_frame)
  ultimately show ?thesis by blast
qed

lemma variables_answer:
  assumes "lawful_json J" and "map_of (da_threads s) tid = Some wi" and "1 \<le> tid"
    and "ba_resolve B wi (da_backend s) = Some (vars, b)" and "\<forall>v \<in> set vars. ascii_var v"
    and "decode_ref r = (tid, g)" and "0 < r" and "int64_range r"
  shows "\<exists>s'. handle_variables J B q (Some [(''variablesReference'', JInt r)]) s = Some s'
    \<and> elements ''variables'' (last_sent s') = map variable_entry (filter (\<lambda>v. is_global_var v = g) vars)"
proof -
  have ok: "\<forall>v \<in> set (populate_resolved_vars vars g). json_ok v"
    using assms(5) by (auto simp: populate_resolved_vars_def variable_entry_ok)
  let ?s' = "send_response J q ''variables'' (show_object J [(''variables'', JArray (populate_resolved_vars vars g))]) (s\<lparr>da_backend := b\<rparr>)"
  have "handle_variables J B q (Some [(''variablesReference'', JInt r)]) s = Some ?s'"
    using assms(2-4,6-8) by (simp add: handle_variables_def Let_def get_integer_def as_integer_def value_or_def resolve_target_wi_def)
  moreover have "elements ''variables'' (last_sent ?s') = populate_resolved_vars vars g"
    by (rule elements_of_response [OF assms(1)]) (use ok in simp_all)
  ultimately show ?thesis by (simp add: populate_resolved_vars_def)
qed

text \<open>
  C23.  The client gets from a thread to its variables with the numbers the server gives it: the frame id of
  the thread's only frame leads to the references of two scopes, and these lead to the variables the resolver
  finds for that thread's work-item, the first to those outside the global and constant address spaces and the
  second to those inside.
\<close>

theorem references_lead_back:
  assumes "lawful_json J" and "map_of (da_threads s) tid = Some wi" and "1 \<le> tid" and "tid * 10 + 1 < 2 ^ 31"
    and "ascii_item wi" and "ascii_state s"
    and "ba_resolve B wi (da_backend s) = Some (vars, b)" and "\<forall>v \<in> set vars. ascii_var v"
  shows "\<exists>s1 s2 s3 s4 fid l g.
      handle_stack_trace J q1 (Some [(''threadId'', JInt tid)]) s = Some s1
    \<and> map (field ''id'') (elements ''stackFrames'' (last_sent s1)) = [Some (JInt fid)]
    \<and> handle_scopes J q2 (Some [(''frameId'', JInt fid)]) s1 = Some s2
    \<and> elements ''scopes'' (last_sent s2) = [scope_entry ''__local'' l, scope_entry ''__global'' g]
    \<and> handle_variables J B q3 (Some [(''variablesReference'', JInt l)]) s2 = Some s3
    \<and> elements ''variables'' (last_sent s3) = map variable_entry (filter (\<lambda>v. \<not> is_global_var v) vars)
    \<and> handle_variables J B q4 (Some [(''variablesReference'', JInt g)]) s2 = Some s4
    \<and> elements ''variables'' (last_sent s4) = map variable_entry (filter is_global_var vars)"
proof -
  let ?fid = "tid * 10 + 1"
  have tid: "int32_range tid" "int64_range ?fid" "int64_range (?fid * 100)" "int64_range (?fid * 100 + 1)"
    using assms(3,4) by (auto simp: int32_range_def int64_range_def)
  obtain s1 where 1: "handle_stack_trace J q1 (Some [(''threadId'', JInt tid)]) s = Some s1"
    "map (field ''id'') (elements ''stackFrames'' (last_sent s1)) = [Some (JInt ?fid)]" "da_threads s1 = da_threads s" "da_backend s1 = da_backend s"
    using stack_trace_answer [OF assms(1-6), of q1] by (elim exE conjE)
  obtain s2 where 2: "handle_scopes J q2 (Some [(''frameId'', JInt ?fid)]) s1 = Some s2"
    "elements ''scopes'' (last_sent s2) = [scope_entry ''__local'' (?fid * 100), scope_entry ''__global'' (?fid * 100 + 1)]"
    "da_threads s2 = da_threads s1" "da_backend s2 = da_backend s1"
    using scopes_answer [OF assms(1) tid(2-4), of q2 s1] by (elim exE conjE)
  have thread: "map_of (da_threads s2) tid = Some wi" "ba_resolve B wi (da_backend s2) = Some (vars, b)"
    using assms(2,7) 1(3,4) 2(3,4) by simp_all
  note variables = variables_answer [OF assms(1) thread(1) assms(3) thread(2) assms(8)]
  obtain s3 where 3: "handle_variables J B q3 (Some [(''variablesReference'', JInt (?fid * 100))]) s2 = Some s3"
    "elements ''variables'' (last_sent s3) = map variable_entry (filter (\<lambda>v. \<not> is_global_var v) vars)"
    using variables [OF decode_local [OF tid(1)] _ tid(3)] assms(3) by auto
  obtain s4 where 4: "handle_variables J B q4 (Some [(''variablesReference'', JInt (?fid * 100 + 1))]) s2 = Some s4"
    "elements ''variables'' (last_sent s4) = map variable_entry (filter is_global_var vars)"
    using variables [OF decode_global [OF tid(1)] _ tid(4)] assms(3) by auto
  show ?thesis using 1(1,2) 2(1,2) 3 4
    by (intro exI [of _ s1] exI [of _ s2] exI [of _ s3] exI [of _ s4] exI [of _ ?fid] exI [of _ "?fid * 100"] exI [of _ "?fid * 100 + 1"]) simp
qed

section \<open>A lawful library\<close>

text \<open>Texts that number the values; the empty object is written as the library writes it.\<close>

instance json :: countable by countable_datatype

definition coded_json :: json_lib where
  "coded_json = \<lparr>jl_parse = (\<lambda>t. if t = ''{}'' then Some (JObject []) else Some (from_nat (length t - 3))),
     jl_show = (\<lambda>v. if v = JObject [] then ''{}'' else replicate (to_nat v + 3) CHR ''x'')\<rparr>"

lemma lawful_coded: "lawful_json coded_json"
  by (auto simp: lawful_json_def coded_json_def numeral_3_eq_3)

definition two_items :: "unit ocl_stop_context" where
  "two_items = \<lparr>stopped = empty_work_item\<lparr>function_name := ''_pocl_kernel_vadd_workgroup'', global_id := Size3 4 0 0\<rparr>,
     visible = [empty_work_item\<lparr>global_id := Size3 8 0 0\<rparr>]\<rparr>"

definition stopped_server :: "(nat, unit) dap" where
  "stopped_server = on_stop coded_json two_items (new_dap 0)"

definition shown_vars :: "var_value list" where
  "shown_vars = [empty_var_value\<lparr>vv_name := ''i''\<rparr>, empty_var_value\<lparr>vv_name := ''out'', vv_address_space := ''__global''\<rparr>]"

definition inspecting_backend :: "(nat, unit) backend_api" where
  "inspecting_backend = idle_backend\<lparr>ba_resolve := (\<lambda>wi n. Some (if global_id wi = Size3 8 0 0 then shown_vars else [], n))\<rparr>"

lemma two_threads: "da_threads stopped_server = [(1, stopped two_items), (2, hd (visible two_items))]"
  by (simp add: stopped_server_def threads_of_stop thread_table_def two_items_def upto_rec1)

theorem threads_after_stop_witness:
  "elements ''threads'' (last_sent (handle_threads coded_json 3 (on_stop coded_json two_items (new_dap (0 :: nat)))))
    = map (thread_entry 1) [(1, stopped two_items), (2, hd (visible two_items))]"
proof -
  have "\<forall>wi \<in> set (stopped two_items # visible two_items). ascii (function_name wi)" "length (visible two_items) < 2 ^ 31"
    by (simp_all add: two_items_def empty_work_item_def)
  from threads_after_stop [OF lawful_coded this, of "new_dap (0 :: nat)" 3] show ?thesis
    by (simp add: new_dap_def thread_table_def two_items_def upto_rec1)
qed

theorem references_lead_back_witness:
  "\<exists>s1 s2 s3 s4 fid l g.
      handle_stack_trace coded_json 3 (Some [(''threadId'', JInt 2)]) stopped_server = Some s1
    \<and> map (field ''id'') (elements ''stackFrames'' (last_sent s1)) = [Some (JInt fid)]
    \<and> handle_scopes coded_json 4 (Some [(''frameId'', JInt fid)]) s1 = Some s2
    \<and> elements ''scopes'' (last_sent s2) = [scope_entry ''__local'' l, scope_entry ''__global'' g]
    \<and> handle_variables coded_json inspecting_backend 5 (Some [(''variablesReference'', JInt l)]) s2 = Some s3
    \<and> elements ''variables'' (last_sent s3) = map variable_entry (filter (\<lambda>v. \<not> is_global_var v) shown_vars)
    \<and> handle_variables coded_json inspecting_backend 6 (Some [(''variablesReference'', JInt g)]) s2 = Some s4
    \<and> elements ''variables'' (last_sent s4) = map variable_entry (filter is_global_var shown_vars)"
proof (rule references_lead_back [OF lawful_coded])
  show "map_of (da_threads stopped_server) 2 = Some (hd (visible two_items))" by (simp add: two_threads)
  show "(1 :: int) \<le> 2" "(2 :: int) * 10 + 1 < 2 ^ 31" by simp_all
  show "ascii_item (hd (visible two_items))" by (simp add: ascii_item_def two_items_def empty_work_item_def)
  show "ascii_state stopped_server"
    by (simp add: ascii_state_def stopped_server_def on_stop_def two_items_def new_dap_def send_event_def Let_def empty_work_item_def)
  show "ba_resolve inspecting_backend (hd (visible two_items)) (da_backend stopped_server) = Some (shown_vars, da_backend stopped_server)"
    by (simp add: inspecting_backend_def two_items_def)
  show "\<forall>v \<in> set shown_vars. ascii_var v" by (simp add: shown_vars_def ascii_var_def empty_var_value_def)
qed

end
