(* ===== verification/LineChannel.thy ===== *)
theory LineChannel
  imports Prelude
begin

text \<open>
  \<^verbatim>\<open>LineChannel\<close> of \<^verbatim>\<open>ocldbg/backends/oclgrind/OclgrindProtocol.h\<close>: newline-framed messages over a
  stream socket.  The operating system is the list of results its successive calls give:
  \<^verbatim>\<open>write(2)\<close> answers a byte count (or at most 0 on failure), \<^verbatim>\<open>read(2)\<close> a chunk of bytes (empty at
  end-of-stream or on failure); a list that has run out answers failure.
\<close>

section \<open>Protocol words\<close>

definition kEventReady :: string where "kEventReady = ''ready''"
definition kEventStopped :: string where "kEventStopped = ''stopped''"
definition kReplyOk :: string where "kReplyOk = ''ok''"
definition kReplyErr :: string where "kReplyErr = ''err''"
definition kReplyValue :: string where "kReplyValue = ''value''"
definition kReplyData :: string where "kReplyData = ''data''"
definition kCmdBreak :: string where "kCmdBreak = ''break''"
definition kCmdDelete :: string where "kCmdDelete = ''delete''"
definition kCmdSelect :: string where "kCmdSelect = ''select''"
definition kCmdPrint :: string where "kCmdPrint = ''print''"
definition kCmdRead :: string where "kCmdRead = ''read''"
definition kCmdContinue :: string where "kCmdContinue = ''continue''"
definition kCmdStep :: string where "kCmdStep = ''step''"
definition kStepIn :: string where "kStepIn = ''in''"
definition kStepOver :: string where "kStepOver = ''over''"

lemmas protocol_words = kEventReady_def kEventStopped_def kReplyOk_def kReplyErr_def kReplyValue_def
  kReplyData_def kCmdBreak_def kCmdDelete_def kCmdSelect_def kCmdPrint_def kCmdRead_def kCmdContinue_def
  kCmdStep_def kStepIn_def kStepOver_def

lemma plain_protocol_words [simp]:
  "plain_word kEventReady" "plain_word kEventStopped" "plain_word kReplyOk" "plain_word kReplyErr"
  "plain_word kReplyValue" "plain_word kReplyData" "plain_word kCmdBreak" "plain_word kCmdDelete"
  "plain_word kCmdSelect" "plain_word kCmdPrint" "plain_word kCmdRead" "plain_word kCmdContinue"
  "plain_word kCmdStep" "plain_word kStepIn" "plain_word kStepOver"
  by (simp_all add: protocol_words plain_word_def isspace_def)

section \<open>The channel\<close>

record channel =
  fd_valid :: bool
  pending :: string

abbreviation newline :: char where "newline \<equiv> CHR 0x0A"

definition channel_close :: "channel \<Rightarrow> channel" where
  "channel_close ch = ch\<lparr>fd_valid := False, pending := []\<rparr>"

text \<open>The loop of \<^verbatim>\<open>send\<close>: what is still to write, and the results of the coming writes.\<close>

fun write_loop :: "string \<Rightarrow> int list \<Rightarrow> bool \<times> string \<times> int list" where
  "write_loop [] ws = (True, [], ws)"
| "write_loop (c # s) [] = (False, [], [])"
| "write_loop (c # s) (n # ws) =
     (if n \<le> 0 then (False, [], ws)
      else let (ok, out, ws') = write_loop (drop (nat n) (c # s)) ws
           in (ok, take (nat n) (c # s) @ out, ws'))"

definition channel_send :: "channel \<Rightarrow> string \<Rightarrow> int list \<Rightarrow> bool \<times> string \<times> int list" where
  "channel_send ch line ws = (if \<not> fd_valid ch then (False, [], ws) else write_loop (line @ [newline]) ws)"

fun read_loop :: "string \<Rightarrow> string list \<Rightarrow> string option \<times> string \<times> string list" where
  "read_loop p [] =
     (if newline \<in> set p then (Some (takeWhile (\<lambda>c. c \<noteq> newline) p), tl (dropWhile (\<lambda>c. c \<noteq> newline) p), [])
      else (None, p, []))"
| "read_loop p (chunk # rs) =
     (if newline \<in> set p then (Some (takeWhile (\<lambda>c. c \<noteq> newline) p), tl (dropWhile (\<lambda>c. c \<noteq> newline) p), chunk # rs)
      else if chunk = [] then (None, p, rs)
      else read_loop (p @ chunk) rs)"

definition channel_recv :: "channel \<Rightarrow> string list \<Rightarrow> string option \<times> channel \<times> string list" where
  "channel_recv ch rs =
     (if \<not> fd_valid ch then (None, ch, rs)
      else let (line, p, rs') = read_loop (pending ch) rs in (line, ch\<lparr>pending := p\<rparr>, rs'))"

text \<open>Sending and receiving a series of messages.\<close>

fun send_lines :: "channel \<Rightarrow> string list \<Rightarrow> int list \<Rightarrow> bool \<times> string" where
  "send_lines ch [] ws = (True, [])"
| "send_lines ch (l # ls) ws =
     (case channel_send ch l ws of (ok, out, ws') \<Rightarrow>
        if ok then (case send_lines ch ls ws' of (ok', out') \<Rightarrow> (ok', out @ out')) else (False, out))"

fun recv_lines :: "nat \<Rightarrow> channel \<Rightarrow> string list \<Rightarrow> string option list \<times> channel \<times> string list" where
  "recv_lines 0 ch rs = ([], ch, rs)"
| "recv_lines (Suc n) ch rs =
     (case channel_recv ch rs of (line, ch', rs') \<Rightarrow>
        (case recv_lines n ch' rs' of (lines, ch'', rs'') \<Rightarrow> (line # lines, ch'', rs'')))"

section \<open>Correctness of the framing\<close>

lemma write_loop_out: "write_loop s ws = (True, out, ws') \<Longrightarrow> out = s"
  by (induction s ws arbitrary: out ws' rule: write_loop.induct)
     (auto split: if_splits prod.splits simp: append_take_drop_id)

lemma channel_send_out: "channel_send ch l ws = (True, out, ws') \<Longrightarrow> out = l @ [newline]"
  by (auto simp: channel_send_def split: if_splits dest: write_loop_out)

lemma send_lines_out: "send_lines ch ls ws = (True, out) \<Longrightarrow> out = concat (map (\<lambda>l. l @ [newline]) ls)"
  by (induction ls arbitrary: ws out) (auto split: prod.splits if_splits dest!: channel_send_out)

lemma split_at_newline:
  "newline \<notin> set l \<Longrightarrow> takeWhile (\<lambda>c. c \<noteq> newline) (l @ newline # t) = l
     \<and> tl (dropWhile (\<lambda>c. c \<noteq> newline) (l @ newline # t)) = t"
  by (induction l) auto

lemma newline_prefix:
  assumes "p @ q = l @ newline # t" "newline \<notin> set l" "newline \<in> set p"
  shows "\<exists>u. p = l @ newline # u \<and> t = u @ q"
proof -
  obtain a b where ab: "p = a @ newline # b" "newline \<notin> set a"
    using split_list_first [OF assms(3)] by blast
  with assms(1) have eq: "a @ newline # (b @ q) = l @ newline # t" by simp
  have "a = l" "b @ q = t"
    using split_at_newline [OF ab(2), of "b @ q", unfolded eq] split_at_newline [OF assms(2), of t]
    by (simp_all only: simp_thms)
  with ab(1) show ?thesis by blast
qed

text \<open>One receive depends only on the bytes that are to come, not on how they are cut into chunks.\<close>

lemma read_loop_line:
  assumes "p @ concat rs = l @ newline # t" "newline \<notin> set l" "[] \<notin> set rs"
  shows "\<exists>p' rs'. read_loop p rs = (Some l, p', rs') \<and> p' @ concat rs' = t \<and> [] \<notin> set rs'"
  using assms
proof (induction p rs rule: read_loop.induct)
  case (1 p)
  then show ?case by (simp add: split_at_newline)
next
  case (2 p chunk rs)
  show ?case
  proof (cases "newline \<in> set p")
    case True
    with newline_prefix [OF "2.prems"(1,2)] obtain u where "p = l @ newline # u" "t = u @ concat (chunk # rs)"
      by blast
    with "2.prems" show ?thesis by (simp add: split_at_newline)
  next
    case False
    moreover from "2.prems"(3) have "chunk \<noteq> []" by auto
    ultimately show ?thesis using 2 by simp
  qed
qed

lemma read_loop_eof:
  assumes "newline \<notin> set (p @ concat rs)" "[] \<notin> set rs"
  shows "fst (read_loop p rs) = None"
  using assms by (induction p rs rule: read_loop.induct) auto

lemma recv_lines_framed:
  assumes "pending ch @ concat rs = concat (map (\<lambda>l. l @ [newline]) ls) @ t"
    "\<forall>l \<in> set ls. newline \<notin> set l" "[] \<notin> set rs" "fd_valid ch"
  shows "\<exists>ch' rs'. recv_lines (length ls) ch rs = (map Some ls, ch', rs') \<and> pending ch' @ concat rs' = t
           \<and> [] \<notin> set rs' \<and> fd_valid ch'"
  using assms
proof (induction ls arbitrary: ch rs)
  case (Cons l ls)
  let ?t = "concat (map (\<lambda>l. l @ [newline]) ls) @ t"
  from Cons.prems have "pending ch @ concat rs = l @ newline # ?t" "newline \<notin> set l" by simp_all
  from read_loop_line [OF this Cons.prems(3)] obtain p' rs' where
    r: "read_loop (pending ch) rs = (Some l, p', rs')" "p' @ concat rs' = ?t" "[] \<notin> set rs'" by blast
  with Cons.prems(2,4) Cons.IH [of "ch\<lparr>pending := p'\<rparr>" rs'] show ?case
    by (auto simp: channel_recv_def)
qed auto

text \<open>
  C33.  Messages without a newline survive the channel: whatever sizes the writes accept and into
  whatever chunks the reads cut the stream, the peer receives exactly the messages that were sent,
  in order, with nothing left over.
\<close>

theorem line_channel_roundtrip:
  assumes "send_lines tx ls ws = (True, wire)"
    and "\<forall>l \<in> set ls. newline \<notin> set l"
    and "concat chunks = wire" and "[] \<notin> set chunks"
  shows "recv_lines (length ls) \<lparr>fd_valid = True, pending = []\<rparr> chunks =
    (map Some ls, \<lparr>fd_valid = True, pending = []\<rparr>, [])"
proof -
  let ?ch = "\<lparr>fd_valid = True, pending = []\<rparr>"
  have "pending ?ch @ concat chunks = concat (map (\<lambda>l. l @ [newline]) ls) @ []"
    using send_lines_out [OF assms(1)] assms(3) by simp
  from recv_lines_framed [OF this assms(2,4)] obtain ch' rs' where
    r: "recv_lines (length ls) ?ch chunks = (map Some ls, ch', rs')" "pending ch' @ concat rs' = []"
       "[] \<notin> set rs'" "fd_valid ch'" by auto
  then have "rs' = []" by (cases rs') auto
  with r show ?thesis by simp
qed

theorem line_channel_roundtrip_witness:
  "recv_lines 2 \<lparr>fd_valid = True, pending = []\<rparr> [''ok'' @ [newline] @ ''da'', ''ta 00'' @ [newline]] =
     ([Some ''ok'', Some ''data 00''], \<lparr>fd_valid = True, pending = []\<rparr>, [])"
proof -
  have "recv_lines (length [''ok'', ''data 00'']) \<lparr>fd_valid = True, pending = []\<rparr>
      [''ok'' @ [newline] @ ''da'', ''ta 00'' @ [newline]] =
      (map Some [''ok'', ''data 00''], \<lparr>fd_valid = True, pending = []\<rparr>, [])"
    by (rule line_channel_roundtrip [where tx = "\<lparr>fd_valid = True, pending = []\<rparr>" and ws = "[2, 1, 5, 9]"
          and wire = "''ok'' @ [newline] @ ''data 00'' @ [newline]"])
       (simp_all add: channel_send_def)
  then show ?thesis by (simp add: numeral_2_eq_2)
qed

end
