(* ===== verification/OclgrindBackend.thy ===== *)
theory OclgrindBackend
  imports LineChannel Types
begin

text \<open>
  \<^verbatim>\<open>ocldbg/backends/oclgrind/OclgrindBackend.{h,cpp}\<close>: the debugger's half of the Oclgrind
  backend.  The other end of the channel is a function \<open>peer\<close> that answers a line sent to it by the
  next line received (\<open>None\<close> at end-of-stream) and a new peer state; \<^verbatim>\<open>LineChannel\<close> shows why the
  framing underneath is faithful, and \<^verbatim>\<open>OclgrindLink\<close> puts the plugin's model at the other end.
  The execution context handle points to the one context the backend owns, so it is \<^typ>\<open>unit\<close>.
  Sockets, \<^verbatim>\<open>fork\<close> and \<^verbatim>\<open>exec\<close> are the answers of the operating system in \<open>launch_env\<close>;
  \<^verbatim>\<open>OclgrindStartup\<close> looks behind them.
\<close>

type_synonym 'p peer = "'p \<Rightarrow> string \<Rightarrow> string option \<times> 'p"

record og_backend =
  ob_channel :: bool                     \<comment> \<open>\<^verbatim>\<open>channel.valid()\<close>\<close>
  ob_listen_fd :: bool                   \<comment> \<open>\<^verbatim>\<open>listen_fd >= 0\<close>\<close>
  ob_socket_path :: string
  ob_child :: bool                       \<comment> \<open>\<^verbatim>\<open>child > 0\<close>\<close>
  ob_halted :: bool
  ob_stop_line :: u32
  ob_stopped :: "unit ocl_work_item"
  ob_ctx_global_id :: size3
  ob_breakpoints :: "(u64, u32) omap"
  ob_next_breakpoint_id :: u64

definition new_og_backend :: og_backend where
  "new_og_backend = \<lparr>ob_channel = False, ob_listen_fd = False, ob_socket_path = [], ob_child = False,
     ob_halted = False, ob_stop_line = 0, ob_stopped = empty_work_item, ob_ctx_global_id = Size3 0 0 0,
     ob_breakpoints = [], ob_next_breakpoint_id = 1\<rparr>"

section \<open>Helpers\<close>

definition prepend_path :: "string \<Rightarrow> string option \<Rightarrow> string" where
  "prepend_path head existing =
     (case existing of None \<Rightarrow> head | Some e \<Rightarrow> if e = [] then head else head @ '':'' @ e)"

fun skip_words :: "nat \<Rightarrow> string \<Rightarrow> string" where
  "skip_words 0 s = s"
| "skip_words (Suc n) s = skip_words n (snd (read_word s))"

definition parse_numbers :: "string \<Rightarrow> nat \<Rightarrow> size_t list" where
  "parse_numbers line skip = read_numbers (skip_words skip line)"

definition first_word :: "string \<Rightarrow> string" where
  "first_word line = fst (read_word line)"

definition request :: "'p peer \<Rightarrow> 'p \<Rightarrow> og_backend \<Rightarrow> string \<Rightarrow> string option \<times> 'p" where
  "request peer p b command = (if \<not> ob_channel b then (None, p) else peer p command)"

text \<open>\<^verbatim>\<open>std::stoul(text, nullptr, 16)\<close>, with the C scanner's white space, sign and \<^verbatim>\<open>0x\<close> prefix.\<close>

definition hex_val :: "char \<Rightarrow> nat option" where
  "hex_val c = (let n = (of_char c :: nat) in
     if 48 \<le> n \<and> n \<le> 57 then Some (n - 48)
     else if 97 \<le> n \<and> n \<le> 102 then Some (n - 87)
     else if 65 \<le> n \<and> n \<le> 70 then Some (n - 55) else None)"

definition stoul16 :: "string \<Rightarrow> std_exception + u64" where
  "stoul16 s =
     (let (neg, u) = scan_sign (dropWhile isspace s);
          v = (if (starts_with u ''0x'' \<or> starts_with u ''0X'') \<and> length u > 2 \<and> hex_val (u ! 2) \<noteq> None then drop 2 u else u);
          ds = takeWhile (\<lambda>c. hex_val c \<noteq> None) v;
          n = foldl (\<lambda>a c. 16 * a + the (hex_val c)) 0 ds
      in if ds = [] then Inl Invalid_argument
         else if 2 ^ 64 \<le> n then Inl Out_of_range
         else Inr (if neg then - of_nat n else of_nat n))"

text \<open>The bytes written to the caller's buffer; an exception of \<^verbatim>\<open>stoul\<close> escapes the function.\<close>

fun decode_pairs :: "string \<Rightarrow> nat \<Rightarrow> std_exception + u8 list" where
  "decode_pairs hex 0 = Inr []"
| "decode_pairs hex (Suc n) =
     (case stoul16 (take 2 hex) of
        Inl e \<Rightarrow> Inl e
      | Inr v \<Rightarrow> (case decode_pairs (drop 2 hex) n of Inl e \<Rightarrow> Inl e | Inr bs \<Rightarrow> Inr (ucast v # bs)))"

definition decode_hex :: "string \<Rightarrow> size_t \<Rightarrow> std_exception + u8 list" where
  "decode_hex hex capacity = decode_pairs hex (min (length hex div 2) (unat capacity))"

section \<open>Commands\<close>

definition break_command :: "u64 \<Rightarrow> u32 \<Rightarrow> string" where
  "break_command bid line = spaced [kCmdBreak, to_string bid, to_string line]"

definition delete_command :: "u64 \<Rightarrow> string" where
  "delete_command bid = spaced [kCmdDelete, to_string bid]"

definition select_command :: "size3 \<Rightarrow> string" where
  "select_command g = spaced [kCmdSelect, to_string (dim_x g), to_string (dim_y g), to_string (dim_z g)]"

definition read_command :: "u64 \<Rightarrow> size_t \<Rightarrow> string" where
  "read_command addr len = spaced [kCmdRead, to_string addr, to_string len]"

definition step_over_command :: string where
  "step_over_command = spaced [kCmdStep, kStepOver]"

definition step_in_command :: string where
  "step_in_command = spaced [kCmdStep, kStepIn]"

section \<open>Launch and detach\<close>

record launch_env =
  le_plugin_library :: string
  le_socket_path :: string
  le_listen_ok :: bool
  le_fork_ok :: bool
  le_accept_ok :: bool
  le_hello :: "string option"            \<comment> \<open>the first line received, if any\<close>

definition og_detach :: "og_backend \<Rightarrow> og_backend" where
  "og_detach b = b\<lparr>ob_channel := False, ob_listen_fd := False, ob_socket_path := [], ob_child := False,
     ob_halted := False\<rparr>"

fun send_breakpoints :: "'p peer \<Rightarrow> 'p \<Rightarrow> og_backend \<Rightarrow> (u64 \<times> u32) list \<Rightarrow> 'p" where
  "send_breakpoints peer p b [] = p"
| "send_breakpoints peer p b ((bid, line) # bps) =
     send_breakpoints peer (snd (request peer p b (break_command bid line))) b bps"

definition og_launch :: "'p peer \<Rightarrow> launch_env \<Rightarrow> 'p \<Rightarrow> og_backend \<Rightarrow> bool \<times> 'p \<times> og_backend" where
  "og_launch peer env p b =
     (if le_plugin_library env = [] then (False, p, b)
      else let b1 = b\<lparr>ob_socket_path := le_socket_path env, ob_listen_fd := le_listen_ok env\<rparr> in
        if \<not> le_listen_ok env then (False, p, b1)
        else let b2 = b1\<lparr>ob_child := le_fork_ok env\<rparr> in
          if \<not> le_fork_ok env then (False, p, b2)
          else if \<not> le_accept_ok env then (False, p, og_detach b2)
          else let b3 = b2\<lparr>ob_channel := True\<rparr> in
            if (case le_hello env of None \<Rightarrow> True | Some event \<Rightarrow> first_word event \<noteq> kEventReady)
            then (False, p, og_detach b3)
            else let b4 = b3\<lparr>ob_halted := True\<rparr>
                 in (True, send_breakpoints peer p b4 (ob_breakpoints b4), b4))"

section \<open>Breakpoints\<close>

definition og_set_breakpoint :: "'p peer \<Rightarrow> source_location \<Rightarrow> 'p \<Rightarrow> og_backend \<Rightarrow> u64 \<times> 'p \<times> og_backend" where
  "og_set_breakpoint peer loc p b =
     (if loc_line loc = 0 then (0, p, b)
      else let bid = ob_next_breakpoint_id b;
               b1 = b\<lparr>ob_next_breakpoint_id := bid + 1, ob_breakpoints := om_insert bid (loc_line loc) (ob_breakpoints b)\<rparr>
           in if ob_halted b1 then
                (case request peer p b1 (break_command bid (loc_line loc)) of
                   (None, p') \<Rightarrow> (0, p', b1\<lparr>ob_breakpoints := om_erase bid (ob_breakpoints b1)\<rparr>)
                 | (Some reply, p') \<Rightarrow>
                     if first_word reply \<noteq> kReplyOk
                     then (0, p', b1\<lparr>ob_breakpoints := om_erase bid (ob_breakpoints b1)\<rparr>)
                     else (bid, p', b1))
              else (bid, p, b1))"

definition og_remove_breakpoint :: "'p peer \<Rightarrow> u64 \<Rightarrow> 'p \<Rightarrow> og_backend \<Rightarrow> 'p \<times> og_backend" where
  "og_remove_breakpoint peer bid p b =
     (if map_of (ob_breakpoints b) bid = None then (p, b)
      else let b1 = b\<lparr>ob_breakpoints := om_erase bid (ob_breakpoints b)\<rparr> in
        if ob_halted b1 then (snd (request peer p b1 (delete_command bid)), b1) else (p, b1))"

section \<open>Execution control\<close>

definition work_item_of_fields :: "size3 \<Rightarrow> size_t list \<Rightarrow> u32 \<Rightarrow> unit ocl_work_item" where
  "work_item_of_fields gid f line =
     empty_work_item\<lparr>global_id := gid,
       local_id := Size3 (f ! 0) (f ! 1) (f ! 2), group_id := Size3 (f ! 3) (f ! 4) (f ! 5),
       location := \<lparr>loc_file = [], loc_line = line\<rparr>, exec_ctx := Some ()\<rparr>"

text \<open>The third component is the context handed to the stop callback, if the backend halts.\<close>

definition resume_with :: "'p peer \<Rightarrow> string \<Rightarrow> 'p \<Rightarrow> og_backend \<Rightarrow> 'p \<times> og_backend \<times> unit ocl_stop_context option" where
  "resume_with peer command p b =
     (if \<not> ob_halted b then (p, b, None)
      else let b1 = b\<lparr>ob_halted := False\<rparr> in
        if \<not> ob_channel b1 then (p, b1, None)
        else case peer p command of
          (None, p') \<Rightarrow> (p', b1\<lparr>ob_channel := False\<rparr>, None)
        | (Some event, p') \<Rightarrow>
            if first_word event \<noteq> kEventStopped then (p', b1, None)
            else let f = parse_numbers event 1 in
              if length f < 10 then (p', b1, None)
              else let gid = Size3 (f ! 1) (f ! 2) (f ! 3);
                       wi = work_item_of_fields gid (drop 4 f) (ucast (f ! 0))
                   in (p', b1\<lparr>ob_stop_line := ucast (f ! 0), ob_ctx_global_id := gid, ob_stopped := wi, ob_halted := True\<rparr>,
                       Some \<lparr>stopped = wi, visible = [wi]\<rparr>))"

definition og_resume :: "'p peer \<Rightarrow> 'p \<Rightarrow> og_backend \<Rightarrow> 'p \<times> og_backend \<times> unit ocl_stop_context option" where
  "og_resume peer p b = resume_with peer kCmdContinue p b"

definition og_select_work_item :: "'p peer \<Rightarrow> size3 \<Rightarrow> 'p \<Rightarrow> og_backend \<Rightarrow> unit ocl_work_item option \<times> 'p \<times> og_backend" where
  "og_select_work_item peer gid p b =
     (if \<not> ob_halted b then (None, p, b)
      else case request peer p b (select_command gid) of
        (None, p') \<Rightarrow> (None, p', b)
      | (Some reply, p') \<Rightarrow>
          if first_word reply \<noteq> kReplyOk then (None, p', b)
          else let f = parse_numbers reply 1 in
            if length f < 6 then (None, p', b)
            else let wi = work_item_of_fields gid f (ob_stop_line b)
                 in (Some wi, p', b\<lparr>ob_ctx_global_id := gid, ob_stopped := wi\<rparr>))"

definition og_step :: "'p peer \<Rightarrow> string \<Rightarrow> unit ocl_work_item \<Rightarrow> 'p \<Rightarrow> og_backend
    \<Rightarrow> 'p \<times> og_backend \<times> unit ocl_stop_context option" where
  "og_step peer command wi p b =
     (case og_select_work_item peer (global_id wi) p b of
        (None, p', b') \<Rightarrow> (p', b', None)
      | (Some _, p', b') \<Rightarrow> resume_with peer command p' b')"

definition og_step_over :: "'p peer \<Rightarrow> unit ocl_work_item \<Rightarrow> 'p \<Rightarrow> og_backend
    \<Rightarrow> 'p \<times> og_backend \<times> unit ocl_stop_context option" where
  "og_step_over peer wi p b = og_step peer step_over_command wi p b"

definition og_step_in :: "'p peer \<Rightarrow> unit ocl_work_item \<Rightarrow> 'p \<Rightarrow> og_backend
    \<Rightarrow> 'p \<times> og_backend \<times> unit ocl_stop_context option" where
  "og_step_in peer wi p b = og_step peer step_in_command wi p b"

section \<open>Queries\<close>

definition read_global_memory :: "'p peer \<Rightarrow> u64 \<Rightarrow> size_t \<Rightarrow> 'p \<Rightarrow> og_backend \<Rightarrow> (std_exception + u8 list) \<times> 'p" where
  "read_global_memory peer addr len p b =
     (if \<not> ob_halted b \<or> len = 0 then (Inr [], p)
      else case request peer p b (read_command addr len) of
        (None, p') \<Rightarrow> (Inr [], p')
      | (Some reply, p') \<Rightarrow>
          let (tag, rest) = read_word reply; hex = fst (read_word rest) in
          if tag \<noteq> kReplyData then (Inr [], p') else (decode_hex hex len, p'))"

text \<open>
  \<^verbatim>\<open>OclgrindLocationBackend::evaluate\<close>; \<open>connected\<close> says that the handle and the channel in it are
  not null and the channel is open.  \<^verbatim>\<open>reply.substr(6)\<close> raises \<^verbatim>\<open>out_of_range\<close> on a reply that is just
  the word \<^verbatim>\<open>value\<close>.
\<close>

definition og_evaluate :: "'p peer \<Rightarrow> bool \<Rightarrow> var_info \<Rightarrow> 'p \<Rightarrow> (std_exception + var_value) \<times> 'p" where
  "og_evaluate peer connected var p =
     (if \<not> connected \<or> vi_name var = [] then (Inr empty_var_value, p)
      else case peer p (kCmdPrint @ '' '' @ vi_name var) of
        (None, p') \<Rightarrow> (Inr empty_var_value, p')
      | (Some reply, p') \<Rightarrow>
          if first_word reply \<noteq> kReplyValue
          then (Inr \<lparr>vv_name = vi_name var, vv_type_name = vi_type_name var, vv_value_str = [],
                  vv_address_space = vi_address_space var, vv_available = False\<rparr>, p')
          else if length reply < length kReplyValue + 1 then (Inl Out_of_range, p')
          else (Inr \<lparr>vv_name = vi_name var, vv_type_name = vi_type_name var,
                  vv_value_str = drop (length kReplyValue + 1) reply,
                  vv_address_space = vi_address_space var, vv_available = True\<rparr>, p'))"

end
