(* ===== verification/DapBackends.thy ===== *)
theory DapBackends
  imports DapReferences PoclBackend OclgrindBackend
begin

text \<open>
  The DAP server over the two backends, as \<^verbatim>\<open>DebuggerContext::run_dap\<close> puts them together, with the
  variable resolver, which has a debug model of its own.  \<open>dap_backend\<close> is what the server's selection of
  work-items relies on.
\<close>

section \<open>The backends as the server sees them\<close>

definition fresh_model :: debug_model where
  "fresh_model = \<lparr>dbm_dwarf = unloaded_dwarf, dbm_spaces = no_spaces, dbm_cache = Map.empty\<rparr>"

text \<open>\<open>l\<close> is LLDB when the debugger is created; without a debugger no work-item has a frame to look at.\<close>

definition lldb_of :: "'l \<Rightarrow> 'l pocl \<Rightarrow> 'l" where
  "lldb_of l p = (case pb_dbg p of None \<Rightarrow> l | Some w \<Rightarrow> db_lldb (wb_dbg w))"

definition beside :: "'d \<Rightarrow> ('p \<times> 'r) option \<Rightarrow> (('p \<times> 'd) \<times> 'r) option" where
  "beside d r = map_option (\<lambda>(p, x). ((p, d), x)) r"

definition pocl_api :: "'l host \<Rightarrow> 'l \<Rightarrow> nat \<Rightarrow> ('l pocl \<times> debug_model, cpu_exec_ctx) backend_api" where
  "pocl_api H l n = \<lparr>
     ba_launch = (\<lambda>host_binary args (p, d). let (ok, p') = pocl_launch H l host_binary args p in (ok, (p', d))),
     ba_detach = (\<lambda>(p, d). (pocl_detach H p, d)),
     ba_set_breakpoint = (\<lambda>loc (p, d). let (i, p') = pocl_set_breakpoint H loc p in (i, (p', d))),
     ba_resume = (\<lambda>(p, d). beside d (pocl_resume H n p)),
     ba_step_over = (\<lambda>wi (p, d). beside d (pocl_step_over H n wi p)),
     ba_step_in = (\<lambda>wi (p, d). beside d (pocl_step_in H n wi p)),
     ba_select_work_item = (\<lambda>gid (p, d). let (r, p') = pocl_select_work_item H gid p in (r, (p', d))),
     ba_resolve = (\<lambda>wi (p, d). map_option (\<lambda>(vars, d'). (vars, (p, d'))) (resolve_variables (h_inspection H (lldb_of l p)) (exec_ctx wi) d))\<rparr>"

text \<open>
  The resolver reads the context of a work-item as one of the pocl backend.  A work-item of the Oclgrind
  backend has a context of another kind, where that is undefined (\<open>None\<close>).  The peer is given on reads and
  writes, so that a run always comes back.
\<close>

definition oclgrind_api :: "'p peer \<Rightarrow> (string \<Rightarrow> string list \<Rightarrow> launch_env) \<Rightarrow> ('p \<times> og_backend, unit) backend_api" where
  "oclgrind_api peer env = \<lparr>
     ba_launch = (\<lambda>host_binary args (p, b). og_launch peer (env host_binary args) p b),
     ba_detach = (\<lambda>(p, b). (p, og_detach b)),
     ba_set_breakpoint = (\<lambda>loc (p, b). og_set_breakpoint peer loc p b),
     ba_resume = (\<lambda>(p, b). let (p', b', r) = og_resume peer p b in Some ((p', b'), r)),
     ba_step_over = (\<lambda>wi (p, b). let (p', b', r) = og_step_over peer wi p b in Some ((p', b'), r)),
     ba_step_in = (\<lambda>wi (p, b). let (p', b', r) = og_step_in peer wi p b in Some ((p', b'), r)),
     ba_select_work_item = (\<lambda>gid (p, b). og_select_work_item peer gid p b),
     ba_resolve = (\<lambda>wi b. if exec_ctx wi = None then Some ([], b) else None)\<rparr>"

text \<open>
  \<^verbatim>\<open>run_dap\<close> with the bytes on the standard input and the answers of the network: what the server writes
  to the standard output, or to the client that connects.
\<close>

definition serve_dap :: "json_lib \<Rightarrow> ('b, 'c) backend_api \<Rightarrow> u16 \<Rightarrow> string \<Rightarrow> tcp_answers \<Rightarrow> 'b \<Rightarrow> string option" where
  "serve_dap J B dap_port inp net b =
     map_option (output_text J) (if dap_port > 0 then run_tcp J B net (new_dap b) else run_stdio J B inp (new_dap b))"

definition run_dap :: "json_lib \<Rightarrow> 'l host \<Rightarrow> 'l \<Rightarrow> nat \<Rightarrow> 'p peer \<Rightarrow> (string \<Rightarrow> string list \<Rightarrow> launch_env) \<Rightarrow> 'p
    \<Rightarrow> string \<Rightarrow> tcp_answers \<Rightarrow> string \<Rightarrow> u16 \<Rightarrow> string option" where
  "run_dap J H l n peer env p inp net backend dap_port =
     (if backend = ''oclgrind''
      then serve_dap J (oclgrind_api peer env) dap_port inp net (p, new_og_backend)
      else serve_dap J (pocl_api H l n) dap_port inp net (new_pocl, fresh_model))"

section \<open>Selecting a work-item\<close>

text \<open>What the server answers to a selection, and what it keeps.\<close>

definition selection_answered :: "json_lib \<Rightarrow> size3 \<Rightarrow> int \<Rightarrow> ('b, 'c) dap \<Rightarrow> ('b, 'c) dap \<Rightarrow> bool" where
  "selection_answered J gid q s s' \<longleftrightarrow>
     (last_sent s' = make_response J (da_next_seq s) q ''ocldbg/selectWorkItem'' ''{\"selected\":false}'' \<and> da_selected_wi s' = da_selected_wi s)
   \<or> (\<exists>wi. da_selected_wi s' = Some wi \<and> global_id wi = gid
        \<and> last_sent s' = make_response J (da_next_seq s) q ''ocldbg/selectWorkItem'' (show_object J
            [(''selected'', JBool True), (''workItem'', JString (format_dap_work_item_name wi (da_launch_work_dim s)))]))"

locale dap_backend =
  fixes B :: "('b, 'c) backend_api"
  assumes select_item: "ba_select_work_item B gid b = (Some wi, b') \<Longrightarrow> global_id wi = gid"
begin

lemma selects_requested: "selection_answered J (requested_item args) q s (handle_select_work_item J B q args s)"
proof (cases "ba_select_work_item B (requested_item args) (da_backend s)")
  case (Pair r b)
  show ?thesis
  proof (cases r)
    case None
    with Pair show ?thesis by (simp add: selection_answered_def handle_select_work_item_def send_response_def last_sent_def)
  next
    case (Some wi)
    with Pair have "global_id wi = requested_item args" by (intro select_item) simp
    with Pair Some show ?thesis
      by (simp add: selection_answered_def handle_select_work_item_def send_response_def last_sent_def)
  qed
qed

end

lemma pocl_selects: "pocl_select_work_item H gid p = (Some wi, p') \<Longrightarrow> global_id wi = gid"
  by (auto simp: pocl_select_work_item_def select_work_item_def Let_def split: option.splits prod.splits if_splits)

interpretation pocl_dap: dap_backend "pocl_api H l n"
  by unfold_locales (auto simp: pocl_api_def dest: pocl_selects split: prod.splits)

lemma oclgrind_selects: "og_select_work_item peer gid p b = (Some wi, p', b') \<Longrightarrow> global_id wi = gid"
  unfolding og_select_work_item_def Let_def
  by (elim if_chainE) (auto simp: work_item_of_fields_def split: option.splits prod.splits elim!: if_chainE)

interpretation oclgrind_dap: dap_backend "oclgrind_api peer env"
  by unfold_locales (auto simp: oclgrind_api_def dest: oclgrind_selects)

text \<open>
  With either backend, a client that selects a work-item is told the name of the work-item it asked
  for, or that nothing was selected, and then the selection stays what it was.
\<close>

theorem dap_selects_requested:
  "selection_answered J (requested_item args) q s (handle_select_work_item J (pocl_api H l n) q args s)
   \<and> selection_answered J (requested_item args) q2 s2 (handle_select_work_item J (oclgrind_api peer env) q2 args s2)"
  by (rule conjI, rule pocl_dap.selects_requested, rule oclgrind_dap.selects_requested)

text \<open>A selection is not shown: the frames and variables of a thread stay those of the item it was listed with.\<close>

lemma selection_not_shown:
  assumes "map_of (da_threads s) tid = Some wi"
  shows "resolve_target_wi tid (handle_select_work_item J B q args s) = wi
    \<and> item_of_thread tid (handle_select_work_item J B q args s) = wi"
  using assms
  by (simp add: handle_select_work_item_def resolve_target_wi_def item_of_thread_def send_response_def split: option.split prod.split)

section \<open>Running the debuggee\<close>

lemma backend_of_send [simp]: "da_backend (send_response J q c body s) = da_backend s"
  and threads_of_send [simp]: "da_threads (send_response J q c body s) = da_threads s"
  and sent_of_send [simp]: "length (da_sent (send_response J q c body s)) = Suc (length (da_sent s))"
  by (simp_all add: send_response_def)

lemma sent_of_stop: "length (da_sent (on_stop J ctx s)) = Suc (length (da_sent s))"
  using on_stop_sent [of J ctx s] by auto

definition numbered_threads :: "'c ocl_work_item list \<Rightarrow> (int \<times> 'c ocl_work_item) list" where
  "numbered_threads items = zip [1..int (length items)] items"

text \<open>
  C24.  Continuing under the pocl backend: when the debuggee stops for the user, the client's threads become
  the stopped work-items the debugger lists, numbered from one in the debugger's order, and the client gets an
  event after the response; when it ends, or no work-item is found, the threads stay those of the last stop
  and the client gets the response only.
\<close>

theorem pocl_continue_shown:
  assumes "da_backend s = (p, d)" and "pb_dbg p = Some w" and "continue_execution (h_api H) n (wb_dbg w) = Some (r, t)"
    and "stop_items H (w\<lparr>wb_dbg := t\<rparr>) = (items, w')"
  shows "\<exists>s'. handle_continue J (pocl_api H l n) q s = Some s'
    \<and> da_threads s' = (if r \<and> items \<noteq> [] then numbered_threads items else da_threads s)
    \<and> length (da_sent s') = length (da_sent s) + (if r \<and> items \<noteq> [] then 2 else 1)"
proof (cases items)
  case Nil
  with assms show ?thesis
    by (auto simp: handle_continue_def Let_def pocl_api_def pocl_resume_def beside_def after_run_def notify_stop_def)
next
  case (Cons i others)
  let ?p = "p\<lparr>pb_halted := False, pb_dbg := Some (w\<lparr>wb_dbg := t\<rparr>)\<rparr>"
  have "notify_stop H ?p = (?p\<lparr>pb_dbg := Some w', pb_halted := True\<rparr>, Some \<lparr>stopped = i, visible = others\<rparr>)"
    using assms(4) by (simp add: notify_stop_def Cons)
  with assms(1-3) show ?thesis
    by (auto simp: handle_continue_def Let_def pocl_api_def pocl_resume_def beside_def after_run_def Cons
        threads_of_stop thread_table_def numbered_threads_def sent_of_stop add.commute [of 1])
qed

definition halting_bench :: "demo_lldb workbench" where
  "halting_bench = (new_workbench None (demo_start []))\<lparr>wb_dbg := halting_debugger enqueue_process\<rparr>"

lemma halting_shown:
  "\<exists>t items w'. continue_execution (h_api demo_host) 3 (wb_dbg halting_bench) = Some (True, t)
     \<and> stop_items demo_host (halting_bench\<lparr>wb_dbg := t\<rparr>) = (items, w') \<and> length items = 1"
  by (simp add: continue_execution_def Let_def use_target_def halting_bench_def halting_debugger_def new_debugger_def demo_start_def
      ensure_ocl_trampoline_def sb_valid_def demo_host_def demo_api_def demo_create_def demo_step_def eval_nat_numeral
      continue_stop_def record_stop_def set_items_def note_launch_def check_enqueue_ndrange_def new_item_state_def
      record_stopped_workgroups_def resolve_pending_state after_host_def put_breakpoints_def after_dwarf_def unloaded_dwarf_def
      load_kernel_dwarf_def dwarf_load_def find_kernel_module_def check_user_stop_def user_breakpoint_ids_def list_stopped_work_items_def
      enqueue_process_def idle_thread_def blank_frame_def split_beta stop_items_def use_process_def process_of_def)

theorem pocl_continue_shown_witness:
  "\<exists>i s'. handle_continue coded_json (pocl_api demo_host (demo_start []) 3) 9
       (new_dap (new_pocl\<lparr>pb_dbg := Some halting_bench\<rparr>, fresh_model)) = Some s'
     \<and> da_threads s' = [(1, i)] \<and> length (da_sent s') = 2"
proof -
  let ?p = "new_pocl\<lparr>pb_dbg := Some halting_bench\<rparr>"
  let ?s = "new_dap (?p, fresh_model) :: (demo_lldb pocl \<times> debug_model, cpu_exec_ctx) dap"
  obtain t items w' where h: "continue_execution (h_api demo_host) 3 (wb_dbg halting_bench) = Some (True, t)"
    "stop_items demo_host (halting_bench\<lparr>wb_dbg := t\<rparr>) = (items, w')" "length items = 1" using halting_shown by blast
  then obtain i where i: "items = [i]" by (cases items) auto
  have "da_backend ?s = (?p, fresh_model)" "pb_dbg ?p = Some halting_bench" by (simp_all add: new_dap_def)
  from pocl_continue_shown [OF this h(1,2), of coded_json "demo_start []" 9] show ?thesis
    by (auto simp: i numbered_threads_def new_dap_def)
qed

text \<open>Under the Oclgrind backend the work-item that stopped is listed twice: its context has it among the others.\<close>

lemma oclgrind_listed_twice:
  assumes "da_backend s = (p, b)" and "og_resume peer p b = (p', b', Some ctx)"
  shows "\<exists>s'. handle_continue J (oclgrind_api peer env) q s = Some s' \<and> da_threads s' = [(1, stopped ctx), (2, stopped ctx)]"
proof -
  have "visible ctx = [stopped ctx]"
    using assms(2) unfolding og_resume_def resume_with_def Let_def by (elim if_chainE) (auto split: option.splits prod.splits elim!: if_chainE)
  with assms show ?thesis
    by (auto simp: handle_continue_def Let_def oclgrind_api_def after_run_def threads_of_stop thread_table_def upto_rec1)
qed

end
