(* ===== verification/Args.thy ===== *)
theory Args
  imports Prelude
begin

text \<open>
  \<^verbatim>\<open>ocldbg/args.{h,cpp}\<close>: the command line.  The argument vector is the list of the arguments after
  the program's name; a parser takes the current argument and the ones after it, and answers with the
  updated options and what it left.  \<^verbatim>\<open>std::stoul\<close> and its kin raise, so the result is a sum.
\<close>

record program_args =
  backend_name :: string
  host_binary :: string
  host_args :: "string list"
  dap_port :: u16
  dap_mode :: bool
  dry_run :: bool
  show_wg_bounds :: bool
  track_wg :: bool
  inspect_vars :: bool
  break_at :: u32
  break_for :: size_t
  print_exprs :: "string list"
  show_help :: bool
  show_version :: bool
  one_line_before :: "string list"
  source_before :: "string list"
  source_after :: "string list"
  one_line_after :: "string list"
  batch_mode :: bool

definition default_args :: program_args where
  "default_args = \<lparr>backend_name = ''cpu'', host_binary = [], host_args = [], dap_port = 0, dap_mode = False,
     dry_run = False, show_wg_bounds = False, track_wg = False, inspect_vars = False, break_at = 0, break_for = 0,
     print_exprs = [], show_help = False, show_version = False, one_line_before = [], source_before = [],
     source_after = [], one_line_after = [], batch_mode = False\<rparr>"

definition has_ocldbg_specific_args :: "program_args \<Rightarrow> bool" where
  "has_ocldbg_specific_args a \<longleftrightarrow> show_wg_bounds a \<or> track_wg a \<or> inspect_vars a \<or> break_at a > 0 \<or> break_for a > 0
     \<or> print_exprs a \<noteq> []"

text \<open>\<^verbatim>\<open>parse_string_opt\<close> and \<^verbatim>\<open>parse_vector_opt\<close> read the same way and differ in what they do with the value.\<close>

definition parse_value_opt :: "string \<Rightarrow> string \<Rightarrow> string \<Rightarrow> string list \<Rightarrow> (string \<times> string list) option" where
  "parse_value_opt short_flag long_flag arg rest =
     (if arg = short_flag \<or> arg = long_flag then (case rest of [] \<Rightarrow> None | v # rest' \<Rightarrow> Some (v, rest')) else None)"

definition parse_flag_opts :: "program_args \<Rightarrow> string \<Rightarrow> string list \<Rightarrow> (program_args \<times> string list) option" where
  "parse_flag_opts a arg rest =
     (case parse_value_opt ''-O'' ''--one-line-before-file'' arg rest of
        Some (v, r) \<Rightarrow> Some (a\<lparr>one_line_before := one_line_before a @ [v]\<rparr>, r)
      | None \<Rightarrow> case parse_value_opt ''-S'' ''--source-before-file'' arg rest of
        Some (v, r) \<Rightarrow> Some (a\<lparr>source_before := source_before a @ [v]\<rparr>, r)
      | None \<Rightarrow> case parse_value_opt ''-s'' ''--source'' arg rest of
        Some (v, r) \<Rightarrow> Some (a\<lparr>source_after := source_after a @ [v]\<rparr>, r)
      | None \<Rightarrow> case parse_value_opt ''-o'' ''--one-line'' arg rest of
        Some (v, r) \<Rightarrow> Some (a\<lparr>one_line_after := one_line_after a @ [v]\<rparr>, r)
      | None \<Rightarrow> case parse_value_opt [] ''--print'' arg rest of
        Some (v, r) \<Rightarrow> Some (a\<lparr>print_exprs := print_exprs a @ [v]\<rparr>, r)
      | None \<Rightarrow> case parse_value_opt [] ''--backend'' arg rest of
        Some (v, r) \<Rightarrow> Some (a\<lparr>backend_name := v\<rparr>, r)
      | None \<Rightarrow>
          if arg = ''-b'' \<or> arg = ''--batch'' then Some (a\<lparr>batch_mode := True\<rparr>, rest)
          else if arg = ''--dry-run'' then Some (a\<lparr>dry_run := True\<rparr>, rest)
          else if arg = ''--show-wg-bounds'' then Some (a\<lparr>show_wg_bounds := True\<rparr>, rest)
          else if arg = ''--track-wg'' then Some (a\<lparr>track_wg := True\<rparr>, rest)
          else if arg = ''--dap'' then Some (a\<lparr>dap_mode := True\<rparr>, rest)
          else if arg = ''--inspect-vars'' then Some (a\<lparr>inspect_vars := True\<rparr>, rest)
          else None)"

definition parse_numeric_opts :: "program_args \<Rightarrow> string \<Rightarrow> string list
    \<Rightarrow> (std_exception + program_args \<times> string list) option" where
  "parse_numeric_opts a arg rest =
     (case rest of
        [] \<Rightarrow> None
      | v # r \<Rightarrow>
          if arg = ''--break-at'' then
            Some (case stoul v of Inl e \<Rightarrow> Inl e | Inr n \<Rightarrow> Inr (a\<lparr>break_at := ucast n\<rparr>, r))
          else if arg = ''--break-for'' then
            Some (case stoul v of Inl e \<Rightarrow> Inl e | Inr n \<Rightarrow> Inr (a\<lparr>break_for := n\<rparr>, r))
          else if arg = ''--port'' then
            Some (case stoi v of Inl e \<Rightarrow> Inl e | Inr n \<Rightarrow> Inr (a\<lparr>dap_port := of_int n\<rparr>, r))
          else None)"

definition parse_positional_arg :: "program_args \<Rightarrow> string \<Rightarrow> program_args" where
  "parse_positional_arg a arg =
     (if host_binary a = [] then
        (if arg \<noteq> [] \<and> hd arg \<noteq> CHR ''-'' then a\<lparr>host_binary := arg\<rparr> else a)
      else a\<lparr>host_args := host_args a @ [arg]\<rparr>)"

fun parse_trailing_args :: "program_args \<Rightarrow> string list \<Rightarrow> program_args" where
  "parse_trailing_args a [] = a"
| "parse_trailing_args a (arg # rest) =
     parse_trailing_args (if host_binary a = [] then a\<lparr>host_binary := arg\<rparr> else a\<lparr>host_args := host_args a @ [arg]\<rparr>) rest"

lemma parse_value_opt_shorter: "parse_value_opt s l arg rest = Some (v, r) \<Longrightarrow> length r < length rest"
  by (auto simp: parse_value_opt_def split: if_splits list.splits)

lemma parse_flag_opts_shorter: "parse_flag_opts a arg rest = Some (a', r) \<Longrightarrow> length r \<le> length rest"
  by (auto simp: parse_flag_opts_def split: option.splits if_splits dest!: parse_value_opt_shorter)

lemma parse_numeric_opts_shorter: "parse_numeric_opts a arg rest = Some (Inr (a', r)) \<Longrightarrow> length r < length rest"
  by (auto simp: parse_numeric_opts_def split: list.splits if_splits sum.splits)

function parse_loop :: "program_args \<Rightarrow> string list \<Rightarrow> std_exception + program_args" where
  "parse_loop a [] = Inr a"
| "parse_loop a (arg # rest) =
     (if host_binary a \<noteq> [] then parse_loop (a\<lparr>host_args := host_args a @ [arg]\<rparr>) rest
      else if arg = ''-v'' \<or> arg = ''--version'' then parse_loop (a\<lparr>show_version := True\<rparr>) rest
      else if arg = ''-h'' \<or> arg = ''--help'' then parse_loop (a\<lparr>show_help := True\<rparr>) rest
      else case parse_flag_opts a arg rest of
        Some (a', r) \<Rightarrow> parse_loop a' r
      | None \<Rightarrow> case parse_numeric_opts a arg rest of
        Some (Inl e) \<Rightarrow> Inl e
      | Some (Inr (a', r)) \<Rightarrow> parse_loop a' r
      | None \<Rightarrow> if arg = ''--'' then Inr (parse_trailing_args a rest)
          else parse_loop (parse_positional_arg a arg) rest)"
  by pat_completeness auto
termination
  by (relation "measure (length \<circ> snd)")
     (auto dest: parse_flag_opts_shorter parse_numeric_opts_shorter simp: le_imp_less_Suc less_SucI)

definition parse_arguments :: "string list \<Rightarrow> std_exception + program_args" where
  "parse_arguments argv = parse_loop default_args argv"

declare parse_loop.simps(2) [simp del]

section \<open>The host's own arguments\<close>

lemma parse_trailing_host:
  "host_binary a \<noteq> [] \<Longrightarrow> parse_trailing_args a xs = a\<lparr>host_args := host_args a @ xs\<rparr>"
  by (induction xs arbitrary: a) auto

lemma parse_loop_host:
  "host_binary a \<noteq> [] \<Longrightarrow> parse_loop a xs = Inr (a\<lparr>host_args := host_args a @ xs\<rparr>)"
  by (induction xs arbitrary: a) (simp_all add: parse_loop.simps(2))

lemma parse_trailing_append:
  "host_binary (parse_trailing_args a xs) \<noteq> [] \<Longrightarrow>
     parse_trailing_args a (xs @ ys) = (parse_trailing_args a xs)\<lparr>host_args := host_args (parse_trailing_args a xs) @ ys\<rparr>"
  by (induction xs arbitrary: a) (auto simp: parse_trailing_host)

lemma parse_value_opt_append:
  "parse_value_opt s l arg rest = Some (v, r) \<Longrightarrow> parse_value_opt s l arg (rest @ ys) = Some (v, r @ ys)"
  by (auto simp: parse_value_opt_def split: if_splits list.splits)

text \<open>An option that lacks its value is passed over; nothing can follow it.\<close>

lemma parse_value_opt_None:
  "parse_value_opt s l arg rest = None \<Longrightarrow> rest \<noteq> [] \<Longrightarrow> parse_value_opt s l arg (rest @ ys) = None"
  by (auto simp: parse_value_opt_def split: if_splits list.splits)

lemma parse_flag_opts_append:
  "rest \<noteq> [] \<Longrightarrow> parse_flag_opts a arg (rest @ ys) = map_option (\<lambda>(a', r). (a', r @ ys)) (parse_flag_opts a arg rest)"
  by (cases rest) (auto simp: parse_flag_opts_def parse_value_opt_def)

lemma parse_numeric_opts_append:
  "rest \<noteq> [] \<Longrightarrow> parse_numeric_opts a arg (rest @ ys) =
     map_option (map_sum id (\<lambda>(a', r). (a', r @ ys))) (parse_numeric_opts a arg rest)"
  by (cases rest) (auto simp: parse_numeric_opts_def split: sum.split)

lemma no_option_without_dash:
  assumes "arg \<noteq> []" "hd arg \<noteq> CHR ''-''"
  shows "parse_flag_opts a arg rest = None" "parse_numeric_opts a arg rest = None" "arg \<noteq> ''--''"
    "arg \<noteq> ''-v''" "arg \<noteq> ''--version''" "arg \<noteq> ''-h''" "arg \<noteq> ''--help''"
proof -
  obtain c t where arg: "arg = c # t" "c \<noteq> CHR ''-''" using assms by (cases arg) auto
  then show "parse_flag_opts a arg rest = None" "parse_numeric_opts a arg rest = None" "arg \<noteq> ''--''"
    "arg \<noteq> ''-v''" "arg \<noteq> ''--version''" "arg \<noteq> ''-h''" "arg \<noteq> ''--help''"
    by (simp_all add: parse_flag_opts_def parse_value_opt_def parse_numeric_opts_def split: list.split)
qed

lemma parse_loop_positional:
  "arg \<noteq> [] \<Longrightarrow> hd arg \<noteq> CHR ''-'' \<Longrightarrow> host_binary a = [] \<Longrightarrow>
     parse_loop a (arg # xs) = Inr (a\<lparr>host_binary := arg, host_args := host_args a @ xs\<rparr>)"
  by (simp add: parse_loop.simps(2) no_option_without_dash parse_positional_arg_def parse_loop_host)

lemma parse_value_opt_Nil [simp]: "parse_value_opt s l arg [] = None"
  by (simp add: parse_value_opt_def)

lemma parse_flag_opts_host: "parse_flag_opts a arg rest = Some (a', r) \<Longrightarrow> host_binary a' = host_binary a"
  by (auto simp: parse_flag_opts_def split: option.splits if_splits)

lemma parse_flag_opts_Nil:
  "parse_flag_opts a arg [] = Some (a', r) \<Longrightarrow> r = [] \<and> host_binary a' = host_binary a"
  using parse_flag_opts_shorter [of a arg "[]" a' r] parse_flag_opts_host by auto

lemma parse_last:
  assumes "parse_loop a [arg] = Inr a'" "host_binary a = []" "host_binary a' \<noteq> []"
  shows "arg \<noteq> [] \<and> hd arg \<noteq> CHR ''-''"
  using assms
  by (auto simp: parse_loop.simps(2) parse_numeric_opts_def parse_positional_arg_def
      split: if_splits option.splits dest!: parse_flag_opts_Nil)

lemma parse_loop_append:
  assumes "parse_loop a xs = Inr a'" "host_binary a' \<noteq> []"
  shows "parse_loop a (xs @ ys) = Inr (a'\<lparr>host_args := host_args a' @ ys\<rparr>)"
  using assms
proof (induction a xs rule: parse_loop.induct)
  case (1 a)
  then show ?case by (simp add: parse_loop_host)
next
  case (2 a arg rest)
  show ?case
  proof (cases "host_binary a = []")
    case False
    with "2.prems" show ?thesis by (auto simp: parse_loop_host)
  next
    case host: True
    show ?thesis
    proof (cases "rest = []")
      case True
      with "2.prems" host parse_last [of a arg a'] have arg: "arg \<noteq> []" "hd arg \<noteq> CHR ''-''" by simp_all
      with "2.prems" host show ?thesis by (auto simp: parse_loop_positional)
    next
      case False
      note app = parse_flag_opts_append [OF False] parse_numeric_opts_append [OF False]
      show ?thesis
        using 2 host
        by (auto simp: parse_loop.simps(2) app parse_trailing_append split: if_splits option.splits sum.splits)
    qed
  qed
qed

text \<open>
  The host program's own arguments are not interpreted: once a command line names a host program,
  whatever is added to it is handed on verbatim, options of the debugger's own included.
\<close>

theorem args_host_arguments_verbatim:
  assumes "parse_arguments argv = Inr a" and "host_binary a \<noteq> []"
  shows "parse_arguments (argv @ extra) = Inr (a\<lparr>host_args := host_args a @ extra\<rparr>)"
  using assms unfolding parse_arguments_def by (rule parse_loop_append)

theorem args_host_arguments_verbatim_witness:
  "parse_arguments ([''--dap'', ''vadd'', ''4''] @ [''--dap'', ''-v''])
     = Inr (default_args\<lparr>dap_mode := True, host_binary := ''vadd'', host_args := [''4'', ''--dap'', ''-v'']\<rparr>)"
proof -
  have "parse_arguments [''--dap'', ''vadd'', ''4''] = Inr (default_args\<lparr>dap_mode := True, host_binary := ''vadd'', host_args := [''4'']\<rparr>)"
    by (simp add: parse_arguments_def parse_loop.simps(2) parse_flag_opts_def parse_value_opt_def
        parse_positional_arg_def parse_numeric_opts_def default_args_def)
  from args_host_arguments_verbatim [OF this, of "[''--dap'', ''-v'']"] show ?thesis by simp
qed

section \<open>A command line for every set of options\<close>

text \<open>The command line that asks for the given options, in the order the parser tries them.\<close>

definition value_opts :: "string \<Rightarrow> string list \<Rightarrow> string list" where
  "value_opts flag vs = concat (map (\<lambda>v. [flag, v]) vs)"

definition flag_opt :: "string \<Rightarrow> bool \<Rightarrow> string list" where
  "flag_opt flag b = (if b then [flag] else [])"

definition render_arguments :: "program_args \<Rightarrow> string list" where
  "render_arguments a =
     value_opts ''-O'' (one_line_before a) @ value_opts ''-S'' (source_before a) @ value_opts ''-s'' (source_after a)
     @ value_opts ''-o'' (one_line_after a) @ value_opts ''--print'' (print_exprs a) @ [''--backend'', backend_name a]
     @ flag_opt ''-b'' (batch_mode a) @ flag_opt ''--dry-run'' (dry_run a) @ flag_opt ''--show-wg-bounds'' (show_wg_bounds a)
     @ flag_opt ''--track-wg'' (track_wg a) @ flag_opt ''--dap'' (dap_mode a) @ flag_opt ''--inspect-vars'' (inspect_vars a)
     @ flag_opt ''-v'' (show_version a) @ flag_opt ''-h'' (show_help a)
     @ [''--break-at'', to_string (break_at a), ''--break-for'', to_string (break_for a), ''--port'', to_string (dap_port a)]
     @ (if host_binary a = [] then [] else ''--'' # host_binary a # host_args a)"

lemma parse_option_values:
  assumes "host_binary a = []"
  shows "parse_loop a (value_opts ''-O'' vs @ rest) = parse_loop (a\<lparr>one_line_before := one_line_before a @ vs\<rparr>) rest"
    "parse_loop a (value_opts ''-S'' vs @ rest) = parse_loop (a\<lparr>source_before := source_before a @ vs\<rparr>) rest"
    "parse_loop a (value_opts ''-s'' vs @ rest) = parse_loop (a\<lparr>source_after := source_after a @ vs\<rparr>) rest"
    "parse_loop a (value_opts ''-o'' vs @ rest) = parse_loop (a\<lparr>one_line_after := one_line_after a @ vs\<rparr>) rest"
    "parse_loop a (value_opts ''--print'' vs @ rest) = parse_loop (a\<lparr>print_exprs := print_exprs a @ vs\<rparr>) rest"
  using assms
  by (induction vs arbitrary: a)
     (simp_all add: value_opts_def parse_loop.simps(2) parse_flag_opts_def parse_value_opt_def)

lemma parse_option_backend:
  "host_binary a = [] \<Longrightarrow> parse_loop a (''--backend'' # v # rest) = parse_loop (a\<lparr>backend_name := v\<rparr>) rest"
  by (simp add: parse_loop.simps(2) parse_flag_opts_def parse_value_opt_def)

lemma parse_option_flags:
  assumes "host_binary a = []"
  shows "parse_loop a (flag_opt ''-b'' v @ rest) = parse_loop (a\<lparr>batch_mode := batch_mode a \<or> v\<rparr>) rest"
    "parse_loop a (flag_opt ''--dry-run'' v @ rest) = parse_loop (a\<lparr>dry_run := dry_run a \<or> v\<rparr>) rest"
    "parse_loop a (flag_opt ''--show-wg-bounds'' v @ rest) = parse_loop (a\<lparr>show_wg_bounds := show_wg_bounds a \<or> v\<rparr>) rest"
    "parse_loop a (flag_opt ''--track-wg'' v @ rest) = parse_loop (a\<lparr>track_wg := track_wg a \<or> v\<rparr>) rest"
    "parse_loop a (flag_opt ''--dap'' v @ rest) = parse_loop (a\<lparr>dap_mode := dap_mode a \<or> v\<rparr>) rest"
    "parse_loop a (flag_opt ''--inspect-vars'' v @ rest) = parse_loop (a\<lparr>inspect_vars := inspect_vars a \<or> v\<rparr>) rest"
    "parse_loop a (flag_opt ''-v'' v @ rest) = parse_loop (a\<lparr>show_version := show_version a \<or> v\<rparr>) rest"
    "parse_loop a (flag_opt ''-h'' v @ rest) = parse_loop (a\<lparr>show_help := show_help a \<or> v\<rparr>) rest"
  using assms
  by (simp_all add: flag_opt_def parse_loop.simps(2) parse_flag_opts_def parse_value_opt_def)

lemma parse_option_numbers:
  assumes "host_binary a = []"
  shows "parse_loop a (''--break-at'' # to_string (n :: u32) # rest) = parse_loop (a\<lparr>break_at := n\<rparr>) rest"
    "parse_loop a (''--break-for'' # to_string (k :: u64) # rest) = parse_loop (a\<lparr>break_for := k\<rparr>) rest"
    "parse_loop a (''--port'' # to_string (p :: u16) # rest) = parse_loop (a\<lparr>dap_port := p\<rparr>) rest"
  using assms
  by (simp_all add: parse_loop.simps(2) parse_flag_opts_def parse_value_opt_def parse_numeric_opts_def
      stoul_to_string stoul_to_string_32 stoi_to_string_16)

lemma parse_option_host:
  "host_binary a = [] \<Longrightarrow> h \<noteq> [] \<Longrightarrow>
     parse_loop a (''--'' # h # args) = Inr (a\<lparr>host_binary := h, host_args := host_args a @ args\<rparr>)"
  by (simp add: parse_loop.simps(2) parse_flag_opts_def parse_value_opt_def parse_numeric_opts_def parse_trailing_host)

lemma parse_option_end:
  "host_binary a = [] \<Longrightarrow> (h = [] \<longrightarrow> args = []) \<Longrightarrow>
     parse_loop a (if h = [] then [] else ''--'' # h # args) = Inr (if h = [] then a else a\<lparr>host_binary := h, host_args := host_args a @ args\<rparr>)"
  by (simp add: parse_option_host)

lemma args_rendered:
  assumes "host_binary a = [] \<longrightarrow> host_args a = []"
  shows "parse_arguments (render_arguments a) = Inr a"
  using assms
  by (simp add: parse_arguments_def render_arguments_def parse_option_values parse_option_backend
      parse_option_flags parse_option_numbers default_args_def parse_option_end)

text \<open>
  C38.  Every set of options is the meaning of a command line: for any options (a host program named
  before it has arguments) the rendered command line parses back to exactly them.  In particular
  every breakpoint line, count and port in range is read as written.
\<close>

theorem args_roundtrip:
  assumes "host_binary a = [] \<longrightarrow> host_args a = []"
  shows "parse_arguments (render_arguments a) = Inr a"
  using assms by (rule args_rendered)

definition odd_args :: program_args where
  "odd_args = default_args\<lparr>host_binary := ''--dap'', host_args := [[], ''-v''], print_exprs := [''--'', ''a[0]''],
     break_at := 17, dap_port := 65535, batch_mode := True\<rparr>"

theorem args_roundtrip_witness: "parse_arguments (render_arguments odd_args) = Inr odd_args"
  by (rule args_roundtrip) (simp add: odd_args_def)

end
