(* ===== verification/DebugPlugin.thy ===== *)
theory DebugPlugin
  imports LineChannel Types
begin

text \<open>
  \<^verbatim>\<open>ocldbg/backends/oclgrind/plugin/DebugPlugin.{h,cpp}\<close>: the half of the Oclgrind backend that lives
  in the host program.  Oclgrind itself is third-party code: what the plugin asks of it is the record
  \<open>oclgrind\<close> of functions over an unknown simulator state \<open>'sim\<close>, and a work-item is the record of
  the answers it gives.  A handler returns \<open>None\<close> where the code would dereference a null pointer;
  otherwise its reply line (\<open>None\<close> when it sends none), the resume flag, and the new states.
\<close>

section \<open>Oclgrind, as the plugin sees it\<close>

record og_work_item =
  og_index :: size_t                    \<comment> \<open>\<^verbatim>\<open>getGlobalIndex()\<close>\<close>
  og_depth :: size_t                    \<comment> \<open>\<^verbatim>\<open>getCallStack().size()\<close>\<close>
  og_global :: size3
  og_local :: size3
  og_group :: size3
  og_print :: "string \<Rightarrow> string"        \<comment> \<open>what \<^verbatim>\<open>printExpression\<close> writes to the captured stream\<close>

record og_memory =
  is_address_valid :: "size_t \<Rightarrow> size_t \<Rightarrow> bool"
  mem_load :: "size_t \<Rightarrow> size_t \<Rightarrow> u8 list option"

record 'sim oclgrind =
  current_work_item :: "'sim \<Rightarrow> og_work_item option"
  og_global_size :: "'sim \<Rightarrow> size3"
  switch_work_item :: "'sim \<Rightarrow> size3 \<Rightarrow> bool \<times> 'sim"
  global_memory :: "'sim \<Rightarrow> og_memory option"

section \<open>The plugin's state\<close>

datatype run_mode = KRunning | KStepIn | KStepOver

record plugin =
  channel_valid :: bool
  invocation :: bool                    \<comment> \<open>\<^verbatim>\<open>invocation_ != nullptr\<close>\<close>
  breakpoint_lines :: "size_t set"
  breakpoint_ids :: "(size_t, size_t) omap"
  mode :: run_mode
  stepping_index :: size_t
  stepping_depth :: size_t
  last_line :: "size_t \<rightharpoonup> size_t"

definition new_plugin :: plugin where
  "new_plugin = \<lparr>channel_valid = True, invocation = False, breakpoint_lines = {}, breakpoint_ids = [],
     mode = KRunning, stepping_index = 0, stepping_depth = 0, last_line = Map.empty\<rparr>"

type_synonym 'sim handled = "(string option \<times> bool \<times> 'sim \<times> plugin) option"

section \<open>Hexadecimal dump\<close>

definition hex_char :: "nat \<Rightarrow> char" where
  "hex_char d = (if d < 10 then char_of (48 + d) else char_of (87 + d))"

definition hex_byte :: "u8 \<Rightarrow> string" where
  "hex_byte b = [hex_char (unat b div 16), hex_char (unat b mod 16)]"

definition to_hex :: "u8 list \<Rightarrow> string" where
  "to_hex bytes = concat (map hex_byte bytes)"

section \<open>Callbacks of the interpreter\<close>

definition kernelBegin :: "plugin \<Rightarrow> plugin" where
  "kernelBegin p = p\<lparr>invocation := True, last_line := Map.empty\<rparr>"

definition kernelEnd :: "plugin \<Rightarrow> plugin" where
  "kernelEnd p = p\<lparr>invocation := False, last_line := Map.empty\<rparr>"

definition should_halt :: "plugin \<Rightarrow> og_work_item \<Rightarrow> size_t \<Rightarrow> bool" where
  "should_halt p wi line =
     (if last_line p (og_index wi) = Some line then False
      else case mode p of
        KRunning \<Rightarrow> line \<in> breakpoint_lines p
      | KStepIn \<Rightarrow> og_index wi = stepping_index p
      | KStepOver \<Rightarrow> og_index wi = stepping_index p \<and> og_depth wi \<le> stepping_depth p)"

definition stop_event :: "og_work_item \<Rightarrow> size_t \<Rightarrow> string" where
  "stop_event wi line = spaced [kEventStopped, to_string line,
     to_string (dim_x (og_global wi)), to_string (dim_y (og_global wi)), to_string (dim_z (og_global wi)),
     to_string (dim_x (og_local wi)), to_string (dim_y (og_local wi)), to_string (dim_z (og_local wi)),
     to_string (dim_x (og_group wi)), to_string (dim_y (og_group wi)), to_string (dim_z (og_group wi))]"

text \<open>
  \<^verbatim>\<open>instructionExecuted\<close> up to the call of \<^verbatim>\<open>serve\<close>: the event it reports, or nothing when the
  interpreter just goes on.  \<open>line\<close> is \<^verbatim>\<open>line_of(instruction)\<close>.
\<close>

definition instruction_executed :: "og_work_item \<Rightarrow> size_t \<Rightarrow> plugin \<Rightarrow> string option \<times> plugin" where
  "instruction_executed wi line p =
     (if \<not> channel_valid p then (None, p)
      else if line = 0 \<or> \<not> should_halt p wi line then (None, p)
      else (Some (stop_event wi line), p\<lparr>last_line := (last_line p)(og_index wi \<mapsto> line)\<rparr>))"

definition active_work_item :: "'sim oclgrind \<Rightarrow> 'sim \<Rightarrow> plugin \<Rightarrow> og_work_item option" where
  "active_work_item og s p = (if invocation p then current_work_item og s else None)"

section \<open>Commands\<close>

definition err :: "string \<Rightarrow> string" where
  "err reason = kReplyErr @ reason"

definition handle_execution :: "'sim oclgrind \<Rightarrow> string list \<Rightarrow> 'sim \<Rightarrow> plugin \<Rightarrow> 'sim handled" where
  "handle_execution og words s p =
     (if words ! 0 = kCmdContinue then Some (None, True, s, p\<lparr>mode := KRunning\<rparr>)
      else case active_work_item og s p of
        None \<Rightarrow> Some (Some (err '' no work-item is halted''), False, s, p)
      | Some wi \<Rightarrow>
          let over = (length words > 1 \<and> words ! 1 = kStepOver) in
          Some (None, True, s, p\<lparr>mode := if over then KStepOver else KStepIn,
            stepping_index := og_index wi, stepping_depth := og_depth wi\<rparr>))"

definition handle_breakpoint :: "string list \<Rightarrow> 'sim \<Rightarrow> plugin \<Rightarrow> 'sim handled" where
  "handle_breakpoint words s p =
     (if words ! 0 = kCmdBreak then
        if length words < 3 then Some (Some (err '' break needs an id and a line''), False, s, p)
        else let bid = strtoul (words ! 1); line = strtoul (words ! 2) in
          if line = 0 then Some (Some (err '' invalid line''), False, s, p)
          else Some (Some kReplyOk, False, s,
            p\<lparr>breakpoint_lines := insert line (breakpoint_lines p),
              breakpoint_ids := om_insert bid line (breakpoint_ids p)\<rparr>)
      else if length words < 2 then Some (Some (err '' delete needs an id''), False, s, p)
      else let bid = strtoul (words ! 1) in
        case map_of (breakpoint_ids p) bid of
          None \<Rightarrow> Some (Some (err '' unknown breakpoint''), False, s, p)
        | Some line \<Rightarrow>
            let ids = om_erase bid (breakpoint_ids p);
                still_used = (\<exists>e \<in> set ids. snd e = line)
            in Some (Some kReplyOk, False, s,
              p\<lparr>breakpoint_ids := ids,
                breakpoint_lines := (if still_used then breakpoint_lines p else breakpoint_lines p - {line})\<rparr>))"

definition read_expression :: "og_work_item \<Rightarrow> string \<Rightarrow> string" where
  "read_expression wi expr =
     (let value = og_print wi expr in
      if value = [] \<or> value = ''not found'' then []
      else map (\<lambda>c. if c = newline \<or> c = CHR 0x0D then CHR '' '' else c) value)"

definition read_memory :: "'sim oclgrind \<Rightarrow> 'sim \<Rightarrow> size_t \<Rightarrow> size_t \<Rightarrow> string" where
  "read_memory og s address len =
     (case global_memory og s of
        None \<Rightarrow> []
      | Some m \<Rightarrow> if \<not> is_address_valid m address len then []
          else case mem_load m address len of None \<Rightarrow> [] | Some bytes \<Rightarrow> to_hex bytes)"

definition plugin_select :: "'sim oclgrind \<Rightarrow> size3 \<Rightarrow> 'sim \<Rightarrow> plugin \<Rightarrow> bool \<times> 'sim" where
  "plugin_select og target s p =
     (if \<not> invocation p then (False, s)
      else let gs = og_global_size og s in
        if dim_x target \<ge> dim_x gs \<or> dim_y target \<ge> dim_y gs \<or> dim_z target \<ge> dim_z gs then (False, s)
        else switch_work_item og s target)"

definition select_reply :: "og_work_item \<Rightarrow> string" where
  "select_reply wi = spaced [kReplyOk,
     to_string (dim_x (og_local wi)), to_string (dim_y (og_local wi)), to_string (dim_z (og_local wi)),
     to_string (dim_x (og_group wi)), to_string (dim_y (og_group wi)), to_string (dim_z (og_group wi))]"

definition handle_query :: "'sim oclgrind \<Rightarrow> string list \<Rightarrow> 'sim \<Rightarrow> plugin \<Rightarrow> 'sim handled" where
  "handle_query og words s p =
     (let verb = words ! 0 in
      if verb = kCmdSelect \<and> length words > 3 then
        (case plugin_select og (Size3 (strtoul (words ! 1)) (strtoul (words ! 2)) (strtoul (words ! 3))) s p of
           (False, s') \<Rightarrow> Some (Some (err '' work-item state unavailable''), False, s', p)
         | (True, s') \<Rightarrow>
             (case current_work_item og s' of
                None \<Rightarrow> None
              | Some wi \<Rightarrow> Some (Some (select_reply wi), False, s', p)))
      else if verb = kCmdPrint \<and> length words > 1 then
        (case active_work_item og s p of
           None \<Rightarrow> Some (Some (err '' no work-item is halted''), False, s, p)
         | Some wi \<Rightarrow>
             let value = read_expression wi (words ! 1) in
             if value = [] then Some (Some (err '' not in scope''), False, s, p)
             else Some (Some (kReplyValue @ '' '' @ value), False, s, p))
      else if verb = kCmdRead \<and> length words > 2 then
        (let address = strtoul (words ! 1); len = strtoul (words ! 2); hex = read_memory og s address len in
         if hex = [] \<and> len > 0 then Some (Some (err '' invalid address''), False, s, p)
         else Some (Some (kReplyData @ '' '' @ hex), False, s, p))
      else Some (Some (err '' unsupported command''), False, s, p))"

definition handle_command :: "'sim oclgrind \<Rightarrow> string \<Rightarrow> 'sim \<Rightarrow> plugin \<Rightarrow> 'sim handled" where
  "handle_command og command s p =
     (let words = split_words command in
      if words = [] then Some (Some (err '' empty command''), False, s, p)
      else let verb = words ! 0 in
        if verb = kCmdContinue \<or> verb = kCmdStep then handle_execution og words s p
        else if verb = kCmdBreak \<or> verb = kCmdDelete then handle_breakpoint words s p
        else handle_query og words s p)"

text \<open>
  The loop of \<^verbatim>\<open>serve\<close>: the incoming commands, each with whether the reply to it could be sent; the
  result holds the replies sent and the commands not yet read.
\<close>

fun serve :: "'sim oclgrind \<Rightarrow> (string \<times> bool) list \<Rightarrow> 'sim \<Rightarrow> plugin
    \<Rightarrow> (string list \<times> (string \<times> bool) list \<times> 'sim \<times> plugin) option" where
  "serve og [] s p = Some ([], [], s, p\<lparr>channel_valid := False\<rparr>)"
| "serve og ((command, sent) # cs) s p =
     (case handle_command og command s p of
        None \<Rightarrow> None
      | Some (reply, resume, s', p') \<Rightarrow>
          (case reply of
             None \<Rightarrow> if resume then Some ([], cs, s', p') else serve og cs s' p'
           | Some r \<Rightarrow>
               if \<not> sent then Some ([], cs, s', p'\<lparr>channel_valid := False\<rparr>)
               else if resume then Some ([r], cs, s', p')
               else map_option (\<lambda>(rs, rest). (r # rs, rest)) (serve og cs s' p')))"

section \<open>Replies are framed\<close>

lemma newline_notin_words [simp]:
  "newline \<notin> set kEventStopped" "newline \<notin> set kReplyOk" "newline \<notin> set kReplyErr"
  "newline \<notin> set kReplyValue" "newline \<notin> set kReplyData"
  by (simp_all add: protocol_words)

lemma hex_char_not_newline: "d < 16 \<Longrightarrow> hex_char d \<noteq> newline"
proof -
  assume "d < 16"
  then have "(of_char (hex_char d) :: nat) \<noteq> of_char newline" by (simp add: hex_char_def)
  then show ?thesis by auto
qed

lemma newline_notin_hex [simp]: "newline \<notin> set (to_hex bytes)"
proof -
  have "newline \<notin> set (hex_byte b)" for b
    using hex_char_not_newline [of "unat b div 16"] hex_char_not_newline [of "unat b mod 16"] unat_lt8 [of b]
    by (auto simp: hex_byte_def less_mult_imp_div_less)
  then show ?thesis by (auto simp: to_hex_def)
qed

lemma newline_notin_read_memory [simp]: "newline \<notin> set (read_memory og s a l)"
  by (simp add: read_memory_def split: option.split)

lemma newline_notin_read_expression [simp]: "newline \<notin> set (read_expression wi e)"
  by (auto simp: read_expression_def Let_def)

lemma newline_notin_select_reply [simp]: "newline \<notin> set (select_reply wi)"
  unfolding select_reply_def by (rule newline_notin_spaced) auto

lemma newline_notin_stop_event [simp]: "newline \<notin> set (stop_event wi line)"
  unfolding stop_event_def by (rule newline_notin_spaced) auto

definition answered :: "'sim handled \<Rightarrow> bool" where
  "answered h = (case h of None \<Rightarrow> True
     | Some (Some r, resume, s, p) \<Rightarrow> newline \<notin> set r \<and> \<not> resume
     | Some (None, resume, s, p) \<Rightarrow> resume)"

lemma answered_execution: "answered (handle_execution og words s p)"
  by (auto simp: answered_def handle_execution_def err_def split: option.split)

lemma answered_breakpoint: "answered (handle_breakpoint words s p)"
  by (auto simp: answered_def handle_breakpoint_def err_def Let_def split: option.split)

lemma answered_query: "answered (handle_query og words s p)"
  by (auto simp: answered_def handle_query_def err_def Let_def split: option.split prod.split bool.split)

text \<open>
  The protocol stays in step: to every command the plugin either sends exactly one reply, which
  is a single line and leaves the interpreter halted, or sends none and resumes the interpreter.  (No
  newline of an expression's value reaches the wire.)
\<close>

theorem plugin_answers_once:
  "case handle_command og command s p of
     None \<Rightarrow> True
   | Some (Some r, resume, s', p') \<Rightarrow> newline \<notin> set r \<and> \<not> resume
   | Some (None, resume, s', p') \<Rightarrow> resume"
proof -
  have "answered (handle_command og command s p)"
    by (simp add: handle_command_def Let_def answered_execution answered_breakpoint answered_query)
       (simp add: answered_def err_def)
  then show ?thesis by (simp add: answered_def)
qed

section \<open>Breakpoints of the plugin\<close>

text \<open>A line is armed exactly as long as some id refers to it.\<close>

definition armed :: "plugin \<Rightarrow> bool" where
  "armed p \<longleftrightarrow> breakpoint_lines p = ran (map_of (breakpoint_ids p)) \<and> om_ok (breakpoint_ids p)"

lemma lines_armed_new [simp]: "armed new_plugin"
  by (simp add: armed_def new_plugin_def)

lemma ran_map_of: "om_ok m \<Longrightarrow> ran (map_of m) = snd ` set m"
  by (rule ran_distinct) (rule om_ok_distinct)

text \<open>The two breakpoint commands on the words they consist of.\<close>

lemma break_words:
  assumes "strtoul w2 \<noteq> 0"
  shows "handle_breakpoint [kCmdBreak, w1, w2] s p = Some (Some kReplyOk, False, s,
    p\<lparr>breakpoint_lines := insert (strtoul w2) (breakpoint_lines p),
      breakpoint_ids := om_insert (strtoul w1) (strtoul w2) (breakpoint_ids p)\<rparr>)"
  using assms by (simp add: handle_breakpoint_def Let_def)

lemma delete_words:
  assumes "map_of (breakpoint_ids p) (strtoul w) = Some line"
  shows "\<exists>p'. handle_breakpoint [kCmdDelete, w] s p = Some (Some kReplyOk, False, s, p')
    \<and> breakpoint_ids p' = om_erase (strtoul w) (breakpoint_ids p)
    \<and> breakpoint_lines p' = (if line \<in> snd ` set (om_erase (strtoul w) (breakpoint_ids p))
         then breakpoint_lines p else breakpoint_lines p - {line})
    \<and> channel_valid p' = channel_valid p \<and> invocation p' = invocation p \<and> mode p' = mode p
    \<and> last_line p' = last_line p"
  using assms by (auto simp: handle_breakpoint_def Let_def protocol_words image_iff)

lemma armed_break:
  assumes "armed p" "map_of (breakpoint_ids p) bid = None"
  shows "armed (p\<lparr>breakpoint_lines := insert line (breakpoint_lines p),
    breakpoint_ids := om_insert bid line (breakpoint_ids p)\<rparr>)"
  using assms by (auto simp: armed_def map_of_om_insert ran_map_upd)

lemma lines_armed_delete:
  assumes "armed p" "map_of (breakpoint_ids p) bid = Some line"
    and "breakpoint_ids p' = om_erase bid (breakpoint_ids p)"
    and "breakpoint_lines p' = (if line \<in> snd ` set (om_erase bid (breakpoint_ids p))
           then breakpoint_lines p else breakpoint_lines p - {line})"
  shows "armed p'"
proof -
  let ?ids = "breakpoint_ids p" and ?ids' = "om_erase bid (breakpoint_ids p)"
  from assms(1) have ok: "om_ok ?ids" and lines: "breakpoint_lines p = snd ` set ?ids"
    by (simp_all add: armed_def ran_map_of)
  from ok have d: "distinct (map fst ?ids)" by (rule om_ok_distinct)
  from assms(2) have "(bid, line) \<in> set ?ids" by (rule map_of_SomeD)
  with d have "set ?ids = insert (bid, line) (set ?ids')"
    by (auto simp: om_erase_def) (metis eq_key_imp_eq_value)
  then have "breakpoint_lines p = insert line (snd ` set ?ids')" by (simp add: lines)
  with assms(4) have "breakpoint_lines p' = snd ` set ?ids'" by auto
  then show ?thesis
    using om_ok_erase [OF ok, of bid] by (simp add: armed_def assms(3) ran_map_of)
qed

text \<open>
  Several ids may share a line: deleting one leaves the line armed exactly when another id still
  refers to it, touches no other line, and forgets the id.
\<close>

theorem plugin_delete_breakpoint:
  assumes "armed p" and "map_of (breakpoint_ids p) bid = Some line"
  shows "\<exists>p'. handle_command og (spaced [kCmdDelete, to_string bid]) s p = Some (Some kReplyOk, False, s, p')
    \<and> map_of (breakpoint_ids p') = (map_of (breakpoint_ids p))(bid := None)
    \<and> (line \<in> breakpoint_lines p' \<longleftrightarrow> (\<exists>other. other \<noteq> bid \<and> map_of (breakpoint_ids p) other = Some line))
    \<and> (\<forall>l. l \<noteq> line \<longrightarrow> (l \<in> breakpoint_lines p' \<longleftrightarrow> l \<in> breakpoint_lines p))
    \<and> armed p'"
proof -
  have words: "split_words (spaced [kCmdDelete, to_string bid]) = [kCmdDelete, to_string bid]"
    by (rule split_words_spaced) simp
  have id: "strtoul (to_string bid) = bid" by (rule strtoul_to_string)
  obtain p' where p': "handle_breakpoint [kCmdDelete, to_string bid] s p = Some (Some kReplyOk, False, s, p')"
    "breakpoint_ids p' = om_erase bid (breakpoint_ids p)"
    "breakpoint_lines p' = (if line \<in> snd ` set (om_erase bid (breakpoint_ids p))
         then breakpoint_lines p else breakpoint_lines p - {line})"
    using delete_words [of p "to_string bid" line s] assms(2) unfolding id by blast
  have "handle_command og (spaced [kCmdDelete, to_string bid]) s p = handle_breakpoint [kCmdDelete, to_string bid] s p"
    by (simp only: handle_command_def words Let_def) (simp add: protocol_words)
  moreover have armed': "armed p'" using assms p'(2,3) by (rule lines_armed_delete)
  moreover have m: "map_of (breakpoint_ids p') = (map_of (breakpoint_ids p))(bid := None)"
    by (simp add: p'(2) map_of_om_erase)
  moreover have "line \<in> breakpoint_lines p' \<longleftrightarrow> (\<exists>other. other \<noteq> bid \<and> map_of (breakpoint_ids p) other = Some line)"
    using armed' by (auto simp: armed_def ran_def m)
  moreover have "\<forall>l. l \<noteq> line \<longrightarrow> (l \<in> breakpoint_lines p' \<longleftrightarrow> l \<in> breakpoint_lines p)"
    by (simp add: p'(3))
  ultimately show ?thesis using p'(1) by auto
qed

definition two_ids_one_line :: plugin where
  "two_ids_one_line = new_plugin\<lparr>breakpoint_lines := {17}, breakpoint_ids := [(1, 17), (2, 17)]\<rparr>"

theorem plugin_delete_breakpoint_witness:
  "\<exists>p'. handle_command (undefined :: unit oclgrind) (spaced [kCmdDelete, to_string (1 :: u64)]) () two_ids_one_line
         = Some (Some kReplyOk, False, (), p') \<and> 17 \<in> breakpoint_lines p'"
proof -
  have h: "armed two_ids_one_line" "map_of (breakpoint_ids two_ids_one_line) 1 = Some 17"
    by (auto simp: armed_def two_ids_one_line_def new_plugin_def ran_def)
  have other: "\<exists>other. other \<noteq> 1 \<and> map_of (breakpoint_ids two_ids_one_line) other = Some 17"
    by (rule exI [of _ 2]) (simp add: two_ids_one_line_def)
  show ?thesis
    using plugin_delete_breakpoint [OF h, of "undefined :: unit oclgrind" "()"] other by blast
qed

section \<open>When the interpreter halts\<close>

text \<open>
  The plugin halts an instruction only for a reason of the current mode: while running, an armed
  line; while stepping in, the stepped work-item; while stepping over, the stepped work-item no deeper
  than where the step began.  In every mode the line differs from the one the work-item last halted
  at, has debug information, and becomes that work-item's last halted line.
\<close>

theorem plugin_halts_for_a_reason:
  assumes "instruction_executed wi line p = (Some event, p')"
  shows "channel_valid p \<and> line \<noteq> 0 \<and> last_line p (og_index wi) \<noteq> Some line
    \<and> (mode p = KRunning \<longrightarrow> line \<in> breakpoint_lines p)
    \<and> (mode p = KStepIn \<longrightarrow> og_index wi = stepping_index p)
    \<and> (mode p = KStepOver \<longrightarrow> og_index wi = stepping_index p \<and> og_depth wi \<le> stepping_depth p)
    \<and> event = stop_event wi line
    \<and> last_line p' = (last_line p)(og_index wi \<mapsto> line) \<and> breakpoint_ids p' = breakpoint_ids p"
  using assms by (auto simp: instruction_executed_def should_halt_def split: if_splits run_mode.splits)

definition item_at :: "size_t \<Rightarrow> og_work_item" where
  "item_at i = \<lparr>og_index = i, og_depth = 1, og_global = Size3 i 0 0, og_local = Size3 i 0 0, og_group = Size3 0 0 0,
     og_print = (\<lambda>_. ''not found'')\<rparr>"

theorem plugin_halts_for_a_reason_witness:
  "\<exists>p'. instruction_executed (item_at 3) 17 two_ids_one_line = (Some (stop_event (item_at 3) 17), p')
        \<and> last_line p' 3 = Some 17"
proof -
  obtain ev p' where e: "instruction_executed (item_at 3) 17 two_ids_one_line = (Some ev, p')"
    by (simp add: instruction_executed_def should_halt_def two_ids_one_line_def new_plugin_def)
  from plugin_halts_for_a_reason [OF e] show ?thesis using e by (simp add: item_at_def)
qed

end
