(* ===== verification/OclgrindLink.thy ===== *)
theory OclgrindLink
  imports DebugPlugin OclgrindBackend
begin

text \<open>
  The two halves of the Oclgrind backend put together.  The interface \<open>breakpoint_peer\<close> says what the
  debugger relies on at the other end of the channel; the debugger's invariant is proved from it once,
  and the plugin's model is shown to provide it.  The host program is the sequence of interpreter
  callbacks it still has to make; between two halts the plugin sees a prefix of them.
\<close>

section \<open>The host program at the other end\<close>

datatype 'sim sim_event = Kernel_begin 'sim | Kernel_end 'sim | Instruction 'sim og_work_item size_t

record 'sim host =
  h_alive :: bool                        \<comment> \<open>the host process still runs\<close>
  h_sim :: 'sim
  h_plugin :: plugin
  h_events :: "'sim sim_event list"

definition new_host :: "'sim \<Rightarrow> 'sim sim_event list \<Rightarrow> 'sim host" where
  "new_host s evs = \<lparr>h_alive = True, h_sim = s, h_plugin = new_plugin, h_events = evs\<rparr>"

text \<open>The interpreter runs on until the plugin reports a stop or the program ends.\<close>

fun run_events :: "'sim \<Rightarrow> plugin \<Rightarrow> 'sim sim_event list \<Rightarrow> string option \<times> 'sim host" where
  "run_events s p [] = (None, \<lparr>h_alive = False, h_sim = s, h_plugin = p, h_events = []\<rparr>)"
| "run_events s p (Kernel_begin s' # evs) = run_events s' (kernelBegin p) evs"
| "run_events s p (Kernel_end s' # evs) = run_events s' (kernelEnd p) evs"
| "run_events s p (Instruction s' wi line # evs) =
     (case instruction_executed wi line p of
        (Some event, p') \<Rightarrow> (Some event, \<lparr>h_alive = True, h_sim = s', h_plugin = p', h_events = evs\<rparr>)
      | (None, p') \<Rightarrow> run_events s' p' evs)"

definition plugin_peer :: "'sim oclgrind \<Rightarrow> 'sim host peer" where
  "plugin_peer og h command =
     (if \<not> h_alive h then (None, h)
      else case handle_command og command (h_sim h) (h_plugin h) of
        None \<Rightarrow> (None, h\<lparr>h_alive := False\<rparr>)
      | Some (Some reply, resume, s, p) \<Rightarrow> (Some reply, h\<lparr>h_sim := s, h_plugin := p\<rparr>)
      | Some (None, resume, s, p) \<Rightarrow> run_events s p (h_events h))"

section \<open>The commands and replies the two sides exchange\<close>

lemma first_word_spaced: "plain_word w \<Longrightarrow> first_word (spaced (w # ws)) = w"
  by (cases ws) (simp_all add: first_word_def read_word_plain_Nil read_word_plain_space)

lemma parse_numbers_spaced:
  assumes "plain_word w" "vs \<noteq> []"
  shows "parse_numbers (spaced (w # map to_string (vs :: size_t list))) 1 = vs"
proof -
  from assms(2) obtain v vs' where vs: "vs = v # vs'" by (cases vs) auto
  then have "spaced (w # map to_string vs) = w @ CHR '' '' # spaced (map to_string vs)" by simp
  then show ?thesis
    using assms(1) by (simp add: parse_numbers_def read_word_plain_space read_numbers_space read_numbers_spaced)
qed

lemma first_word_plain [simp]: "plain_word w \<Longrightarrow> first_word w = w"
  by (simp add: first_word_def read_word_plain_Nil)

lemma first_word_plain_space: "plain_word w \<Longrightarrow> first_word (w @ CHR '' '' # s) = w"
  by (simp add: first_word_def read_word_plain_space)

lemma first_word_hd_split: "split_words s = w # ws \<Longrightarrow> first_word s = w"
  by (auto simp: split_words.simps [of s] first_word_def split: prod.splits if_splits)

lemma split_break_command [simp]: "split_words (break_command bid line) = [kCmdBreak, to_string bid, to_string line]"
  unfolding break_command_def by (rule split_words_spaced) simp

lemma split_delete_command [simp]: "split_words (delete_command bid) = [kCmdDelete, to_string bid]"
  unfolding delete_command_def by (rule split_words_spaced) simp

lemma split_select_command [simp]:
  "split_words (select_command g) = [kCmdSelect, to_string (dim_x g), to_string (dim_y g), to_string (dim_z g)]"
  unfolding select_command_def by (rule split_words_spaced) simp

lemma split_read_command [simp]: "split_words (read_command a l) = [kCmdRead, to_string a, to_string l]"
  unfolding read_command_def by (rule split_words_spaced) simp

lemma split_continue [simp]: "split_words kCmdContinue = [kCmdContinue]"
  by (simp add: split_words_last)

lemma split_step_over [simp]: "split_words step_over_command = [kCmdStep, kStepOver]"
  unfolding step_over_command_def by (rule split_words_spaced) simp

lemma split_step_in [simp]: "split_words step_in_command = [kCmdStep, kStepIn]"
  unfolding step_in_command_def by (rule split_words_spaced) simp

lemma first_word_commands [simp]:
  "first_word (break_command bid line) = kCmdBreak" "first_word (delete_command bid) = kCmdDelete"
  "first_word (select_command g) = kCmdSelect" "first_word (read_command a l) = kCmdRead"
  "first_word step_over_command = kCmdStep" "first_word step_in_command = kCmdStep"
  "first_word (kCmdPrint @ CHR '' '' # e) = kCmdPrint"
  by (simp_all add: break_command_def delete_command_def select_command_def read_command_def
      step_over_command_def step_in_command_def first_word_plain_space)

lemma first_word_replies [simp]:
  "first_word (select_reply wi) = kReplyOk" "first_word (stop_event wi line) = kEventStopped"
  by (simp_all add: select_reply_def stop_event_def first_word_plain_space)

lemma parse_select_reply [simp]:
  "parse_numbers (select_reply wi) (Suc 0) = [dim_x (og_local wi), dim_y (og_local wi), dim_z (og_local wi),
     dim_x (og_group wi), dim_y (og_group wi), dim_z (og_group wi)]"
  using parse_numbers_spaced [of kReplyOk "[dim_x (og_local wi), dim_y (og_local wi), dim_z (og_local wi),
     dim_x (og_group wi), dim_y (og_group wi), dim_z (og_group wi)]"]
  by (simp add: select_reply_def)

lemma parse_stop_event [simp]:
  "parse_numbers (stop_event wi line) (Suc 0) = [line, dim_x (og_global wi), dim_y (og_global wi), dim_z (og_global wi),
     dim_x (og_local wi), dim_y (og_local wi), dim_z (og_local wi),
     dim_x (og_group wi), dim_y (og_group wi), dim_z (og_group wi)]"
  using parse_numbers_spaced [of kEventStopped "[line, dim_x (og_global wi), dim_y (og_global wi), dim_z (og_global wi),
     dim_x (og_local wi), dim_y (og_local wi), dim_z (og_local wi),
     dim_x (og_group wi), dim_y (og_group wi), dim_z (og_group wi)]"]
  by (simp add: stop_event_def)

lemma command_words_distinct [simp]:
  "kCmdBreak \<noteq> kCmdDelete" "kCmdDelete \<noteq> kCmdBreak" "kCmdBreak \<noteq> kCmdContinue" "kCmdBreak \<noteq> kCmdStep"
  "kCmdDelete \<noteq> kCmdContinue" "kCmdDelete \<noteq> kCmdStep" "kCmdSelect \<noteq> kCmdContinue" "kCmdSelect \<noteq> kCmdStep"
  "kCmdSelect \<noteq> kCmdBreak" "kCmdSelect \<noteq> kCmdDelete" "kCmdRead \<noteq> kCmdContinue" "kCmdRead \<noteq> kCmdStep"
  "kCmdRead \<noteq> kCmdBreak" "kCmdRead \<noteq> kCmdDelete" "kCmdRead \<noteq> kCmdSelect" "kCmdRead \<noteq> kCmdPrint"
  "kCmdContinue \<noteq> kCmdBreak" "kCmdContinue \<noteq> kCmdDelete" "kCmdStep \<noteq> kCmdBreak" "kCmdStep \<noteq> kCmdDelete"
  "kCmdPrint \<noteq> kCmdBreak" "kCmdPrint \<noteq> kCmdDelete" "kStepIn \<noteq> kStepOver" "kCmdStep \<noteq> kCmdContinue"
  "kCmdPrint \<noteq> kCmdContinue" "kCmdPrint \<noteq> kCmdStep" "kCmdPrint \<noteq> kCmdSelect"
  by (simp_all add: protocol_words)

section \<open>What the debugger relies on\<close>

text \<open>
  \<open>alive\<close>: the peer still answers; \<open>bps\<close>: the breakpoint table at the other end, id to line; \<open>sound\<close>: the
  peer's own invariant.  A dead peer stays dead, the two breakpoint commands are acknowledged and
  update the table, and no other command changes it.
\<close>

locale breakpoint_peer =
  fixes peer :: "'p peer"
    and alive :: "'p \<Rightarrow> bool"
    and bps :: "'p \<Rightarrow> size_t \<Rightarrow> size_t option"
    and sound :: "'p \<Rightarrow> bool"
  assumes dead: "peer p cmd = (reply, p') \<Longrightarrow> alive p' \<Longrightarrow> alive p"
    and break_ok: "alive p \<Longrightarrow> sound p \<Longrightarrow> bps p bid = None \<Longrightarrow> line \<noteq> 0 \<Longrightarrow>
      \<exists>p'. peer p (break_command bid line) = (Some kReplyOk, p') \<and> alive p' \<and> sound p'
           \<and> bps p' = (bps p)(bid \<mapsto> ucast line)"
    and delete_ok: "alive p \<Longrightarrow> sound p \<Longrightarrow> bps p bid = Some l \<Longrightarrow>
      \<exists>p'. peer p (delete_command bid) = (Some kReplyOk, p') \<and> alive p' \<and> sound p'
           \<and> bps p' = (bps p)(bid := None)"
    and other: "peer p cmd = (reply, p') \<Longrightarrow> alive p' \<Longrightarrow> sound p \<Longrightarrow>
      first_word cmd \<noteq> kCmdBreak \<Longrightarrow> first_word cmd \<noteq> kCmdDelete \<Longrightarrow> sound p' \<and> bps p' = bps p"

text \<open>The backend's own table: ids below the next one, in order, no line 0.\<close>

definition ids_ok :: "og_backend \<Rightarrow> bool" where
  "ids_ok b \<longleftrightarrow> om_ok (ob_breakpoints b) \<and> (\<forall>e \<in> set (ob_breakpoints b). fst e < ob_next_breakpoint_id b \<and> snd e \<noteq> 0)"

definition backend_bps :: "og_backend \<Rightarrow> size_t \<Rightarrow> size_t option" where
  "backend_bps b bid = map_option ucast (map_of (ob_breakpoints b) bid)"

text \<open>The operations a front end performs on a launched backend.\<close>

datatype og_op = SetBreakpoint source_location | RemoveBreakpoint u64 | Resume
  | StepOver "unit ocl_work_item" | StepIn "unit ocl_work_item" | SelectWorkItem size3
  | ReadMemory u64 size_t | Evaluate var_info

fun run_op :: "'p peer \<Rightarrow> og_op \<Rightarrow> 'p \<Rightarrow> og_backend \<Rightarrow> 'p \<times> og_backend" where
  "run_op peer (SetBreakpoint loc) p b = snd (og_set_breakpoint peer loc p b)"
| "run_op peer (RemoveBreakpoint bid) p b = og_remove_breakpoint peer bid p b"
| "run_op peer Resume p b = (case og_resume peer p b of (p', b', _) \<Rightarrow> (p', b'))"
| "run_op peer (StepOver wi) p b = (case og_step_over peer wi p b of (p', b', _) \<Rightarrow> (p', b'))"
| "run_op peer (StepIn wi) p b = (case og_step_in peer wi p b of (p', b', _) \<Rightarrow> (p', b'))"
| "run_op peer (SelectWorkItem gid) p b = snd (og_select_work_item peer gid p b)"
| "run_op peer (ReadMemory a l) p b = (snd (read_global_memory peer a l p b), b)"
| "run_op peer (Evaluate var) p b = (snd (og_evaluate peer (ob_channel b) var p), b)"

fun run_ops :: "'p peer \<Rightarrow> og_op list \<Rightarrow> 'p \<Rightarrow> og_backend \<Rightarrow> 'p \<times> og_backend" where
  "run_ops peer [] p b = (p, b)"
| "run_ops peer (x # xs) p b = (case run_op peer x p b of (p', b') \<Rightarrow> run_ops peer xs p' b')"

text \<open>How the backend's own tables evolve, whatever the peer answers.\<close>

lemma resume_with_frame:
  "resume_with peer cmd p b = (p', b', ctx) \<Longrightarrow>
     ob_breakpoints b' = ob_breakpoints b \<and> ob_next_breakpoint_id b' = ob_next_breakpoint_id b"
  by (auto simp: resume_with_def Let_def split: if_splits option.splits prod.splits)

lemma og_select_frame:
  "og_select_work_item peer gid p b = (wi, p', b') \<Longrightarrow>
     ob_breakpoints b' = ob_breakpoints b \<and> ob_next_breakpoint_id b' = ob_next_breakpoint_id b
     \<and> ob_halted b' = ob_halted b \<and> ob_channel b' = ob_channel b"
  by (auto simp: og_select_work_item_def Let_def split: if_splits option.splits prod.splits)

lemma og_step_frame:
  "og_step peer cmd wi p b = (p', b', ctx) \<Longrightarrow>
     ob_breakpoints b' = ob_breakpoints b \<and> ob_next_breakpoint_id b' = ob_next_breakpoint_id b"
  by (auto simp: og_step_def split: option.splits prod.splits dest: og_select_frame; drule og_select_frame;
      drule resume_with_frame; simp)

lemma word_lt_plus_1: "(k :: u64) < n \<Longrightarrow> unat n + 1 < 2 ^ 64 \<Longrightarrow> k < n + 1 \<and> n < n + 1"
  by (auto simp: word_less_nat_alt unat_plus_no_wrap)

lemma set_om_insert_subset: "set (om_insert k v m) \<subseteq> insert (k, v) (set m)"
  by (induction k v m rule: om_insert.induct) auto

lemma set_om_erase_subset: "set (om_erase k m) \<subseteq> set m"
  by (auto simp: om_erase_def)

lemma backend_bps_insert:
  "backend_bps (b\<lparr>ob_next_breakpoint_id := n, ob_breakpoints := om_insert k v (ob_breakpoints b)\<rparr>)
     = (backend_bps b)(k \<mapsto> ucast v)"
  by (auto simp: backend_bps_def map_of_om_insert fun_eq_iff)

lemma backend_bps_erase:
  "backend_bps (b\<lparr>ob_breakpoints := om_erase k (ob_breakpoints b)\<rparr>) = (backend_bps b)(k := None)"
  by (auto simp: backend_bps_def map_of_om_erase fun_eq_iff)

lemma backend_bps_fresh: "ids_ok b \<Longrightarrow> backend_bps b (ob_next_breakpoint_id b) = None"
  by (auto simp: ids_ok_def backend_bps_def map_of_eq_None_iff)

lemma backend_bps_cong:
  "ob_breakpoints b' = ob_breakpoints b \<Longrightarrow> backend_bps b' = backend_bps b"
  by (simp add: backend_bps_def fun_eq_iff)

lemma ids_ok_cong:
  "ob_breakpoints b' = ob_breakpoints b \<Longrightarrow> ob_next_breakpoint_id b' = ob_next_breakpoint_id b \<Longrightarrow> ids_ok b' = ids_ok b"
  by (simp add: ids_ok_def)

lemma ids_ok_insert:
  assumes ok: "ids_ok b" and line: "line \<noteq> 0" and n: "unat (ob_next_breakpoint_id b) + 1 < 2 ^ 64"
  shows "ids_ok (b\<lparr>ob_next_breakpoint_id := ob_next_breakpoint_id b + 1,
    ob_breakpoints := om_insert (ob_next_breakpoint_id b) line (ob_breakpoints b)\<rparr>)"
proof -
  let ?n = "ob_next_breakpoint_id b"
  have lt: "?n < ?n + 1" using n by (simp add: word_less_nat_alt unat_plus_no_wrap)
  have "fst e < ?n + 1 \<and> snd e \<noteq> 0" if "e \<in> set (om_insert ?n line (ob_breakpoints b))" for e
  proof -
    from subsetD [OF set_om_insert_subset that] consider "e = (?n, line)" | "e \<in> set (ob_breakpoints b)" by auto
    then show ?thesis
    proof cases
      case 1
      with line lt show ?thesis by simp
    next
      case 2
      with ok have "fst e < ?n" "snd e \<noteq> 0" unfolding ids_ok_def by blast+
      then show ?thesis using order.strict_trans [OF _ lt] by blast
    qed
  qed
  moreover from ok have "om_ok (om_insert ?n line (ob_breakpoints b))" by (simp add: ids_ok_def)
  ultimately show ?thesis by (simp add: ids_ok_def)
qed

lemma ids_ok_erase:
  "ids_ok b \<Longrightarrow> ids_ok (b\<lparr>ob_breakpoints := om_erase k (ob_breakpoints b)\<rparr>)"
  using set_om_erase_subset [of k "ob_breakpoints b"] by (fastforce simp: ids_ok_def)

lemma og_set_ids_ok:
  assumes "og_set_breakpoint peer loc p b = (i, p', b')" "ids_ok b" "unat (ob_next_breakpoint_id b) + 1 < 2 ^ 64"
  shows "ids_ok b' \<and> unat (ob_next_breakpoint_id b') \<le> unat (ob_next_breakpoint_id b) + 1"
  using assms ids_ok_insert [OF assms(2) _ assms(3), of "loc_line loc"]
    ids_ok_erase [OF ids_ok_insert [OF assms(2) _ assms(3), of "loc_line loc"], of "ob_next_breakpoint_id b"]
  by (auto simp: og_set_breakpoint_def Let_def unat_plus_no_wrap split: if_splits option.splits prod.splits)

lemma og_remove_ids_ok:
  assumes "og_remove_breakpoint peer bid p b = (p', b')" "ids_ok b"
  shows "ids_ok b' \<and> ob_next_breakpoint_id b' = ob_next_breakpoint_id b"
  using assms ids_ok_erase [OF assms(2), of bid]
  by (auto simp: og_remove_breakpoint_def Let_def split: if_splits)

lemma run_op_frame:
  assumes "run_op peer x p b = (p', b')" "\<forall>loc. x \<noteq> SetBreakpoint loc" "\<forall>bid. x \<noteq> RemoveBreakpoint bid"
  shows "ob_breakpoints b' = ob_breakpoints b \<and> ob_next_breakpoint_id b' = ob_next_breakpoint_id b"
proof (cases x)
  case (SelectWorkItem gid)
  with assms(1) show ?thesis
    by (cases "og_select_work_item peer gid p b") (auto dest: og_select_frame)
next
  case Resume
  with assms(1) show ?thesis
    by (cases "og_resume peer p b") (auto simp: og_resume_def dest: resume_with_frame)
next
  case (StepOver wi)
  with assms(1) show ?thesis
    by (cases "og_step_over peer wi p b") (auto simp: og_step_over_def dest: og_step_frame)
next
  case (StepIn wi)
  with assms(1) show ?thesis
    by (cases "og_step_in peer wi p b") (auto simp: og_step_in_def dest: og_step_frame)
qed (use assms in auto)

lemma run_op_ids_ok:
  assumes "run_op peer x p b = (p', b')" "ids_ok b" "unat (ob_next_breakpoint_id b) + 1 < 2 ^ 64"
  shows "ids_ok b' \<and> unat (ob_next_breakpoint_id b') \<le> unat (ob_next_breakpoint_id b) + 1"
proof -
  consider loc where "x = SetBreakpoint loc" | bid where "x = RemoveBreakpoint bid"
    | "\<forall>loc. x \<noteq> SetBreakpoint loc" "\<forall>bid. x \<noteq> RemoveBreakpoint bid" by blast
  then show ?thesis
  proof cases
    case 1
    with assms(1) have "og_set_breakpoint peer loc p b = (fst (og_set_breakpoint peer loc p b), p', b')"
      by (metis prod.collapse run_op.simps(1))
    then show ?thesis using assms(2,3) by (rule og_set_ids_ok)
  next
    case 2
    with assms og_remove_ids_ok [of peer bid p b p' b'] show ?thesis by simp
  next
    case 3
    with run_op_frame [OF assms(1)] assms(2) ids_ok_cong [of b' b] show ?thesis by simp
  qed
qed

section \<open>The debugger's invariant, for every such peer\<close>

definition synced :: "('p \<Rightarrow> bool) \<Rightarrow> ('p \<Rightarrow> size_t \<Rightarrow> size_t option) \<Rightarrow> ('p \<Rightarrow> bool) \<Rightarrow> 'p \<Rightarrow> og_backend \<Rightarrow> bool" where
  "synced alive bps sound p b \<longleftrightarrow>
     (ob_halted b \<longrightarrow> ob_channel b) \<and> (ob_halted b \<and> alive p \<longrightarrow> sound p \<and> bps p = backend_bps b)"

context breakpoint_peer
begin

lemma synced_other:
  assumes "synced alive bps sound p b" "peer p cmd = (reply, p')" "ob_halted b"
    "first_word cmd \<noteq> kCmdBreak" "first_word cmd \<noteq> kCmdDelete" "ob_breakpoints b' = ob_breakpoints b"
    "ob_channel b'"
  shows "synced alive bps sound p' b'"
  using assms other [OF assms(2)] dead [OF assms(2)] backend_bps_cong [OF assms(6)]
  by (auto simp: synced_def)

lemma synced_not_halted: "\<not> ob_halted b \<Longrightarrow> synced alive bps sound p b"
  by (simp add: synced_def)

lemma synced_set:
  assumes "synced alive bps sound p b" "ids_ok b" "og_set_breakpoint peer loc p b = (i, p', b')"
  shows "synced alive bps sound p' b'"
proof (cases "ob_halted b \<and> loc_line loc \<noteq> 0")
  case False
  with assms show ?thesis by (auto simp: og_set_breakpoint_def Let_def synced_def split: if_splits)
next
  case True
  let ?bid = "ob_next_breakpoint_id b"
  let ?b1 = "b\<lparr>ob_next_breakpoint_id := ?bid + 1, ob_breakpoints := om_insert ?bid (loc_line loc) (ob_breakpoints b)\<rparr>"
  obtain reply q where r: "peer p (break_command ?bid (loc_line loc)) = (reply, q)" by fastforce
  from True assms(1) have ch: "ob_channel b" by (simp add: synced_def)
  show ?thesis
  proof (cases "alive p")
    case alive: True
    with True assms(1) have "sound p" "bps p = backend_bps b" by (auto simp: synced_def)
    with break_ok [OF alive, of ?bid "loc_line loc"] backend_bps_fresh [OF assms(2)] True r
    have q: "reply = Some kReplyOk" "sound q" "bps q = backend_bps ?b1"
      by (auto simp: backend_bps_insert)
    with True ch r assms(3) have "p' = q" "b' = ?b1"
      by (auto simp: og_set_breakpoint_def Let_def request_def)
    with q True ch show ?thesis by (simp add: synced_def)
  next
    case False
    with dead [OF r] have "\<not> alive q" by blast
    moreover from True ch r assms(3) have "p' = q" "ob_channel b'"
      by (auto simp: og_set_breakpoint_def Let_def request_def split: option.splits if_splits)
    ultimately show ?thesis by (simp add: synced_def)
  qed
qed

lemma synced_remove:
  assumes "synced alive bps sound p b" "og_remove_breakpoint peer bid p b = (p', b')"
  shows "synced alive bps sound p' b'"
proof (cases "ob_halted b \<and> map_of (ob_breakpoints b) bid \<noteq> None")
  case False
  with assms show ?thesis by (auto simp: og_remove_breakpoint_def Let_def synced_def split: if_splits)
next
  case True
  then obtain line where line: "map_of (ob_breakpoints b) bid = Some line" by blast
  let ?b1 = "b\<lparr>ob_breakpoints := om_erase bid (ob_breakpoints b)\<rparr>"
  obtain reply q where r: "peer p (delete_command bid) = (reply, q)" by fastforce
  from True assms(1) have ch: "ob_channel b" by (simp add: synced_def)
  from True ch r assms(2) have pq: "p' = q" "b' = ?b1"
    by (auto simp: og_remove_breakpoint_def Let_def request_def)
  show ?thesis
  proof (cases "alive p")
    case alive: True
    with True assms(1) have "sound p" "bps p = backend_bps b" by (auto simp: synced_def)
    with delete_ok [OF alive, of bid "ucast line"] line r have "sound q" "bps q = backend_bps ?b1"
      by (auto simp: backend_bps_erase) (auto simp: backend_bps_def)
    with pq ch show ?thesis by (simp add: synced_def)
  next
    case False
    with dead [OF r] have "\<not> alive q" by blast
    with pq ch show ?thesis by (simp add: synced_def)
  qed
qed

lemma synced_select:
  assumes "synced alive bps sound p b" "og_select_work_item peer gid p b = (wi, p', b')"
  shows "synced alive bps sound p' b'"
proof (cases "ob_halted b")
  case True
  with assms(1) have ch: "ob_channel b" by (simp add: synced_def)
  obtain reply q where r: "peer p (select_command gid) = (reply, q)" by fastforce
  from True ch r assms(2) have "p' = q"
    by (auto simp: og_select_work_item_def request_def Let_def split: option.splits if_splits)
  with synced_other [OF assms(1) r True] og_select_frame [OF assms(2)] ch show ?thesis
    by (simp del: split_paired_All)
qed (use assms in \<open>simp add: og_select_work_item_def\<close>)

lemma synced_resume:
  assumes "synced alive bps sound p b" "resume_with peer cmd p b = (p', b', ctx)"
    "first_word cmd \<noteq> kCmdBreak" "first_word cmd \<noteq> kCmdDelete"
  shows "synced alive bps sound p' b'"
proof (cases "ob_halted b' \<and> ob_halted b")
  case True
  obtain reply q where r: "peer p cmd = (reply, q)" by fastforce
  from True r assms(2) have "p' = q" "ob_channel b'"
    by (auto simp: resume_with_def Let_def split: option.splits if_splits)
  with synced_other [OF assms(1) r _ assms(3,4)] resume_with_frame [OF assms(2)] True show ?thesis by simp
next
  case False
  with assms(1,2) show ?thesis
    by (cases "ob_halted b") (auto simp: resume_with_def synced_not_halted)
qed

lemma synced_step:
  assumes "synced alive bps sound p b" "og_step peer cmd wi p b = (p', b', ctx)"
    "first_word cmd \<noteq> kCmdBreak" "first_word cmd \<noteq> kCmdDelete"
  shows "synced alive bps sound p' b'"
proof -
  obtain sel q bq where s: "og_select_work_item peer (global_id wi) p b = (sel, q, bq)" by (metis prod_cases3)
  from synced_select [OF assms(1) s] have "synced alive bps sound q bq" .
  with s assms(2) synced_resume [OF _ _ assms(3,4)] show ?thesis
    by (auto simp: og_step_def split: option.splits)
qed

lemma synced_read:
  assumes "synced alive bps sound p b" and "read_global_memory peer a l p b = (bytes, p')"
  shows "synced alive bps sound p' b"
proof -
  obtain reply q where r: "peer p (read_command a l) = (reply, q)" by fastforce
  show ?thesis
  proof (cases "ob_halted b \<and> l \<noteq> 0")
    case True
    with assms(1) have ch: "ob_channel b" by (simp add: synced_def)
    with True r assms(2) have "p' = q"
      by (auto simp: read_global_memory_def request_def Let_def split: option.splits prod.splits if_splits)
    with synced_other [OF assms(1) r] True ch show ?thesis by simp
  next
    case False
    with assms show ?thesis by (auto simp: read_global_memory_def)
  qed
qed

lemma synced_evaluate:
  assumes "synced alive bps sound p b" and "og_evaluate peer (ob_channel b) var p = (v, p')"
  shows "synced alive bps sound p' b"
proof -
  obtain reply q where r: "peer p (kCmdPrint @ CHR '' '' # vi_name var) = (reply, q)" by fastforce
  have pq: "p' = p \<or> p' = q" using r assms(2) by (auto simp: og_evaluate_def split: option.splits if_splits)
  show ?thesis
  proof (cases "ob_halted b")
    case True
    with assms(1) have "ob_channel b" by (simp add: synced_def)
    with pq synced_other [OF assms(1) r True] assms(1) show ?thesis by auto
  next
    case False
    with pq show ?thesis by (simp add: synced_not_halted)
  qed
qed

lemma synced_op:
  assumes "synced alive bps sound p b" "ids_ok b" "run_op peer x p b = (p', b')"
  shows "synced alive bps sound p' b'"
proof (cases x)
  case (SetBreakpoint loc)
  with assms(3) have "og_set_breakpoint peer loc p b = (fst (og_set_breakpoint peer loc p b), p', b')"
    by (metis prod.collapse run_op.simps(1))
  with assms(1,2) show ?thesis by (rule synced_set)
next
  case (RemoveBreakpoint bid)
  with assms synced_remove show ?thesis by simp
next
  case Resume
  with assms synced_resume [OF assms(1), of kCmdContinue] show ?thesis
    by (cases "og_resume peer p b") (simp add: og_resume_def)
next
  case (StepOver wi)
  with assms synced_step [OF assms(1), of step_over_command wi] show ?thesis
    by (cases "og_step_over peer wi p b") (simp add: og_step_over_def)
next
  case (StepIn wi)
  with assms synced_step [OF assms(1), of step_in_command wi] show ?thesis
    by (cases "og_step_in peer wi p b") (simp add: og_step_in_def)
next
  case (SelectWorkItem gid)
  with assms synced_select [OF assms(1), of gid] show ?thesis
    by (cases "og_select_work_item peer gid p b") simp
next
  case (ReadMemory a l)
  with assms(3) have "read_global_memory peer a l p b = (fst (read_global_memory peer a l p b), p')" "b' = b" by auto
  with synced_read [OF assms(1)] show ?thesis by simp
next
  case (Evaluate var)
  with assms(3) have "og_evaluate peer (ob_channel b) var p = (fst (og_evaluate peer (ob_channel b) var p), p')" "b' = b" by auto
  with synced_evaluate [OF assms(1)] show ?thesis by simp
qed

lemma synced_ops:
  assumes "synced alive bps sound p b" "ids_ok b" "unat (ob_next_breakpoint_id b) + length xs < 2 ^ 64"
    "run_ops peer xs p b = (p', b')"
  shows "synced alive bps sound p' b' \<and> ids_ok b'"
  using assms
proof (induction xs arbitrary: p b)
  case (Cons x xs)
  obtain q c where x: "run_op peer x p b = (q, c)" by fastforce
  have n: "unat (ob_next_breakpoint_id b) + 1 < 2 ^ 64" using Cons.prems(3) by simp
  have c: "ids_ok c" "unat (ob_next_breakpoint_id c) \<le> unat (ob_next_breakpoint_id b) + 1"
    using run_op_ids_ok [OF x Cons.prems(2) n] by auto
  have "unat (ob_next_breakpoint_id c) + length xs < 2 ^ 64" using c(2) Cons.prems(3) by simp
  with Cons.IH [OF synced_op [OF Cons.prems(1,2) x] c(1)] Cons.prems(4) x show ?case by simp
qed simp

lemma send_breakpoints_table:
  assumes "alive p" "sound p" "ob_channel b" "distinct (map fst m)" "\<forall>e \<in> set m. snd e \<noteq> 0"
    "\<forall>e \<in> set m. bps p (fst e) = None"
  shows "sound (send_breakpoints peer p b m)
    \<and> bps (send_breakpoints peer p b m) = bps p ++ (\<lambda>k. map_option ucast (map_of m k))"
  using assms
proof (induction m arbitrary: p)
  case Nil
  then show ?case by (simp add: map_add_def fun_eq_iff)
next
  case (Cons e m)
  obtain bid line where e: "e = (bid, line)" by fastforce
  with Cons.prems break_ok [of p bid line] obtain q where q:
    "peer p (break_command bid line) = (Some kReplyOk, q)" "alive q" "sound q" "bps q = (bps p)(bid \<mapsto> ucast line)"
    by auto
  have "\<forall>e \<in> set m. bps q (fst e) = None" using Cons.prems(4,6) q(4) e by force
  with Cons.IH [OF q(2,3) Cons.prems(3)] Cons.prems(4,5) e q(1,4) show ?case
    by (auto simp: request_def Cons.prems(3) map_add_def fun_eq_iff map_of_eq_None_iff split: option.split)
qed

lemma synced_launch:
  assumes "og_launch peer env p b = (True, p', b')" "ids_ok b" "alive p" "sound p" "bps p = Map.empty"
  shows "synced alive bps sound p' b' \<and> ids_ok b' \<and> ob_halted b'
    \<and> ob_breakpoints b' = ob_breakpoints b \<and> ob_next_breakpoint_id b' = ob_next_breakpoint_id b"
proof -
  from assms(1) have b': "ob_channel b'" "ob_halted b'" "ob_breakpoints b' = ob_breakpoints b"
    "ob_next_breakpoint_id b' = ob_next_breakpoint_id b" "p' = send_breakpoints peer p b' (ob_breakpoints b)"
    by (auto simp: og_launch_def Let_def split: if_splits)
  from assms(2) have "distinct (map fst (ob_breakpoints b))" "\<forall>e \<in> set (ob_breakpoints b). snd e \<noteq> 0"
    by (auto simp: ids_ok_def intro: om_ok_distinct)
  from send_breakpoints_table [OF assms(3,4) b'(1) this] assms(5) b'
  show ?thesis by (simp add: synced_def backend_bps_def fun_eq_iff ids_ok_cong [OF b'(3,4)] assms(2))
qed

lemma launched_session_synced:
  assumes "og_launch peer env p b = (True, p', b')" "ids_ok b" "alive p" "sound p" "bps p = Map.empty"
    "unat (ob_next_breakpoint_id b) + length xs < 2 ^ 64" "run_ops peer xs p' b' = (p'', b'')"
  shows "ob_halted b'' \<Longrightarrow> alive p'' \<Longrightarrow> bps p'' = backend_bps b'' \<and> sound p''"
  using synced_launch [OF assms(1-5)] synced_ops [of p' b' xs p'' b''] assms(6,7) by (simp add: synced_def)

end

section \<open>The plugin is such a peer\<close>

lemma run_events_plugin:
  assumes "run_events s p evs = (reply, h)"
  shows "breakpoint_ids (h_plugin h) = breakpoint_ids p \<and> breakpoint_lines (h_plugin h) = breakpoint_lines p"
  using assms
  by (induction s p evs rule: run_events.induct)
     (auto simp: kernelBegin_def kernelEnd_def instruction_executed_def split: if_splits option.splits prod.splits)

lemma handle_execution_frame:
  "handle_execution og words s p = Some (reply, resume, s', p') \<Longrightarrow>
     breakpoint_ids p' = breakpoint_ids p \<and> breakpoint_lines p' = breakpoint_lines p"
  by (auto simp: handle_execution_def Let_def split: if_splits option.splits)

lemma handle_query_frame:
  "handle_query og words s p = Some (reply, resume, s', p') \<Longrightarrow> p' = p"
  by (auto simp: handle_query_def Let_def split: if_splits option.splits prod.splits bool.splits)

lemma first_word_split: "split_words s \<noteq> [] \<Longrightarrow> first_word s = split_words s ! 0"
  by (cases "split_words s") (auto dest: first_word_hd_split)

lemma handle_other_frame:
  assumes "handle_command og cmd s p = Some (reply, resume, s', p')"
    "first_word cmd \<noteq> kCmdBreak" "first_word cmd \<noteq> kCmdDelete"
  shows "breakpoint_ids p' = breakpoint_ids p \<and> breakpoint_lines p' = breakpoint_lines p"
  using assms handle_execution_frame [of og _ s p reply resume s' p'] handle_query_frame [of og _ s p reply resume s' p']
  by (auto simp: handle_command_def Let_def first_word_split split: if_splits)

lemma plugin_other:
  assumes "plugin_peer og h cmd = (reply, h')" "first_word cmd \<noteq> kCmdBreak" "first_word cmd \<noteq> kCmdDelete"
  shows "breakpoint_ids (h_plugin h') = breakpoint_ids (h_plugin h)
    \<and> breakpoint_lines (h_plugin h') = breakpoint_lines (h_plugin h)"
proof (cases "handle_command og cmd (h_sim h) (h_plugin h)")
  case None
  with assms(1) show ?thesis by (auto simp: plugin_peer_def split: if_splits)
next
  case (Some a)
  then obtain r resume s p where a: "handle_command og cmd (h_sim h) (h_plugin h) = Some (r, resume, s, p)"
    by (cases a) auto
  have frame: "breakpoint_ids p = breakpoint_ids (h_plugin h) \<and> breakpoint_lines p = breakpoint_lines (h_plugin h)"
    using a assms(2,3) by (rule handle_other_frame)
  show ?thesis
  proof (cases "h_alive h")
    case alive: True
    show ?thesis
    proof (cases r)
      case None
      with a alive assms(1) have "run_events s p (h_events h) = (reply, h')" by (simp add: plugin_peer_def)
      from run_events_plugin [OF this] frame show ?thesis by simp
    next
      case (Some x)
      with a alive assms(1) have "h' = h\<lparr>h_sim := s, h_plugin := p\<rparr>" by (simp add: plugin_peer_def)
      with frame show ?thesis by simp
    qed
  qed (use assms(1) in \<open>simp add: plugin_peer_def\<close>)
qed

lemma plugin_break:
  assumes "h_alive h" "armed (h_plugin h)" "map_of (breakpoint_ids (h_plugin h)) bid = None" "(line :: u32) \<noteq> 0"
  shows "\<exists>h'. plugin_peer og h (break_command bid line) = (Some kReplyOk, h') \<and> h_alive h' \<and> armed (h_plugin h')
    \<and> map_of (breakpoint_ids (h_plugin h')) = (map_of (breakpoint_ids (h_plugin h)))(bid \<mapsto> ucast line)"
  using assms armed_break [OF assms(2,3), of "ucast line"]
  by (simp add: plugin_peer_def handle_command_def Let_def break_words strtoul_to_string strtoul_to_string_32
      map_of_om_insert)

lemma plugin_delete:
  assumes "h_alive h" "armed (h_plugin h)" "map_of (breakpoint_ids (h_plugin h)) bid = Some line"
  shows "\<exists>h'. plugin_peer og h (delete_command bid) = (Some kReplyOk, h') \<and> h_alive h' \<and> armed (h_plugin h')
    \<and> map_of (breakpoint_ids (h_plugin h')) = (map_of (breakpoint_ids (h_plugin h)))(bid := None)"
proof -
  have id: "strtoul (to_string bid) = bid" by (rule strtoul_to_string)
  obtain p' where p': "handle_breakpoint [kCmdDelete, to_string bid] (h_sim h) (h_plugin h) = Some (Some kReplyOk, False, h_sim h, p')"
    "breakpoint_ids p' = om_erase bid (breakpoint_ids (h_plugin h))"
    "breakpoint_lines p' = (if line \<in> snd ` set (om_erase bid (breakpoint_ids (h_plugin h)))
         then breakpoint_lines (h_plugin h) else breakpoint_lines (h_plugin h) - {line})"
    using delete_words [of "h_plugin h" "to_string bid" line "h_sim h"] assms(3) unfolding id by blast
  with lines_armed_delete [OF assms(2,3) p'(2,3)] assms(1) show ?thesis
    by (simp add: plugin_peer_def handle_command_def Let_def map_of_om_erase)
qed

text \<open>The commands as equations, for concrete sessions.\<close>

lemma plugin_peer_break:
  "h_alive h \<Longrightarrow> line \<noteq> 0 \<Longrightarrow> plugin_peer og h (break_command bid line) = (Some kReplyOk,
     h\<lparr>h_plugin := (h_plugin h)\<lparr>breakpoint_lines := insert (ucast line) (breakpoint_lines (h_plugin h)),
       breakpoint_ids := om_insert bid (ucast line) (breakpoint_ids (h_plugin h))\<rparr>\<rparr>)"
  by (simp add: plugin_peer_def handle_command_def Let_def break_words strtoul_to_string strtoul_to_string_32)

lemma plugin_peer_delete:
  "h_alive h \<Longrightarrow> map_of (breakpoint_ids (h_plugin h)) bid = Some line \<Longrightarrow> plugin_peer og h (delete_command bid) = (Some kReplyOk,
     h\<lparr>h_plugin := (h_plugin h)\<lparr>breakpoint_ids := om_erase bid (breakpoint_ids (h_plugin h)),
       breakpoint_lines := (if \<exists>e \<in> set (om_erase bid (breakpoint_ids (h_plugin h))). snd e = line
         then breakpoint_lines (h_plugin h) else breakpoint_lines (h_plugin h) - {line})\<rparr>\<rparr>)"
  by (simp add: plugin_peer_def handle_command_def Let_def handle_breakpoint_def strtoul_to_string)

lemma plugin_peer_continue:
  "h_alive h \<Longrightarrow> plugin_peer og h kCmdContinue = run_events (h_sim h) (h_plugin h\<lparr>mode := KRunning\<rparr>) (h_events h)"
  by (simp add: plugin_peer_def handle_command_def Let_def handle_execution_def)

interpretation plugin_link: breakpoint_peer "plugin_peer og" h_alive
  "\<lambda>h. map_of (breakpoint_ids (h_plugin h))" "\<lambda>h. armed (h_plugin h)"
proof
  fix p p' :: "'a host" and cmd reply
  show "plugin_peer og p cmd = (reply, p') \<Longrightarrow> h_alive p' \<Longrightarrow> h_alive p"
    by (auto simp: plugin_peer_def split: if_splits)
next
  fix p :: "'a host" and bid :: u64 and line :: u32
  assume "h_alive p" "armed (h_plugin p)" "map_of (breakpoint_ids (h_plugin p)) bid = None" "line \<noteq> 0"
  then show "\<exists>p'. plugin_peer og p (break_command bid line) = (Some kReplyOk, p') \<and> h_alive p' \<and> armed (h_plugin p')
    \<and> map_of (breakpoint_ids (h_plugin p')) = (map_of (breakpoint_ids (h_plugin p)))(bid \<mapsto> ucast line)"
    by (rule plugin_break)
next
  fix p :: "'a host" and bid :: u64 and l
  assume "h_alive p" "armed (h_plugin p)" "map_of (breakpoint_ids (h_plugin p)) bid = Some l"
  then show "\<exists>p'. plugin_peer og p (delete_command bid) = (Some kReplyOk, p') \<and> h_alive p' \<and> armed (h_plugin p')
    \<and> map_of (breakpoint_ids (h_plugin p')) = (map_of (breakpoint_ids (h_plugin p)))(bid := None)"
    by (rule plugin_delete)
next
  fix p p' :: "'a host" and cmd reply
  assume "plugin_peer og p cmd = (reply, p')" "armed (h_plugin p)" "first_word cmd \<noteq> kCmdBreak" "first_word cmd \<noteq> kCmdDelete"
  then show "armed (h_plugin p') \<and> map_of (breakpoint_ids (h_plugin p')) = map_of (breakpoint_ids (h_plugin p))"
    using plugin_other [of og p cmd reply p'] by (simp add: armed_def)
qed

end
