(* ===== verification/OclgrindEndToEnd.thy ===== *)
theory OclgrindEndToEnd
  imports OclgrindLink
begin

text \<open>
  What a front end sees of the Oclgrind backend when the plugin's model is at the other end of the
  channel: the breakpoint tables agree, a resumption reports the first hit, a step stays in its
  work-item, a selection, a memory read and an expression give the simulator's own answers.
\<close>

section \<open>Breakpoint tables\<close>

lemma run_op_idle:
  assumes "run_op peer x p b = (p', b')" "\<not> ob_halted b" "\<not> ob_channel b"
  shows "p' = p \<and> \<not> ob_halted b' \<and> \<not> ob_channel b'"
  using assms
  by (cases x) (auto simp: og_set_breakpoint_def og_remove_breakpoint_def Let_def og_resume_def resume_with_def
      og_step_over_def og_step_in_def og_step_def og_select_work_item_def read_global_memory_def og_evaluate_def
      split: if_splits)

lemma run_ops_idle:
  "run_ops peer xs p b = (p', b') \<Longrightarrow> \<not> ob_halted b \<Longrightarrow> \<not> ob_channel b
     \<Longrightarrow> p' = p \<and> \<not> ob_halted b' \<and> \<not> ob_channel b'"
  by (induction xs arbitrary: p b) (auto split: prod.splits dest: run_op_idle)

lemma run_ops_ids_ok:
  assumes "run_ops peer xs p b = (p', b')" "ids_ok b" "unat (ob_next_breakpoint_id b) + length xs < 2 ^ 64"
  shows "ids_ok b' \<and> unat (ob_next_breakpoint_id b') \<le> unat (ob_next_breakpoint_id b) + length xs"
  using assms
proof (induction xs arbitrary: p b)
  case (Cons x xs)
  obtain q c where x: "run_op peer x p b = (q, c)" by fastforce
  have n: "unat (ob_next_breakpoint_id b) + 1 < 2 ^ 64" using Cons.prems(3) by simp
  have c: "ids_ok c" "unat (ob_next_breakpoint_id c) \<le> unat (ob_next_breakpoint_id b) + 1"
    using run_op_ids_ok [OF x Cons.prems(2) n] by auto
  have "run_ops peer xs q c = (p', b')" using Cons.prems(1) x by simp
  moreover have "unat (ob_next_breakpoint_id c) + length xs < 2 ^ 64" using c(2) Cons.prems(3) by simp
  ultimately show ?case using Cons.IH [OF _ c(1)] c(2) by fastforce
qed simp

lemma ids_ok_new: "ids_ok new_og_backend"
  by (simp add: ids_ok_def new_og_backend_def)

text \<open>
  C3.  Breakpoint tables agree.  Whatever a front end does with a new backend before a successful
  launch (setting and removing breakpoints among it) and after it (setting and removing, resuming,
  stepping, selecting, reading), whenever the backend is halted and the host program alive, the
  plugin knows exactly the backend's breakpoints, by the same ids and lines, and the lines it
  compares instructions with are exactly those of the backend's table.
\<close>

theorem breakpoint_tables_agree:
  assumes "run_ops (plugin_peer og) pre (new_host s evs) new_og_backend = (h0, b0)"
    and "og_launch (plugin_peer og) env h0 b0 = (True, h1, b1)"
    and "run_ops (plugin_peer og) ops h1 b1 = (h2, b2)"
    and "ob_halted b2" and "h_alive h2"
    and "1 + length pre + length ops < 2 ^ 64"
  shows "map_of (breakpoint_ids (h_plugin h2)) = backend_bps b2
    \<and> breakpoint_lines (h_plugin h2) = ran (backend_bps b2)"
proof -
  have h0: "h0 = new_host s evs"
    using run_ops_idle [OF assms(1)] by (simp add: new_og_backend_def)
  have "ids_ok b0 \<and> unat (ob_next_breakpoint_id b0) \<le> 1 + length pre"
    using run_ops_ids_ok [OF assms(1) ids_ok_new] assms(6) by (simp add: new_og_backend_def)
  moreover have "h_alive h0" "armed (h_plugin h0)" "map_of (breakpoint_ids (h_plugin h0)) = Map.empty"
    by (simp_all add: h0 new_host_def new_plugin_def armed_def)
  moreover have "ob_next_breakpoint_id b1 = ob_next_breakpoint_id b0" "ids_ok b1"
    using plugin_link.synced_launch [OF assms(2)] calculation by auto
  ultimately have "map_of (breakpoint_ids (h_plugin h2)) = backend_bps b2 \<and> armed (h_plugin h2)"
    using plugin_link.launched_session_synced [OF assms(2) _ _ _ _ _ assms(3)] assms(4,5,6) by simp
  then show ?thesis by (auto simp: armed_def)
qed

section \<open>Resumption\<close>

text \<open>
  The reference: the first instruction the interpreter comes to on one of the lines \<open>ls\<close>, unless its
  work-item halted at that line last; entering or leaving a kernel forgets where work-items halted.
\<close>

fun first_hit :: "size_t set \<Rightarrow> (size_t \<rightharpoonup> size_t) \<Rightarrow> 'sim sim_event list \<Rightarrow> (og_work_item \<times> size_t \<times> 'sim sim_event list) option" where
  "first_hit ls seen [] = None"
| "first_hit ls seen (Kernel_begin s # evs) = first_hit ls Map.empty evs"
| "first_hit ls seen (Kernel_end s # evs) = first_hit ls Map.empty evs"
| "first_hit ls seen (Instruction s wi line # evs) =
     (if line \<in> ls \<and> line \<noteq> 0 \<and> seen (og_index wi) \<noteq> Some line then Some (wi, line, evs) else first_hit ls seen evs)"

lemma run_events_running:
  assumes "run_events s p evs = (reply, h)" "mode p = KRunning" "channel_valid p"
  shows "case first_hit (breakpoint_lines p) (last_line p) evs of
      None \<Rightarrow> reply = None \<and> \<not> h_alive h
    | Some (wi, line, rest) \<Rightarrow> reply = Some (stop_event wi line) \<and> h_alive h \<and> h_events h = rest
        \<and> channel_valid (h_plugin h) \<and> last_line (h_plugin h) (og_index wi) = Some line"
  using assms
  by (induction s p evs rule: run_events.induct)
     (auto simp: kernelBegin_def kernelEnd_def instruction_executed_def should_halt_def split: if_splits option.splits)

lemma work_item_of_event:
  "resume_with (plugin_peer og) cmd h b = (h', b', ctx) \<Longrightarrow> ob_halted b \<Longrightarrow> ob_channel b
     \<Longrightarrow> plugin_peer og h cmd = (Some (stop_event wi line), h1) \<Longrightarrow>
     h' = h1 \<and> ob_halted b' \<and> ob_channel b' \<and> ob_breakpoints b' = ob_breakpoints b \<and>
     (\<exists>w. ctx = Some \<lparr>stopped = w, visible = [w]\<rparr> \<and> ob_stopped b' = w \<and> loc_line (location w) = ucast line
        \<and> global_id w = og_global wi \<and> local_id w = og_local wi \<and> group_id w = og_group wi \<and> work_item_valid w)"
  by (auto simp: resume_with_def Let_def work_item_of_fields_def work_item_valid_def empty_work_item_def)

lemma resume_ended:
  "resume_with (plugin_peer og) cmd h b = (h', b', ctx) \<Longrightarrow> ob_halted b \<Longrightarrow> ob_channel b
     \<Longrightarrow> plugin_peer og h cmd = (None, h1) \<Longrightarrow>
     h' = h1 \<and> ctx = None \<and> \<not> ob_halted b' \<and> \<not> ob_channel b'"
  by (auto simp: resume_with_def Let_def)

lemma handle_continue:
  "handle_command og kCmdContinue s p = Some (None, True, s, p\<lparr>mode := KRunning\<rparr>)"
  by (simp add: handle_command_def Let_def handle_execution_def)

lemma ucast_line_in_table: "line \<in> ran (backend_bps b) \<Longrightarrow> (ucast (ucast line :: u32) :: size_t) = line"
  by (auto simp: ran_def backend_bps_def)

lemma first_hit_line: "first_hit ls seen evs = Some (wi, line, rest) \<Longrightarrow> line \<in> ls"
  by (induction ls seen evs rule: first_hit.induct) (auto split: if_splits)

text \<open>
  C7.  Resuming reports the first hit.  With agreeing tables, \<^verbatim>\<open>resume\<close> stops at the first
  instruction on a breakpoint line in the host's execution and hands on that work-item's ids and
  that line, leaving the backend halted; if there is none, the program ends, no stop is reported and
  the channel is closed.
\<close>

theorem resume_reports_first_hit:
  assumes "ob_halted b" "ob_channel b" "h_alive h" "channel_valid (h_plugin h)"
    and "breakpoint_lines (h_plugin h) = ran (backend_bps b)"
    and "og_resume (plugin_peer og) h b = (h', b', ctx)"
  shows "case first_hit (ran (backend_bps b)) (last_line (h_plugin h)) (h_events h) of
      None \<Rightarrow> ctx = None \<and> \<not> ob_halted b' \<and> \<not> ob_channel b' \<and> \<not> h_alive h'
    | Some (wi, line, rest) \<Rightarrow> ob_halted b' \<and> h_alive h' \<and> h_events h' = rest
        \<and> (\<exists>w. ctx = Some \<lparr>stopped = w, visible = [w]\<rparr> \<and> ucast (loc_line (location w)) = line
            \<and> global_id w = og_global wi \<and> local_id w = og_local wi \<and> group_id w = og_group wi)"
proof -
  let ?p = "h_plugin h\<lparr>mode := KRunning\<rparr>"
  obtain reply h1 where r: "run_events (h_sim h) ?p (h_events h) = (reply, h1)" by fastforce
  with assms(3) have peer: "plugin_peer og h kCmdContinue = (reply, h1)"
    by (simp add: plugin_peer_def handle_continue)
  have res: "resume_with (plugin_peer og) kCmdContinue h b = (h', b', ctx)"
    using assms(6) by (simp add: og_resume_def)
  have run: "case first_hit (ran (backend_bps b)) (last_line (h_plugin h)) (h_events h) of
      None \<Rightarrow> reply = None \<and> \<not> h_alive h1
    | Some (wi, line, rest) \<Rightarrow> reply = Some (stop_event wi line) \<and> h_alive h1 \<and> h_events h1 = rest
        \<and> channel_valid (h_plugin h1) \<and> last_line (h_plugin h1) (og_index wi) = Some line"
    using run_events_running [OF r] assms(4,5) by simp
  show ?thesis
  proof (cases "first_hit (ran (backend_bps b)) (last_line (h_plugin h)) (h_events h)")
    case None
    with run peer have "plugin_peer og h kCmdContinue = (None, h1)" "\<not> h_alive h1" by simp_all
    with resume_ended [OF res assms(1,2)] None show ?thesis by simp
  next
    case (Some a)
    obtain wi line rest where a: "a = (wi, line, rest)" by (metis prod_cases3)
    with Some run peer have p: "plugin_peer og h kCmdContinue = (Some (stop_event wi line), h1)"
      "h_alive h1" "h_events h1 = rest" by simp_all
    from Some a first_hit_line have "line \<in> ran (backend_bps b)" by fast
    with work_item_of_event [OF res assms(1,2) p(1)] p(2,3) Some a ucast_line_in_table show ?thesis by auto
  qed
qed

section \<open>Stepping\<close>

lemma run_events_stepping:
  assumes "run_events s p evs = (Some event, h)" "mode p \<noteq> KRunning"
  shows "\<exists>s' wi line. Instruction s' wi line \<in> set evs \<and> event = stop_event wi line \<and> h_sim h = s' \<and> line \<noteq> 0
    \<and> og_index wi = stepping_index p \<and> (mode p = KStepOver \<longrightarrow> og_depth wi \<le> stepping_depth p)"
  using assms
  by (induction s p evs rule: run_events.induct)
     (fastforce simp: kernelBegin_def kernelEnd_def instruction_executed_def should_halt_def
        split: if_splits run_mode.splits)+

lemma step_commands_distinct [simp]: "step_in_command \<noteq> step_over_command"
  by (simp add: step_in_command_def step_over_command_def)

lemma handle_step:
  "active_work_item og s p = Some wi \<Longrightarrow>
     handle_command og step_over_command s p
       = Some (None, True, s, p\<lparr>mode := KStepOver, stepping_index := og_index wi, stepping_depth := og_depth wi\<rparr>)
   \<and> handle_command og step_in_command s p
       = Some (None, True, s, p\<lparr>mode := KStepIn, stepping_index := og_index wi, stepping_depth := og_depth wi\<rparr>)"
  by (simp add: handle_command_def Let_def handle_execution_def)

section \<open>Selection\<close>

lemma first_word_err [simp]: "first_word (err (CHR '' '' # reason)) = kReplyErr"
  by (simp add: err_def first_word_plain_space)

lemma reply_words_distinct [simp]:
  "kReplyErr \<noteq> kReplyOk" "kReplyErr \<noteq> kReplyData" "kReplyErr \<noteq> kReplyValue"
  by (simp_all add: protocol_words)

lemma plugin_peer_select:
  "h_alive h \<Longrightarrow> plugin_peer og h (select_command gid) =
     (case plugin_select og gid (h_sim h) (h_plugin h) of
        (False, s') \<Rightarrow> (Some (err '' work-item state unavailable''), h\<lparr>h_sim := s'\<rparr>)
      | (True, s') \<Rightarrow> (case current_work_item og s' of
            None \<Rightarrow> (None, h\<lparr>h_alive := False\<rparr>)
          | Some wi \<Rightarrow> (Some (select_reply wi), h\<lparr>h_sim := s'\<rparr>)))"
  by (cases "plugin_select og gid (h_sim h) (h_plugin h)")
     (simp add: plugin_peer_def handle_command_def handle_query_def Let_def strtoul_to_string
      split: option.split bool.split)

definition selected_item :: "size3 \<Rightarrow> u32 \<Rightarrow> og_work_item \<Rightarrow> unit ocl_work_item" where
  "selected_item gid line wi = empty_work_item\<lparr>global_id := gid, local_id := og_local wi, group_id := og_group wi,
     location := \<lparr>loc_file = [], loc_line = line\<rparr>, exec_ctx := Some ()\<rparr>"

lemma select_equation:
  assumes "ob_halted b" and "ob_channel b" and "h_alive h"
  shows "og_select_work_item (plugin_peer og) gid h b =
    (case plugin_select og gid (h_sim h) (h_plugin h) of
       (False, s') \<Rightarrow> (None, h\<lparr>h_sim := s'\<rparr>, b)
     | (True, s') \<Rightarrow> (case current_work_item og s' of
           None \<Rightarrow> (None, h\<lparr>h_alive := False\<rparr>, b)
         | Some wi \<Rightarrow> let w = selected_item gid (ob_stop_line b) wi
             in (Some w, h\<lparr>h_sim := s'\<rparr>, b\<lparr>ob_ctx_global_id := gid, ob_stopped := w\<rparr>)))"
  using assms
  by (simp add: og_select_work_item_def request_def plugin_peer_select work_item_of_fields_def selected_item_def Let_def
      split: option.split bool.split prod.split)

text \<open>
  Selecting a work-item asks the simulator for it: outside the global size, without a kernel or
  when the simulator refuses, nothing is selected and the backend is as before; otherwise the item
  has the requested global id, the simulator's own local id and group, and the line of the stop.
\<close>

theorem select_end_to_end:
  assumes "ob_halted b" and "ob_channel b" and "h_alive h"
  shows "og_select_work_item (plugin_peer og) gid h b =
    (case plugin_select og gid (h_sim h) (h_plugin h) of
       (False, s') \<Rightarrow> (None, h\<lparr>h_sim := s'\<rparr>, b)
     | (True, s') \<Rightarrow> (case current_work_item og s' of
           None \<Rightarrow> (None, h\<lparr>h_alive := False\<rparr>, b)
         | Some wi \<Rightarrow> let w = selected_item gid (ob_stop_line b) wi
             in (Some w, h\<lparr>h_sim := s'\<rparr>, b\<lparr>ob_ctx_global_id := gid, ob_stopped := w\<rparr>)))"
  using assms by (rule select_equation)

lemma select_answer:
  assumes sel: "og_select_work_item (plugin_peer og) gid h b = (Some w, h', b')"
  shows "\<exists>s' wi. h_alive h \<and> h' = h\<lparr>h_sim := s'\<rparr> \<and> ob_halted b' \<and> ob_channel b' \<and> invocation (h_plugin h)
    \<and> switch_work_item og (h_sim h) gid = (True, s') \<and> current_work_item og s' = Some wi"
proof -
  from sel have ch: "ob_halted b" "ob_channel b"
    by (auto simp: og_select_work_item_def request_def split: if_splits)
  from sel ch have alive: "h_alive h"
    by (cases "h_alive h") (auto simp: og_select_work_item_def request_def plugin_peer_def)
  from sel show ?thesis
    by (auto simp: select_equation [OF ch alive] plugin_select_def Let_def ch alive
        split: if_splits option.splits bool.splits prod.splits)
qed

text \<open>
  C8.  A step stays in its work-item: when stepping over or into from work-item \<open>wi\<close> reports a stop,
  the simulator had been switched to \<open>wi\<close>, the stop is an instruction with debug information of that
  same work-item, reported with its own ids and line, and stepping over it is no deeper in the call
  stack than where the step began.
\<close>

theorem step_stays_in_work_item:
  assumes "og_step (plugin_peer og) command wi h b = (h', b', Some ctx)"
    and "command = step_over_command \<or> command = step_in_command"
  shows "\<exists>s1 cur s2 wi' line. switch_work_item og (h_sim h) (global_id wi) = (True, s1) \<and> current_work_item og s1 = Some cur
    \<and> Instruction s2 wi' line \<in> set (h_events h) \<and> og_index wi' = og_index cur \<and> line \<noteq> 0
    \<and> (command = step_over_command \<longrightarrow> og_depth wi' \<le> og_depth cur)
    \<and> global_id (stopped ctx) = og_global wi' \<and> local_id (stopped ctx) = og_local wi'
    \<and> group_id (stopped ctx) = og_group wi' \<and> loc_line (location (stopped ctx)) = ucast line \<and> h_sim h' = s2"
proof -
  obtain w h1 b1 where sel: "og_select_work_item (plugin_peer og) (global_id wi) h b = (Some w, h1, b1)"
    and res: "resume_with (plugin_peer og) command h1 b1 = (h', b', Some ctx)"
    using assms(1) by (auto simp: og_step_def split: option.splits prod.splits)
  from select_answer [OF sel] obtain s1 cur where s1: "h_alive h" "h1 = h\<lparr>h_sim := s1\<rparr>" "ob_halted b1" "ob_channel b1"
    "invocation (h_plugin h)" "switch_work_item og (h_sim h) (global_id wi) = (True, s1)" "current_work_item og s1 = Some cur"
    by blast
  define p where "p = (h_plugin h)\<lparr>mode := if command = step_over_command then KStepOver else KStepIn,
    stepping_index := og_index cur, stepping_depth := og_depth cur\<rparr>"
  obtain reply h2 where run: "run_events s1 p (h_events h) = (reply, h2)" by fastforce
  have "active_work_item og s1 (h_plugin h) = Some cur" using s1 by (simp add: active_work_item_def)
  from handle_step [OF this] assms(2) run s1 have peer: "plugin_peer og h1 command = (reply, h2)"
    by (auto simp: plugin_peer_def p_def)
  have "reply \<noteq> None" using resume_ended [OF res s1(3,4)] peer by auto
  then obtain event where event: "reply = Some event" by blast
  have "mode p \<noteq> KRunning" by (simp add: p_def)
  from run_events_stepping [OF run [unfolded event] this] obtain s2 wi' line where
    hit: "Instruction s2 wi' line \<in> set (h_events h)" "event = stop_event wi' line" "h_sim h2 = s2" "line \<noteq> 0"
      "og_index wi' = stepping_index p" "mode p = KStepOver \<longrightarrow> og_depth wi' \<le> stepping_depth p" by blast
  then have same: "og_index wi' = og_index cur" "command = step_over_command \<longrightarrow> og_depth wi' \<le> og_depth cur"
    by (simp_all add: p_def)
  from work_item_of_event [OF res s1(3,4) peer [unfolded event hit(2)]] hit(1,3,4) same s1(6,7) show ?thesis by auto
qed

section \<open>Memory\<close>

lemma hex_val_hex_char [simp]: "d < 16 \<Longrightarrow> hex_val (hex_char d) = Some d"
  by (auto simp: hex_val_def hex_char_def Let_def)

lemma hex_val_other: "isspace c \<Longrightarrow> hex_val c = None"
  "hex_val (CHR ''-'') = None" "hex_val (CHR ''+'') = None" "hex_val (CHR ''x'') = None" "hex_val (CHR ''X'') = None"
  by (auto simp: hex_val_def isspace_def)

lemma hex_char_other: "d < 16 \<Longrightarrow> \<not> isspace (hex_char d) \<and> hex_char d \<noteq> CHR ''-'' \<and> hex_char d \<noteq> CHR ''+''
    \<and> hex_char d \<noteq> CHR ''x'' \<and> hex_char d \<noteq> CHR ''X''"
  using hex_val_hex_char [of d] hex_val_other by (metis option.distinct(1))

lemma stoul16_pair:
  assumes "d < 16" "e < 16"
  shows "stoul16 [hex_char d, hex_char e] = Inr (of_nat (16 * d + e))"
  using hex_char_other [OF assms(1)] hex_char_other [OF assms(2)] assms
  by (simp add: stoul16_def scan_sign_def starts_with_def Let_def)

lemma stoul16_hex_byte [simp]: "stoul16 (hex_byte b) = Inr (ucast b)"
proof -
  have "unat b div 16 < 16" using unat_lt8 [of b] by (simp add: less_mult_imp_div_less)
  from stoul16_pair [OF this, of "unat b mod 16"] show ?thesis
    by (simp add: hex_byte_def)
qed

lemma length_to_hex [simp]: "length (to_hex bs) = 2 * length bs"
  by (induction bs) (simp_all add: to_hex_def hex_byte_def)

lemma decode_pairs_to_hex: "decode_pairs (to_hex bs) (length bs) = Inr bs"
proof (induction bs)
  case (Cons b bs)
  have "take 2 (to_hex (b # bs)) = hex_byte b" "drop 2 (to_hex (b # bs)) = to_hex bs"
    by (simp_all add: to_hex_def hex_byte_def)
  with Cons show ?case by (simp add: ucast_up_ucast_id is_up)
qed simp

lemma decode_hex_to_hex: "length bytes \<le> unat capacity \<Longrightarrow> decode_hex (to_hex bytes) capacity = Inr bytes"
  by (simp add: decode_hex_def decode_pairs_to_hex min_absorb1)

text \<open>
  The plugin's hexadecimal dump decodes to the bytes it was made from.
\<close>

theorem hex_dump_roundtrip:
  assumes "length bytes \<le> unat capacity"
  shows "decode_hex (to_hex bytes) capacity = Inr bytes"
  using assms by (rule decode_hex_to_hex)

lemma plain_word_to_hex: "bs \<noteq> [] \<Longrightarrow> plain_word (to_hex bs)"
proof -
  assume "bs \<noteq> []"
  moreover have "\<not> isspace c" if "c \<in> set (hex_byte b)" for b c
    using that hex_char_other [of "unat b div 16"] hex_char_other [of "unat b mod 16"] unat_lt8 [of b]
    by (auto simp: hex_byte_def less_mult_imp_div_less)
  ultimately show ?thesis by (cases bs) (auto simp: plain_word_def to_hex_def hex_byte_def)
qed

lemma plugin_peer_read:
  "h_alive h \<Longrightarrow> plugin_peer og h (read_command a l) =
     (let hex = read_memory og (h_sim h) a l in
      (Some (if hex = [] \<and> l > 0 then err '' invalid address'' else kReplyData @ '' '' @ hex), h))"
  by (simp add: plugin_peer_def handle_command_def handle_query_def Let_def strtoul_to_string)

text \<open>
  Reading memory through the channel gives the simulator's bytes: all of them when the range is
  valid, none when it is not, when there is no memory or when it cannot be loaded; never an exception.
\<close>

theorem read_memory_end_to_end:
  assumes "ob_halted b" and "ob_channel b" and "h_alive h" and "len \<noteq> 0"
    and load_len: "\<forall>m bytes. global_memory og (h_sim h) = Some m \<longrightarrow> mem_load m addr len = Some bytes
      \<longrightarrow> length bytes = unat len"
  shows "read_global_memory (plugin_peer og) addr len h b =
    (Inr (case global_memory og (h_sim h) of
            None \<Rightarrow> []
          | Some m \<Rightarrow> if is_address_valid m addr len then (case mem_load m addr len of None \<Rightarrow> [] | Some bytes \<Rightarrow> bytes) else []), h)"
proof -
  define hex where "hex = read_memory og (h_sim h) addr len"
  have peer: "plugin_peer og h (read_command addr len) =
      (Some (if hex = [] then err '' invalid address'' else kReplyData @ '' '' @ hex), h)"
    using plugin_peer_read [OF assms(3), of og addr len] assms(4) by (simp add: hex_def Let_def word_gt_0)
  have pos: "unat len \<noteq> 0" using assms(4) by (simp add: unat_eq_0)
  show ?thesis
  proof (cases "hex = []")
    case True
    with assms peer have "read_global_memory (plugin_peer og) addr len h b = (Inr [], h)"
      by (simp add: read_global_memory_def request_def err_def read_word_plain_space)
    with True load_len pos show ?thesis
      by (auto simp: hex_def read_memory_def to_hex_def hex_byte_def split: option.splits if_splits)
  next
    case False
    then obtain m bytes where m: "global_memory og (h_sim h) = Some m" "is_address_valid m addr len"
      "mem_load m addr len = Some bytes" "hex = to_hex bytes"
      by (auto simp: hex_def read_memory_def split: option.splits if_splits)
    with load_len pos have bytes: "length bytes = unat len" "bytes \<noteq> []" by auto
    with False assms peer m show ?thesis
      by (simp add: read_global_memory_def request_def read_word_plain_space read_word_space
          read_word_plain_Nil plain_word_to_hex decode_hex_to_hex)
  qed
qed

section \<open>Expressions\<close>

lemma evaluate_equation:
  assumes "h_alive h" and "plain_word (vi_name var)"
  shows "og_evaluate (plugin_peer og) True var h =
    (let v = (case active_work_item og (h_sim h) (h_plugin h) of
                None \<Rightarrow> [] | Some wi \<Rightarrow> read_expression wi (vi_name var))
     in (Inr \<lparr>vv_name = vi_name var, vv_type_name = vi_type_name var, vv_value_str = v,
              vv_address_space = vi_address_space var, vv_available = (v \<noteq> [])\<rparr>, h))"
proof -
  define v where "v = (case active_work_item og (h_sim h) (h_plugin h) of None \<Rightarrow> [] | Some wi \<Rightarrow> read_expression wi (vi_name var))"
  have words: "split_words (kCmdPrint @ CHR '' '' # vi_name var) = [kCmdPrint, vi_name var]"
    using assms(2) by (simp add: split_words_plain split_words_last)
  have peer: "\<exists>why. plugin_peer og h (kCmdPrint @ CHR '' '' # vi_name var) =
      (Some (if v = [] then err (CHR '' '' # why) else kReplyValue @ CHR '' '' # v), h)"
  proof (cases "active_work_item og (h_sim h) (h_plugin h)")
    case None
    with assms(1) show ?thesis
      by (simp add: plugin_peer_def handle_command_def handle_query_def Let_def words v_def err_def)
  next
    case (Some wi)
    with assms(1) show ?thesis
      by (simp add: plugin_peer_def handle_command_def handle_query_def Let_def words v_def err_def)
  qed
  then obtain why where why: "plugin_peer og h (kCmdPrint @ CHR '' '' # vi_name var) =
      (Some (if v = [] then err (CHR '' '' # why) else kReplyValue @ CHR '' '' # v), h)" by blast
  have "length kReplyValue = 5" by (simp add: protocol_words)
  moreover have "vi_name var \<noteq> []" using assms(2) by (simp add: plain_word_def)
  ultimately have "og_evaluate (plugin_peer og) True var h =
      (Inr \<lparr>vv_name = vi_name var, vv_type_name = vi_type_name var, vv_value_str = v,
              vv_address_space = vi_address_space var, vv_available = (v \<noteq> [])\<rparr>, h)"
    by (simp add: og_evaluate_def why first_word_plain_space)
  then show ?thesis unfolding v_def Let_def .
qed

text \<open>
  Evaluating a variable at a stop: its value is what the simulator prints for it in the current
  work-item, with line breaks made spaces, and it is unavailable exactly when no work-item is active
  or the simulator prints nothing or \<^verbatim>\<open>not found\<close>.
\<close>

theorem evaluate_end_to_end:
  assumes "h_alive h" and "plain_word (vi_name var)"
  shows "og_evaluate (plugin_peer og) True var h =
    (let v = (case active_work_item og (h_sim h) (h_plugin h) of
                None \<Rightarrow> [] | Some wi \<Rightarrow> read_expression wi (vi_name var))
     in (Inr \<lparr>vv_name = vi_name var, vv_type_name = vi_type_name var, vv_value_str = v,
              vv_address_space = vi_address_space var, vv_available = (v \<noteq> [])\<rparr>, h))"
  using assms by (rule evaluate_equation)

section \<open>A session\<close>

text \<open>
  A small host program under the debugger, on which the properties above are applied: a breakpoint
  before the launch, changes to the table while halted, and the first stop.
\<close>

definition printing_item :: "size_t \<Rightarrow> og_work_item" where
  "printing_item i = (item_at i)\<lparr>og_print := (\<lambda>e. if e = ''gid'' then ''7'' else ''not found'')\<rparr>"

definition demo_og :: "nat oclgrind" where
  "demo_og = \<lparr>current_work_item = (\<lambda>n. Some (printing_item (of_nat n))), og_global_size = (\<lambda>_. Size3 8 1 1),
     switch_work_item = (\<lambda>_ g. (True, unat (dim_x g))),
     global_memory = (\<lambda>_. Some \<lparr>is_address_valid = (\<lambda>a l. a \<ge> 4096), mem_load = (\<lambda>a l. Some (replicate (unat l) (ucast a)))\<rparr>)\<rparr>"

definition demo_events :: "nat sim_event list" where
  "demo_events = [Kernel_begin 0, Instruction 0 (item_at 0) 12, Instruction 1 (item_at 1) 17,
     Instruction 2 (item_at 2) 17, Instruction 1 (item_at 1) 18, Kernel_end 0]"

definition at_line :: "u32 \<Rightarrow> source_location" where
  "at_line line = \<lparr>loc_file = ''vadd.cl'', loc_line = line\<rparr>"

definition demo_env :: launch_env where
  "demo_env = \<lparr>le_plugin_library = ''libplugin.so'', le_socket_path = ''/tmp/s'', le_listen_ok = True,
     le_fork_ok = True, le_accept_ok = True, le_hello = Some kEventReady\<rparr>"

definition before_launch :: "nat host \<times> og_backend" where
  "before_launch = run_ops (plugin_peer demo_og) [SetBreakpoint (at_line 17)] (new_host 0 demo_events) new_og_backend"

definition launched :: "bool \<times> nat host \<times> og_backend" where
  "launched = og_launch (plugin_peer demo_og) demo_env (fst before_launch) (snd before_launch)"

definition first_stop :: "nat host \<times> og_backend" where
  "first_stop = run_ops (plugin_peer demo_og) [SetBreakpoint (at_line 20), RemoveBreakpoint 1, SetBreakpoint (at_line 17), Resume]
     (fst (snd launched)) (snd (snd launched))"

lemmas demo_defs = demo_og_def demo_events_def at_line_def demo_env_def new_host_def new_plugin_def new_og_backend_def
  item_at_def

lemma before_launch_eq: "before_launch = (new_host 0 demo_events, new_og_backend\<lparr>ob_next_breakpoint_id := 2, ob_breakpoints := [(1, 17)]\<rparr>)"
  by (simp add: before_launch_def og_set_breakpoint_def Let_def at_line_def new_og_backend_def)

lemma launched_eq: "launched = (True, (new_host 0 demo_events)\<lparr>h_plugin := new_plugin\<lparr>breakpoint_lines := {17}, breakpoint_ids := [(1, 17)]\<rparr>\<rparr>,
    new_og_backend\<lparr>ob_next_breakpoint_id := 2, ob_breakpoints := [(1, 17)], ob_socket_path := ''/tmp/s'',
      ob_listen_fd := True, ob_child := True, ob_channel := True, ob_halted := True\<rparr>)"
  by (simp add: launched_def before_launch_eq og_launch_def demo_env_def Let_def request_def plugin_peer_break
      new_og_backend_def new_host_def new_plugin_def)

definition item_1 :: "unit ocl_work_item" where
  "item_1 = selected_item (Size3 1 0 0) 17 (item_at 1)"

lemma first_stop_eq: "first_stop =
   (\<lparr>h_alive = True, h_sim = 1, h_plugin = \<lparr>channel_valid = True, invocation = True, breakpoint_lines = {17, 20},
       breakpoint_ids = [(2, 20), (3, 17)], mode = KRunning, stepping_index = 0, stepping_depth = 0,
       last_line = Map.empty(1 \<mapsto> 17)\<rparr>, h_events = drop 3 demo_events\<rparr>,
    new_og_backend\<lparr>ob_next_breakpoint_id := 4, ob_breakpoints := [(2, 20), (3, 17)], ob_socket_path := ''/tmp/s'',
      ob_listen_fd := True, ob_child := True, ob_channel := True, ob_halted := True, ob_stop_line := 17,
      ob_ctx_global_id := Size3 1 0 0, ob_stopped := item_1\<rparr>)"
  by (simp add: first_stop_def launched_eq og_set_breakpoint_def og_remove_breakpoint_def Let_def request_def
     plugin_peer_break plugin_peer_delete plugin_peer_continue om_erase_def og_resume_def resume_with_def demo_defs
     kernelBegin_def instruction_executed_def should_halt_def work_item_of_fields_def item_1_def selected_item_def)
     auto

lemma first_stop_halted: "ob_halted (snd first_stop) \<and> h_alive (fst first_stop)"
  by (simp add: first_stop_eq)

theorem breakpoint_tables_agree_witness:
  "map_of (breakpoint_ids (h_plugin (fst first_stop))) = backend_bps (snd first_stop)
   \<and> breakpoint_lines (h_plugin (fst first_stop)) = ran (backend_bps (snd first_stop))"
proof (rule breakpoint_tables_agree)
  show "run_ops (plugin_peer demo_og) [SetBreakpoint (at_line 17)] (new_host 0 demo_events) new_og_backend
      = (fst before_launch, snd before_launch)"
    by (simp add: before_launch_def del: run_ops.simps)
  show "og_launch (plugin_peer demo_og) demo_env (fst before_launch) (snd before_launch)
      = (True, fst (snd launched), snd (snd launched))"
    using launched_eq by (simp add: launched_def)
  show "run_ops (plugin_peer demo_og) [SetBreakpoint (at_line 20), RemoveBreakpoint 1, SetBreakpoint (at_line 17), Resume]
      (fst (snd launched)) (snd (snd launched)) = (fst first_stop, snd first_stop)"
    by (simp add: first_stop_def del: run_ops.simps)
qed (simp_all add: first_stop_halted)

theorem resume_reports_first_hit_witness:
  "\<exists>h b w. og_resume (plugin_peer demo_og) (fst (snd launched)) (snd (snd launched)) = (h, b, Some \<lparr>stopped = w, visible = [w]\<rparr>)
     \<and> global_id w = Size3 1 0 0 \<and> (ucast (loc_line (location w)) :: size_t) = 17"
proof -
  let ?h = "fst (snd launched)" and ?b = "snd (snd launched)"
  obtain h b ctx where r: "og_resume (plugin_peer demo_og) ?h ?b = (h, b, ctx)" by (metis prod_cases3)
  have st: "ob_halted ?b" "ob_channel ?b" "h_alive ?h" "channel_valid (h_plugin ?h)"
    and lines: "ran (backend_bps ?b) = {17}" and same: "breakpoint_lines (h_plugin ?h) = ran (backend_bps ?b)"
    and first: "first_hit {17} (last_line (h_plugin ?h)) (h_events ?h)
      = Some (item_at 1, 17, drop 3 demo_events)"
    by (auto simp: launched_eq demo_defs backend_bps_def ran_def split: if_splits)
  from resume_reports_first_hit [OF st same r] show ?thesis
    unfolding lines first by (auto simp: r item_at_def)
qed

theorem select_end_to_end_witness:
  "\<exists>h' b'. og_select_work_item (plugin_peer demo_og) (Size3 5 0 0) (fst first_stop) (snd first_stop)
     = (Some (selected_item (Size3 5 0 0) 17 (printing_item 5)), h', b')"
proof -
  have st: "ob_halted (snd first_stop)" "ob_channel (snd first_stop)" "h_alive (fst first_stop)"
    and line: "ob_stop_line (snd first_stop) = 17" and inv: "invocation (h_plugin (fst first_stop))"
    by (simp_all add: first_stop_eq)
  show ?thesis
    using inv by (simp add: select_end_to_end [OF st] plugin_select_def Let_def line demo_og_def)
qed

theorem step_stays_in_work_item_witness:
  "\<exists>h b ctx. og_step (plugin_peer demo_og) step_over_command (ob_stopped (snd first_stop)) (fst first_stop) (snd first_stop)
     = (h, b, Some ctx) \<and> global_id (stopped ctx) = Size3 1 0 0"
proof -
  have in_range: "\<not> (8 :: size_t) \<le> 1" by (simp add: word_le_nat_alt)
  obtain h b ctx where r: "og_step (plugin_peer demo_og) step_over_command (ob_stopped (snd first_stop)) (fst first_stop)
      (snd first_stop) = (h, b, Some ctx)"
    by (simp add: first_stop_eq og_step_def select_equation plugin_select_def Let_def demo_defs selected_item_def
      in_range printing_item_def item_1_def resume_with_def plugin_peer_def handle_step active_work_item_def instruction_executed_def should_halt_def)
  obtain s1 cur s2 wi' line where "switch_work_item demo_og (h_sim (fst first_stop)) (global_id (ob_stopped (snd first_stop))) = (True, s1)"
    "current_work_item demo_og s1 = Some cur" "Instruction s2 wi' line \<in> set (h_events (fst first_stop))"
    "og_index wi' = og_index cur" "global_id (stopped ctx) = og_global wi'"
    using step_stays_in_work_item [OF r] by blast
  then show ?thesis using r by (auto simp: first_stop_eq demo_defs printing_item_def item_1_def selected_item_def)
qed

theorem hex_dump_roundtrip_witness: "decode_hex (to_hex [0x0f, 0xa0]) 8 = Inr [0x0f, 0xa0]"
  by (rule hex_dump_roundtrip) simp

theorem read_memory_end_to_end_witness:
  "read_global_memory (plugin_peer demo_og) 4097 3 (fst first_stop) (snd first_stop) = (Inr [1, 1, 1], fst first_stop)"
proof -
  have st: "ob_halted (snd first_stop)" "ob_channel (snd first_stop)" "h_alive (fst first_stop)" "(3 :: size_t) \<noteq> 0"
    by (simp_all add: first_stop_eq)
  have "\<forall>m bytes. global_memory demo_og (h_sim (fst first_stop)) = Some m \<longrightarrow> mem_load m 4097 3 = Some bytes
      \<longrightarrow> length bytes = unat (3 :: size_t)"
    by (auto simp: demo_og_def)
  from read_memory_end_to_end [OF st this] have "read_global_memory (plugin_peer demo_og) 4097 3 (fst first_stop) (snd first_stop)
      = (Inr (replicate 3 1), fst first_stop)" by (simp add: demo_og_def)
  then show ?thesis by (simp add: numeral_3_eq_3)
qed

theorem evaluate_end_to_end_witness:
  "fst (og_evaluate (plugin_peer demo_og) True
      \<lparr>vi_name = ''gid'', vi_type_name = ''int'', vi_address_space = ''private'', vi_location_pc = 0, vi_dwarf_location_expr = []\<rparr>
      (fst first_stop)) =
    Inr \<lparr>vv_name = ''gid'', vv_type_name = ''int'', vv_value_str = ''7'', vv_address_space = ''private'', vv_available = True\<rparr>"
proof -
  let ?var = "\<lparr>vi_name = ''gid'', vi_type_name = ''int'', vi_address_space = ''private'', vi_location_pc = 0, vi_dwarf_location_expr = []\<rparr>"
  have "h_alive (fst first_stop)" "plain_word (vi_name ?var)"
    by (simp_all add: first_stop_eq plain_word_def isspace_def)
  from evaluate_end_to_end [OF this, of demo_og] show ?thesis
    by (simp add: active_work_item_def first_stop_eq demo_og_def printing_item_def read_expression_def item_at_def)
qed

end
