(* ===== verification/OclgrindSession.thy ===== *)
theory OclgrindSession
  imports OclgrindEndToEnd
begin

text \<open>
  \<^verbatim>\<open>ocldbg/backends/oclgrind/OclgrindSession.{h,cpp}\<close>: the non-interactive session on the Oclgrind backend.
  The stop callback runs inside \<^verbatim>\<open>resume\<close>.  The standard output is the list of the lines written.  The
  loop may go on for ever with some peer, so it is a partial function; against the plugin's model it ends.
\<close>

record session_config =
  sc_host_binary :: string
  sc_host_args :: "string list"
  sc_break_at :: u32
  sc_break_for :: size_t
  sc_print_exprs :: "string list"

definition stop_line_text :: "unit ocl_work_item \<Rightarrow> u32 \<Rightarrow> size_t \<Rightarrow> string" where
  "stop_line_text wi line hit_count = ''[ocldbg] Breakpoint hit at line '' @ to_string line @ '' for '' @ work_item_str wi
     @ '' (hit '' @ to_string hit_count @ ''):''"

definition value_text :: "var_value \<Rightarrow> string" where
  "value_text v = ''  '' @ vv_name v @ '' = '' @ (if vv_available v then vv_value_str v else ''<unavailable>'')"

definition print_stop :: "unit ocl_work_item \<Rightarrow> u32 \<Rightarrow> size_t \<Rightarrow> var_value list \<Rightarrow> string list" where
  "print_stop wi line hit_count vars = stop_line_text wi line hit_count # map value_text vars"

definition expr_var :: "string \<Rightarrow> var_info" where
  "expr_var e = \<lparr>vi_name = e, vi_type_name = [], vi_address_space = [], vi_location_pc = 0, vi_dwarf_location_expr = []\<rparr>"

fun evaluate_all :: "'p peer \<Rightarrow> bool \<Rightarrow> string list \<Rightarrow> 'p \<Rightarrow> (std_exception + var_value list) \<times> 'p" where
  "evaluate_all peer connected [] p = (Inr [], p)"
| "evaluate_all peer connected (e # es) p =
     (case og_evaluate peer connected (expr_var e) p of
        (Inl x, p') \<Rightarrow> (Inl x, p')
      | (Inr v, p') \<Rightarrow> (case evaluate_all peer connected es p' of
            (Inl x, p'') \<Rightarrow> (Inl x, p'')
          | (Inr vs, p'') \<Rightarrow> (Inr (v # vs), p'')))"

record 'p session_state =
  ss_peer :: 'p
  ss_backend :: og_backend
  ss_hits :: size_t
  ss_output :: "string list"

text \<open>\<^verbatim>\<open>backend.resume()\<close> with the session's stop callback.\<close>

definition session_resume :: "'p peer \<Rightarrow> session_config \<Rightarrow> 'p session_state \<Rightarrow> std_exception + 'p session_state" where
  "session_resume peer cfg s =
     (case og_resume peer (ss_peer s) (ss_backend s) of
        (p, b, None) \<Rightarrow> Inr (s\<lparr>ss_peer := p, ss_backend := b\<rparr>)
      | (p, b, Some ctx) \<Rightarrow>
          let wi = stopped ctx; hits = ss_hits s + 1 in
          (case evaluate_all peer (exec_ctx wi \<noteq> None \<and> ob_channel b) (sc_print_exprs cfg) p of
             (Inl x, p') \<Rightarrow> Inl x
           | (Inr vs, p') \<Rightarrow> Inr \<lparr>ss_peer = p', ss_backend = b, ss_hits = hits,
               ss_output = ss_output s @ print_stop wi (loc_line (location wi)) hits vs\<rparr>))"

partial_function (option) session_loop :: "'p peer \<Rightarrow> session_config \<Rightarrow> 'p session_state
    \<Rightarrow> (std_exception + 'p session_state) option" where
  "session_loop peer cfg s =
     (if ob_halted (ss_backend s) \<and> (sc_break_for cfg = 0 \<or> ss_hits s < sc_break_for cfg)
      then (case session_resume peer cfg s of Inl x \<Rightarrow> Some (Inl x) | Inr s' \<Rightarrow> session_loop peer cfg s')
      else Some (Inr s))"

definition completed_text :: "size_t \<Rightarrow> string" where
  "completed_text hits = ''[ocldbg] Oclgrind session completed with '' @ to_string hits @ '' breakpoint hit(s).''"

text \<open>The exit status and the output, or an exception.\<close>

definition run_oclgrind_session :: "'p peer \<Rightarrow> launch_env \<Rightarrow> session_config \<Rightarrow> 'p
    \<Rightarrow> (std_exception + int \<times> string list) option" where
  "run_oclgrind_session peer env cfg p0 =
     (let (bid, p1, b1) = (if sc_break_at cfg > 0
            then og_set_breakpoint peer \<lparr>loc_file = [], loc_line = sc_break_at cfg\<rparr> p0 new_og_backend
            else (1, p0, new_og_backend))
      in if bid = 0 then Some (Inr (1, []))
         else let (ok, p2, b2) = og_launch peer env p1 b1
              in if \<not> ok then Some (Inr (1, []))
                 else case session_resume peer cfg \<lparr>ss_peer = p2, ss_backend = b2, ss_hits = 0, ss_output = []\<rparr> of
                     Inl x \<Rightarrow> Some (Inl x)
                   | Inr s \<Rightarrow>
                       (case session_loop peer cfg s of
                          None \<Rightarrow> None
                        | Some (Inl x) \<Rightarrow> Some (Inl x)
                        | Some (Inr s') \<Rightarrow> Some (Inr (0, ss_output s' @ [completed_text (ss_hits s')]))))"

section \<open>All hits of a line\<close>

text \<open>The reference: every instruction the interpreter comes to at which a breakpoint on the lines \<open>ls\<close> takes effect.\<close>

fun all_hits :: "size_t set \<Rightarrow> (size_t \<rightharpoonup> size_t) \<Rightarrow> 'sim sim_event list \<Rightarrow> (og_work_item \<times> size_t) list" where
  "all_hits ls seen [] = []"
| "all_hits ls seen (Kernel_begin s # evs) = all_hits ls Map.empty evs"
| "all_hits ls seen (Kernel_end s # evs) = all_hits ls Map.empty evs"
| "all_hits ls seen (Instruction s wi line # evs) =
     (if line \<in> ls \<and> line \<noteq> 0 \<and> seen (og_index wi) \<noteq> Some line
      then (wi, line) # all_hits ls (seen(og_index wi \<mapsto> line)) evs else all_hits ls seen evs)"

lemma run_events_all_hits:
  assumes "run_events s p evs = (reply, h)" "mode p = KRunning" "channel_valid p"
  shows "case reply of
      None \<Rightarrow> all_hits (breakpoint_lines p) (last_line p) evs = [] \<and> \<not> h_alive h
    | Some event \<Rightarrow> \<exists>wi line. event = stop_event wi line \<and> line \<in> breakpoint_lines p
        \<and> all_hits (breakpoint_lines p) (last_line p) evs = (wi, line) # all_hits (breakpoint_lines p) (last_line (h_plugin h)) (h_events h)
        \<and> h_alive h \<and> channel_valid (h_plugin h) \<and> breakpoint_lines (h_plugin h) = breakpoint_lines p"
  using assms
  by (induction s p evs rule: run_events.induct)
     (auto simp: kernelBegin_def kernelEnd_def instruction_executed_def should_halt_def split: if_splits option.splits)

text \<open>The state between two resumptions, with the hits still to come.\<close>

definition session_ok :: "u32 \<Rightarrow> 'sim host session_state \<Rightarrow> (og_work_item \<times> size_t) list \<Rightarrow> bool" where
  "session_ok line s rest \<longleftrightarrow>
     (let h = ss_peer s; b = ss_backend s in
      if ob_halted b then ob_channel b \<and> h_alive h \<and> channel_valid (h_plugin h) \<and> breakpoint_lines (h_plugin h) = {ucast line}
        \<and> all_hits {ucast line} (last_line (h_plugin h)) (h_events h) = rest
      else rest = [])"

definition is_report :: "string \<Rightarrow> bool" where
  "is_report l \<longleftrightarrow> starts_with l ''[ocldbg]''"

text \<open>The lines announcing a series of hits, numbered from the given one.\<close>

definition hit_line :: "u32 \<Rightarrow> size_t \<Rightarrow> og_work_item \<Rightarrow> string" where
  "hit_line line n wi = stop_line_text (empty_work_item\<lparr>global_id := og_global wi, group_id := og_group wi\<rparr>) line n"

fun hit_lines :: "u32 \<Rightarrow> size_t \<Rightarrow> (og_work_item \<times> size_t) list \<Rightarrow> string list" where
  "hit_lines line n [] = []"
| "hit_lines line n ((wi, l) # hs) = hit_line line (n + 1) wi # hit_lines line (n + 1) hs"

lemma evaluate_all_plugin:
  assumes "h_alive h" "\<forall>e \<in> set es. plain_word e"
  shows "\<exists>vs. evaluate_all (plugin_peer og) True es h = (Inr vs, h)"
  using assms(2)
proof (induction es)
  case (Cons e es)
  then have "plain_word (vi_name (expr_var e))" by (simp add: expr_var_def)
  from evaluate_equation [OF assms(1) this, of og] Cons show ?case by (auto simp: Let_def)
qed simp

lemma report_filter_values: "filter is_report (map value_text vs) = []"
  by (induction vs) (auto simp: is_report_def value_text_def starts_with_def)

lemma is_report_stop_line: "is_report (stop_line_text wi line n)"
  by (simp add: is_report_def stop_line_text_def starts_with_def)

lemma is_report_hit_line: "is_report (hit_line line n wi)"
  by (simp add: hit_line_def is_report_stop_line)

lemma stop_line_text_cong:
  "global_id w = og_global wi \<Longrightarrow> group_id w = og_group wi \<Longrightarrow> stop_line_text w line n = hit_line line n wi"
  by (simp add: hit_line_def stop_line_text_def work_item_str_def)

lemma session_resume_plugin:
  assumes ok: "session_ok line s rest" and halted: "ob_halted (ss_backend s)" and plain: "\<forall>e \<in> set (sc_print_exprs cfg). plain_word e"
  shows "\<exists>s'. session_resume (plugin_peer og) cfg s = Inr s' \<and> session_ok line s' (tl rest)
    \<and> (case rest of
         [] \<Rightarrow> \<not> ob_halted (ss_backend s') \<and> ss_hits s' = ss_hits s \<and> ss_output s' = ss_output s
       | (wi, l) # _ \<Rightarrow> ob_halted (ss_backend s') \<and> ss_hits s' = ss_hits s + 1
           \<and> filter is_report (ss_output s') = filter is_report (ss_output s) @ [hit_line line (ss_hits s + 1) wi])"
proof -
  let ?h = "ss_peer s" and ?b = "ss_backend s"
  let ?p = "h_plugin ?h\<lparr>mode := KRunning\<rparr>"
  from ok halted have st: "ob_channel ?b" "h_alive ?h" "channel_valid (h_plugin ?h)" "breakpoint_lines (h_plugin ?h) = {ucast line}"
    "all_hits {ucast line} (last_line (h_plugin ?h)) (h_events ?h) = rest"
    by (simp_all add: session_ok_def Let_def)
  obtain reply h1 where run: "run_events (h_sim ?h) ?p (h_events ?h) = (reply, h1)" by fastforce
  have peer: "plugin_peer og ?h kCmdContinue = (reply, h1)"
    using plugin_peer_continue [OF st(2), of og] run by simp
  obtain h' b' ctx where res: "og_resume (plugin_peer og) ?h ?b = (h', b', ctx)" by (metis prod_cases3)
  then have res': "resume_with (plugin_peer og) kCmdContinue ?h ?b = (h', b', ctx)" by (simp add: og_resume_def)
  note hits = run_events_all_hits [OF run]
  show ?thesis
  proof (cases reply)
    case None
    with hits st have "rest = []" by simp
    moreover have "ctx = None" "\<not> ob_halted b'" using resume_ended [OF res' halted st(1)] peer None by auto
    ultimately show ?thesis by (simp add: session_resume_def res session_ok_def)
  next
    case (Some event)
    with hits st obtain wi l where ev: "event = stop_event wi l" "l = ucast line"
      "rest = (wi, l) # all_hits {ucast line} (last_line (h_plugin h1)) (h_events h1)"
      "h_alive h1" "channel_valid (h_plugin h1)" "breakpoint_lines (h_plugin h1) = {ucast line}"
      by auto
    from work_item_of_event [OF res' halted st(1) peer [unfolded Some ev(1)]] obtain w where
      w: "h' = h1" "ob_halted b'" "ob_channel b'" "ctx = Some \<lparr>stopped = w, visible = [w]\<rparr>"
        "loc_line (location w) = ucast l" "global_id w = og_global wi" "group_id w = og_group wi" "work_item_valid w"
      by blast
    from evaluate_all_plugin [OF ev(4) plain] obtain vs where
      vs: "evaluate_all (plugin_peer og) True (sc_print_exprs cfg) h1 = (Inr vs, h1)" by blast
    let ?s = "\<lparr>ss_peer = h1, ss_backend = b', ss_hits = ss_hits s + 1,
      ss_output = ss_output s @ print_stop w (loc_line (location w)) (ss_hits s + 1) vs\<rparr>"
    have "session_resume (plugin_peer og) cfg s = Inr ?s"
      using w vs by (simp add: session_resume_def res Let_def work_item_valid_def)
    moreover have "session_ok line ?s (tl rest)" using w ev by (simp add: session_ok_def)
    moreover have "filter is_report (ss_output ?s) = filter is_report (ss_output s) @ [hit_line line (ss_hits s + 1) wi]"
      using w ev(2) by (simp add: print_stop_def report_filter_values is_report_hit_line stop_line_text_cong)
    ultimately show ?thesis using w(2) ev(3) by simp
  qed
qed

text \<open>How many of the hits to come are reported, after \<open>hits\<close> of them.\<close>

definition to_report :: "size_t \<Rightarrow> size_t \<Rightarrow> 'a list \<Rightarrow> 'a list" where
  "to_report limit hits rest = (if limit = 0 then rest else take (unat limit - unat hits) rest)"

lemma to_report_more:
  assumes "n = 0 \<or> k < n" "unat k' = unat k + 1"
  shows "to_report n k (x # rest) = x # to_report n k' rest"
proof (cases "n = 0")
  case False
  with assms have "unat n - unat k = Suc (unat n - unat k')" by (simp add: word_less_nat_alt)
  with False show ?thesis by (simp add: to_report_def)
qed (simp add: to_report_def)

lemma session_loop_plugin:
  assumes "session_ok line s rest" "\<forall>e \<in> set (sc_print_exprs cfg). plain_word e"
    and "unat (ss_hits s) + length rest < 2 ^ 64"
  shows "\<exists>s'. session_loop (plugin_peer og) cfg s = Some (Inr s')
    \<and> ss_hits s' = ss_hits s + of_nat (length (to_report (sc_break_for cfg) (ss_hits s) rest))
    \<and> filter is_report (ss_output s') = filter is_report (ss_output s)
        @ hit_lines line (ss_hits s) (to_report (sc_break_for cfg) (ss_hits s) rest)"
  using assms(1,3)
proof (induction rest arbitrary: s)
  case Nil
  show ?case
  proof (cases "ob_halted (ss_backend s) \<and> (sc_break_for cfg = 0 \<or> ss_hits s < sc_break_for cfg)")
    case True
    from session_resume_plugin [OF Nil(1) _ assms(2), of og] True obtain s' where
      s': "session_resume (plugin_peer og) cfg s = Inr s'" "\<not> ob_halted (ss_backend s')" "ss_hits s' = ss_hits s"
        "ss_output s' = ss_output s" by auto
    then show ?thesis
      using True by (simp add: session_loop.simps [of _ _ s] session_loop.simps [of _ _ s'] to_report_def)
  next
    case False
    then show ?thesis by (auto simp: session_loop.simps [of _ _ s] to_report_def)
  qed
next
  case (Cons x rest)
  obtain wi l where x: "x = (wi, l)" by fastforce
  show ?case
  proof (cases "ob_halted (ss_backend s) \<and> (sc_break_for cfg = 0 \<or> ss_hits s < sc_break_for cfg)")
    case True
    from session_resume_plugin [OF Cons.prems(1) _ assms(2), of og] True x obtain s' where
      s': "session_resume (plugin_peer og) cfg s = Inr s'" "session_ok line s' rest" "ss_hits s' = ss_hits s + 1"
        "filter is_report (ss_output s') = filter is_report (ss_output s) @ [hit_line line (ss_hits s + 1) wi]" by auto
    have hits: "unat (ss_hits s') = unat (ss_hits s) + 1" using Cons.prems(2) s'(3) by (simp add: unat_plus_no_wrap)
    have bound: "unat (ss_hits s') + length rest < 2 ^ 64" using Cons.prems(2) hits by simp
    note report = to_report_more [OF conjunct2 [OF True] hits, of x rest]
    from Cons.IH [OF s'(2) bound] True s' report x show ?thesis
      by (auto simp: session_loop.simps [of _ _ s])
  next
    case False
    from Cons.prems(1) have "ob_halted (ss_backend s)" by (auto simp: session_ok_def Let_def split: if_splits)
    with False have "sc_break_for cfg \<noteq> 0" "unat (sc_break_for cfg) \<le> unat (ss_hits s)"
      by (auto simp: word_less_nat_alt)
    with False show ?thesis by (auto simp: session_loop.simps [of _ _ s] to_report_def)
  qed
qed

definition launch_succeeds :: "launch_env \<Rightarrow> bool" where
  "launch_succeeds env \<longleftrightarrow> le_plugin_library env \<noteq> [] \<and> le_listen_ok env \<and> le_fork_ok env \<and> le_accept_ok env
     \<and> le_hello env = Some kEventReady"

lemma session_launched:
  assumes "launch_succeeds env" "line > 0"
  shows "\<exists>p1 b1 h b. og_set_breakpoint (plugin_peer og) \<lparr>loc_file = [], loc_line = line\<rparr> (new_host sim evs) new_og_backend = (1, p1, b1)
    \<and> og_launch (plugin_peer og) env p1 b1 = (True, h, b) \<and> ob_halted b
    \<and> session_ok line \<lparr>ss_peer = h, ss_backend = b, ss_hits = 0, ss_output = []\<rparr> (all_hits {ucast line} Map.empty evs)"
proof -
  let ?b1 = "new_og_backend\<lparr>ob_next_breakpoint_id := 2, ob_breakpoints := [(1, line)]\<rparr>"
  have line: "line \<noteq> 0" using assms(2) by simp
  have set: "og_set_breakpoint (plugin_peer og) \<lparr>loc_file = [], loc_line = line\<rparr> (new_host sim evs) new_og_backend
      = (1, new_host sim evs, ?b1)"
    using line by (simp add: og_set_breakpoint_def Let_def new_og_backend_def)
  have "\<exists>h b. og_launch (plugin_peer og) env (new_host sim evs) ?b1 = (True, h, b) \<and> ob_halted b
    \<and> session_ok line \<lparr>ss_peer = h, ss_backend = b, ss_hits = 0, ss_output = []\<rparr> (all_hits {ucast line} Map.empty evs)"
    using assms(1) line
    by (simp add: launch_succeeds_def og_launch_def Let_def request_def plugin_peer_break new_og_backend_def
        new_host_def new_plugin_def session_ok_def)
  with set show ?thesis by blast
qed

lemma session_hits:
  assumes "launch_succeeds env" and "sc_break_at cfg > 0" and "\<forall>e \<in> set (sc_print_exprs cfg). plain_word e"
    and "length (all_hits {ucast (sc_break_at cfg)} Map.empty evs) < 2 ^ 64"
  shows "\<exists>out reported. run_oclgrind_session (plugin_peer og) env cfg (new_host sim evs)
      = Some (Inr (0, out @ [completed_text (of_nat (length reported))]))
    \<and> reported = to_report (sc_break_for cfg) 0 (all_hits {ucast (sc_break_at cfg)} Map.empty evs)
    \<and> filter is_report out = hit_lines (sc_break_at cfg) 0 reported"
proof -
  let ?line = "sc_break_at cfg"
  obtain p1 b1 h b where l: "og_set_breakpoint (plugin_peer og) \<lparr>loc_file = [], loc_line = ?line\<rparr> (new_host sim evs) new_og_backend = (1, p1, b1)"
    "og_launch (plugin_peer og) env p1 b1 = (True, h, b)" "ob_halted b"
    "session_ok ?line \<lparr>ss_peer = h, ss_backend = b, ss_hits = 0, ss_output = []\<rparr> (all_hits {ucast ?line} Map.empty evs)"
    using session_launched [OF assms(1,2), of og sim evs] by blast
  let ?s = "\<lparr>ss_peer = h, ss_backend = b, ss_hits = 0, ss_output = []\<rparr>"
  obtain s' where s': "session_loop (plugin_peer og) cfg ?s = Some (Inr s')"
    "ss_hits s' = of_nat (length (to_report (sc_break_for cfg) 0 (all_hits {ucast ?line} Map.empty evs)))"
    "filter is_report (ss_output s') = hit_lines ?line 0 (to_report (sc_break_for cfg) 0 (all_hits {ucast ?line} Map.empty evs))"
    using session_loop_plugin [OF l(4) assms(3), of og] assms(4) by auto
  have go: "ob_halted (ss_backend ?s) \<and> (sc_break_for cfg = 0 \<or> ss_hits ?s < sc_break_for cfg)"
    using l(3) by (simp add: word_gt_0)
  have "session_loop (plugin_peer og) cfg ?s =
      (case session_resume (plugin_peer og) cfg ?s of Inl x \<Rightarrow> Some (Inl x) | Inr t \<Rightarrow> session_loop (plugin_peer og) cfg t)"
    using go by (simp only: session_loop.simps [of _ _ ?s] if_True simp_thms)
  with s'(1) obtain t where t: "session_resume (plugin_peer og) cfg ?s = Inr t" "session_loop (plugin_peer og) cfg t = Some (Inr s')"
    by (auto split: sum.splits)
  with l(1,2) s'(2) assms(2) have "run_oclgrind_session (plugin_peer og) env cfg (new_host sim evs)
      = Some (Inr (0, ss_output s' @ [completed_text (of_nat (length (to_report (sc_break_for cfg) 0 (all_hits {ucast ?line} Map.empty evs))))]))"
    by (simp add: run_oclgrind_session_def)
  with s'(3) show ?thesis by blast
qed

text \<open>
  C1.  A session reports the hits: run against the plugin and a host program that comes to the given
  instructions, a session with a breakpoint line and printable expressions ends, succeeds, announces
  exactly the instructions at which the breakpoint takes effect, in order, numbered from 1, at most
  \<^verbatim>\<open>break_for\<close> of them unless that is 0, and gives their number in its last line.
\<close>

theorem session_reports_hits:
  assumes "launch_succeeds env" and "sc_break_at cfg > 0" and "\<forall>e \<in> set (sc_print_exprs cfg). plain_word e"
    and "length (all_hits {ucast (sc_break_at cfg)} Map.empty evs) < 2 ^ 64"
  shows "\<exists>out reported. run_oclgrind_session (plugin_peer og) env cfg (new_host sim evs)
      = Some (Inr (0, out @ [completed_text (of_nat (length reported))]))
    \<and> reported = to_report (sc_break_for cfg) 0 (all_hits {ucast (sc_break_at cfg)} Map.empty evs)
    \<and> filter is_report out = hit_lines (sc_break_at cfg) 0 reported"
  using assms by (rule session_hits)

definition demo_config :: session_config where
  "demo_config = \<lparr>sc_host_binary = ''vadd'', sc_host_args = [], sc_break_at = 17, sc_break_for = 1, sc_print_exprs = [''gid'']\<rparr>"

theorem session_reports_hits_witness:
  "\<exists>out. run_oclgrind_session (plugin_peer demo_og) demo_env demo_config (new_host 0 demo_events)
      = Some (Inr (0, out @ [completed_text 1])) \<and> filter is_report out = [hit_line 17 1 (item_at 1)]"
proof -
  have hits: "all_hits {17} Map.empty demo_events = [(item_at 1, 17), (item_at 2, 17)]"
    by (simp add: demo_events_def) (simp add: item_at_def)
  have "launch_succeeds demo_env" by (simp add: launch_succeeds_def demo_env_def)
  moreover have "sc_break_at demo_config > 0" by (simp add: demo_config_def)
  moreover have "\<forall>e \<in> set (sc_print_exprs demo_config). plain_word e" by (simp add: demo_config_def plain_word_def isspace_def)
  moreover have "length (all_hits {ucast (sc_break_at demo_config)} Map.empty demo_events) < 2 ^ 64"
    by (simp add: demo_config_def hits)
  ultimately obtain out reported where
    out: "run_oclgrind_session (plugin_peer demo_og) demo_env demo_config (new_host 0 demo_events)
      = Some (Inr (0, out @ [completed_text (of_nat (length reported))]))"
    and rep: "reported = to_report (sc_break_for demo_config) 0 (all_hits {ucast (sc_break_at demo_config)} Map.empty demo_events)"
    and lines: "filter is_report out = hit_lines (sc_break_at demo_config) 0 reported"
    using session_reports_hits [of demo_env demo_config demo_events demo_og 0] by blast
  from rep have "reported = [(item_at 1, 17)]" by (simp add: demo_config_def hits to_report_def)
  with out lines show ?thesis by (auto simp: demo_config_def)
qed

end
