(* ===== verification/MainProgram.thy ===== *)
theory MainProgram
  imports CliSession DapBackends Args OclgrindSession
begin

text \<open>
  \<^verbatim>\<open>ocldbg/main.cpp\<close>, with the two printing functions of \<^verbatim>\<open>args.cpp\<close>: the program from its arguments to
  its exit status and what it wrote to the standard output.  A parser's exception escapes from \<^verbatim>\<open>main\<close> and
  ends the process; it is the left side of the outcome.  \<open>None\<close> is fuel that ran out, a session without
  end, or undefined behaviour.  The standard error is left out here.
\<close>

section \<open>The world of the program\<close>

text \<open>
  LLDB with its command interpreter, the host program under Oclgrind as the peer of the channel, the
  standard input, the network, LLVM's JSON library, and the texts fixed when the program was built.
\<close>

record ('l, 'p) world =
  wo_host :: "'l Tracking.host"
  wo_lldb :: 'l
  wo_interpreter :: "'l interpreter"
  wo_fuel :: nat
  wo_peer :: "'p peer"
  wo_env :: "string \<Rightarrow> string list \<Rightarrow> launch_env"
  wo_start :: 'p
  wo_stdin :: string
  wo_net :: tcp_answers
  wo_json :: json_lib
  wo_version :: string
  wo_commit :: string
  wo_lldb_version :: string

definition unlines :: "string list \<Rightarrow> string" where
  "unlines ls = concat (map (\<lambda>l. l @ line_end) ls)"

section \<open>Printing\<close>

definition version_text :: "('l, 'p) world \<Rightarrow> string" where
  "version_text W = unlines [''ocldbg version '' @ wo_version W @ '' (commit '' @ wo_commit W @ '')'', ''Using '' @ wo_lldb_version W]"

definition help_text :: string where
  "help_text = unlines
    [''Usage: ocldbg [options] [host_binary] [args...]'',
     ''Options:'',
     ''  -o <command>       Execute the LLDB command after loading target'',
     ''  -O <command>       Execute the LLDB command before loading target'',
     ''  -s <file>          Source LLDB commands from file after loading target'',
     ''  -S <file>          Source LLDB commands from file before loading target'',
     ''  -b, --batch        Exit after running one-line and sourced commands'',
     ''  --dry-run          [TEMP] Test launch and NDRange inference without full execution'',
     ''  --show-wg-bounds   Display inferred work-group bounds and coordinate mapping'',
     ''  --track-wg         Track live work-group recorded (implies kernel runs to completion)'',
     ''  --inspect-vars     Inspect variables at first work-group stop'',
     ''  --break-at <line>  Break at kernel source line (e.g. --break-at 17)'',
     ''  --break-for <x>    Stop at breakpoint x times (default: every time)'',
     ''  --print <expr>     Evaluate expression at each stop (oclgrind backend; repeatable)'',
     ''  --backend <name>   Execution backend (default: cpu)'',
     ''  --dap              Run DAP server over stdio'',
     ''  --port <port>      Listen on TCP port for DAP client (default: stdio)'',
     ''  -v, --version      Display version and build information'',
     ''  -h, --help         Display this help message'']"

definition bound_text :: "work_group_bound \<Rightarrow> string" where
  "bound_text wg = ''  WG '' @ size3_str (wg_group_id wg) @ '': global range ['' @ size3_str (min_wi wg) @ '' - ''
     @ size3_str (max_wi wg) @ ''] ('' @ to_string (item_count wg) @ '' work-items)''"

definition mapping_text :: "work_item_mapping \<Rightarrow> string" where
  "mapping_text wi = ''  WI '' @ size3_str (map_global_id wi) @ '' -> WG '' @ size3_str (map_group_id wi)
     @ '' Local '' @ size3_str (map_local_id wi)"

definition inferred_bounds_text :: "kernel_launch_info \<Rightarrow> string" where
  "inferred_bounds_text info = unlines
     ([''[ocldbg] Inferred NDRange from call site:'',
       ''  Global Size: '' @ size3_str (li_global_size info),
       ''  Local Size:  '' @ size3_str (li_local_size info),
       ''  Work-Groups: '' @ size3_str (li_num_groups info),
       ''[ocldbg] Work-Group Bounds:'']
      @ map bound_text (li_work_groups info)
      @ ''[ocldbg] Work-Item Context Mapping:'' # map mapping_text (li_sample_work_items info))"

definition tracking_summary_text :: "size_t \<Rightarrow> size_t \<Rightarrow> string" where
  "tracking_summary_text recorded expected = unlines
     [''[ocldbg] Work-Group Dispatch Tracking:'', ''  Dispatches: '' @ to_string recorded, ''  Expected:   '' @ to_string expected]"

section \<open>The dry run\<close>

definition infer_on_bench :: "'l Tracking.host \<Rightarrow> 'l workbench \<Rightarrow> bool \<times> 'l workbench" where
  "infer_on_bench H w =
     (if \<not> process_valid H w then (False, w)
      else let (ok, name, items) = infer_kernel_launch (process_of H w) (db_kernel_name (wb_dbg w)) (db_items (wb_dbg w))
           in (ok, on_dbg (\<lambda>s. (set_items items s)\<lparr>db_kernel_name := name\<rparr>) w))"

definition handle_workgroup_tracking :: "'l Tracking.host \<Rightarrow> nat \<Rightarrow> program_args \<Rightarrow> kernel_launch_info \<Rightarrow> 'l workbench \<Rightarrow> 'l workbench option" where
  "handle_workgroup_tracking H n args info w =
     map_option (\<lambda>(recorded, k).
         if track_wg args
         then print_out (tracking_summary_text recorded
                (dim_x (li_num_groups info) * dim_y (li_num_groups info) * dim_z (li_num_groups info))) (tk_wb k)
         else tk_wb k)
       (track_workgroup_dispatches H n (inspect_vars args) (break_at args) (break_for args)
          (on_dbg (\<lambda>s. snd (set_workgroup_breakpoint (h_api H) (li_kernel_name info) s)) w))"

definition inspect_launch :: "'l Tracking.host \<Rightarrow> nat \<Rightarrow> program_args \<Rightarrow> 'l workbench \<Rightarrow> 'l workbench option" where
  "inspect_launch H n args w0 =
     (case infer_on_bench H w0 of
        (False, w) \<Rightarrow> Some w
      | (True, w) \<Rightarrow>
          (case is_launch_info (db_items (wb_dbg w)) of
             None \<Rightarrow> Some w
           | Some info \<Rightarrow>
               let w1 = (if show_wg_bounds args then print_out (inferred_bounds_text info) w else w)
               in if track_wg args \<or> break_at args > 0 then handle_workgroup_tracking H n args info w1 else Some w1))"

definition session_config_of :: "program_args \<Rightarrow> session_config" where
  "session_config_of args = \<lparr>sc_host_binary = host_binary args, sc_host_args = host_args args, sc_break_at = break_at args,
     sc_break_for = break_for args, sc_print_exprs = print_exprs args\<rparr>"

definition dry_run_completed :: string where
  "dry_run_completed = ''[ocldbg] Dry run completed successfully.'' @ line_end"

definition run_dry_run :: "('l, 'p) world \<Rightarrow> program_args \<Rightarrow> (std_exception + int \<times> string) option" where
  "run_dry_run W args =
     (let H = wo_host W in
      if host_binary args = [] then Some (Inr (1, []))
      else if backend_name args = ''oclgrind'' then
        map_option (map_sum id (\<lambda>(status, ls). (status, unlines ls)))
          (run_oclgrind_session (wo_peer W) (wo_env W (host_binary args) (host_args args)) (session_config_of args) (wo_start W))
      else case debugger_launch H (host_binary args) (host_args args) False (new_workbench (h_abi H) (wo_lldb W)) of
        (False, w) \<Rightarrow> Some (Inr (1, db_out (wb_dbg w)))
      | (True, w) \<Rightarrow>
          map_option (\<lambda>w1.
              let w2 = print_out dry_run_completed w1;
                  w3 = (if \<not> track_wg args \<and> break_at args = 0 then terminate_process H w2 else w2)
              in Inr (0, db_out (wb_dbg w3)))
            (inspect_launch H (wo_fuel W) args w))"

section \<open>The program\<close>

definition cli_config_of :: "program_args \<Rightarrow> cli_config" where
  "cli_config_of args = \<lparr>cc_host_binary = host_binary args, cc_host_args = host_args args,
     cc_one_line_before = one_line_before args, cc_source_before = source_before args, cc_source_after = source_after args,
     cc_one_line_after = one_line_after args, cc_batch = batch_mode args\<rparr>"

definition run_cli_session :: "('l, 'p) world \<Rightarrow> program_args \<Rightarrow> (int \<times> string) option" where
  "run_cli_session W args =
     map_option (\<lambda>s. (0, db_out (dbg_of s)))
       (run_cli (wo_host W) (wo_interpreter W) (wo_fuel W) (cli_config_of args) (wo_stdin W)
          \<lparr>tm_bench = new_workbench (h_abi (wo_host W)) (wo_lldb W), tm_err = []\<rparr>)"

definition run_dap_session :: "('l, 'p) world \<Rightarrow> program_args \<Rightarrow> (int \<times> string) option" where
  "run_dap_session W args =
     map_option (Pair 0)
       (run_dap (wo_json W) (wo_host W) (wo_lldb W) (wo_fuel W) (wo_peer W) (wo_env W) (wo_start W) (wo_stdin W) (wo_net W)
          (backend_name args) (dap_port args))"

definition main_program :: "('l, 'p) world \<Rightarrow> string list \<Rightarrow> (std_exception + int \<times> string) option" where
  "main_program W argv =
     (case parse_arguments argv of
        Inl e \<Rightarrow> Some (Inl e)
      | Inr args \<Rightarrow>
          if show_version args then Some (Inr (0, version_text W))
          else if show_help args then Some (Inr (0, help_text))
          else if has_ocldbg_specific_args args \<and> \<not> dry_run args then Some (Inr (1, []))
          else if dry_run args then run_dry_run W args
          else if dap_mode args \<or> dap_port args > 0 then map_option Inr (run_dap_session W args)
          else map_option Inr (run_cli_session W args))"

section \<open>From the command line to the output\<close>

text \<open>
  C2.  \<^verbatim>\<open>ocldbg --dry-run --backend oclgrind --break-at <line>\<close> with any further options, however they are
  written on the command line, on a host program that comes to the given instructions: the program exits with
  0, and the breakpoint lines it prints are those of the first \<^verbatim>\<open>--break-for\<close> hits of the line, in order.
\<close>

theorem main_reports_hits:
  assumes "dry_run a" and "\<not> show_version a" and "\<not> show_help a" and "backend_name a = ''oclgrind''" and "host_binary a \<noteq> []"
    and "break_at a > 0" and "\<forall>e \<in> set (print_exprs a). plain_word e"
    and "wo_peer W = plugin_peer og" and "wo_start W = new_host sim evs" and "launch_succeeds (wo_env W (host_binary a) (host_args a))"
    and "length (all_hits {ucast (break_at a)} Map.empty evs) < 2 ^ 64"
  shows "\<exists>ls reported. main_program W (render_arguments a) = Some (Inr (0, unlines (ls @ [completed_text (of_nat (length reported))])))
    \<and> reported = to_report (break_for a) 0 (all_hits {ucast (break_at a)} Map.empty evs)
    \<and> filter is_report ls = hit_lines (break_at a) 0 reported"
proof -
  have args: "parse_arguments (render_arguments a) = Inr a" using assms(5) by (intro args_rendered) simp
  obtain ls reported where run: "run_oclgrind_session (plugin_peer og) (wo_env W (host_binary a) (host_args a)) (session_config_of a) (new_host sim evs)
      = Some (Inr (0, ls @ [completed_text (of_nat (length reported))]))"
    "reported = to_report (break_for a) 0 (all_hits {ucast (break_at a)} Map.empty evs)" "filter is_report ls = hit_lines (break_at a) 0 reported"
    using session_hits [of "wo_env W (host_binary a) (host_args a)" "session_config_of a" evs og sim] assms(6,7,10,11)
    by (auto simp: session_config_of_def)
  have "main_program W (render_arguments a) = Some (Inr (0, unlines (ls @ [completed_text (of_nat (length reported))])))"
    using assms(1-5,8,9) run(1) by (simp add: main_program_def args run_dry_run_def)
  with run(2,3) show ?thesis by blast
qed

text \<open>
  The options of the dry run without \<^verbatim>\<open>--dry-run\<close>, and a dry run without a host program, are errors:
  the program exits with 1, writes nothing to the standard output and touches neither LLDB nor the host
  program (the outcome is the same in every world).
\<close>

theorem main_refuses:
  assumes "host_binary a = [] \<longrightarrow> host_args a = []" and "\<not> show_version a" and "\<not> show_help a"
    and "has_ocldbg_specific_args a \<and> \<not> dry_run a \<or> dry_run a \<and> host_binary a = []"
  shows "main_program W (render_arguments a) = Some (Inr (1, []))"
  using assms(2-4) args_rendered [OF assms(1)] by (auto simp: main_program_def run_dry_run_def)

definition demo_world :: "(demo_lldb, nat OclgrindLink.host) world" where
  "demo_world = \<lparr>wo_host = demo_host, wo_lldb = demo_start [], wo_interpreter = quitting_interpreter, wo_fuel = 9,
     wo_peer = plugin_peer demo_og, wo_env = (\<lambda>b args. demo_env), wo_start = new_host 0 demo_events, wo_stdin = [],
     wo_net = \<lparr>tcp_socket = False, tcp_listen = False, tcp_client = None\<rparr>, wo_json = demo_json,
     wo_version = ''0.1.0'', wo_commit = ''unknown'', wo_lldb_version = ''lldb''\<rparr>"

definition demo_args :: program_args where
  "demo_args = default_args\<lparr>dry_run := True, backend_name := ''oclgrind'', host_binary := ''vadd'', break_at := 17, break_for := 1,
     print_exprs := [''gid'']\<rparr>"

theorem main_reports_hits_witness:
  "\<exists>ls. main_program demo_world (render_arguments demo_args) = Some (Inr (0, unlines (ls @ [completed_text 1])))
    \<and> filter is_report ls = [hit_line 17 1 (item_at 1)]"
proof -
  have hits: "all_hits {17} Map.empty demo_events = [(item_at 1, 17), (item_at 2, 17)]"
    by (simp add: demo_events_def) (simp add: item_at_def)
  have a: "dry_run demo_args" "\<not> show_version demo_args" "\<not> show_help demo_args" "backend_name demo_args = ''oclgrind''"
    "host_binary demo_args \<noteq> []" "break_at demo_args > 0" "\<forall>e \<in> set (print_exprs demo_args). plain_word e"
    by (simp_all add: demo_args_def default_args_def plain_word_def isspace_def)
  have w: "wo_peer demo_world = plugin_peer demo_og" "wo_start demo_world = new_host 0 demo_events"
    "launch_succeeds (wo_env demo_world (host_binary demo_args) (host_args demo_args))"
    by (simp_all add: demo_world_def launch_succeeds_def demo_env_def)
  have len: "length (all_hits {ucast (break_at demo_args)} Map.empty demo_events) < 2 ^ 64"
    by (simp add: demo_args_def hits)
  obtain ls reported where r: "main_program demo_world (render_arguments demo_args)
      = Some (Inr (0, unlines (ls @ [completed_text (of_nat (length reported))])))"
    "reported = to_report (break_for demo_args) 0 (all_hits {ucast (break_at demo_args)} Map.empty demo_events)"
    "filter is_report ls = hit_lines (break_at demo_args) 0 reported"
    using main_reports_hits [OF a w len] by blast
  from r(2) have "reported = [(item_at 1, 17)]" by (simp add: demo_args_def hits to_report_def)
  with r(1,3) show ?thesis by (auto simp: demo_args_def)
qed

theorem main_refuses_witness:
  "main_program demo_world (render_arguments (default_args\<lparr>host_binary := ''vadd'', break_at := 3\<rparr>)) = Some (Inr (1, []))"
  by (rule main_refuses) (simp_all add: default_args_def has_ocldbg_specific_args_def)

end
