(* ===== verification/OclgrindStartup.thy ===== *)
theory OclgrindStartup
  imports OclgrindSession
begin

text \<open>
  How the two halves of the Oclgrind backend find each other: the socket, the child process and its environment
  in \<^verbatim>\<open>ocldbg/backends/oclgrind/OclgrindBackend.cpp\<close>, and the connection and registration of the plugin in
  \<^verbatim>\<open>ocldbg/backends/oclgrind/plugin/DebugPlugin.cpp\<close>.  The operating system is the results its calls
  return, \<open>os_answers\<close>, and what they hold on to, \<open>os_state\<close>; an environment maps names to values.
  \<open>launch_os\<close> is \<^verbatim>\<open>launch\<close> down to its descriptors, of which \<open>og_launch\<close> sees only whether they are open.
  Paths and values hold no NUL, and \<^verbatim>\<open>sizeof(sun_path)\<close> is that of Linux.
\<close>

type_synonym environ = "string \<rightharpoonup> string"

definition kSocketEnvVar :: string where
  "kSocketEnvVar = ''OCLDBG_OCLGRIND_SOCKET''"

text \<open>What the build configuration defines.\<close>

record build =
  OCLDBG_OCLGRIND_PLUGIN_PATH :: string
  OCLDBG_OCLGRIND_LIB_DIR :: string

definition plugin_library :: "build \<Rightarrow> environ \<Rightarrow> string" where
  "plugin_library bd e = (case e ''OCLDBG_OCLGRIND_PLUGIN'' of Some p \<Rightarrow> p | None \<Rightarrow> OCLDBG_OCLGRIND_PLUGIN_PATH bd)"

definition oclgrind_lib_dir :: "build \<Rightarrow> environ \<Rightarrow> string" where
  "oclgrind_lib_dir bd e = (case e ''OCLDBG_OCLGRIND_LIBDIR'' of Some p \<Rightarrow> p | None \<Rightarrow> OCLDBG_OCLGRIND_LIB_DIR bd)"

text \<open>\<open>dir\<close> is \<^verbatim>\<open>temp_directory_path()\<close>; \<^verbatim>\<open>operator/\<close> adds a separator only where there is none.\<close>

definition make_socket_path :: "string \<Rightarrow> int \<Rightarrow> string" where
  "make_socket_path dir pid =
     (let name = ''ocldbg-oclgrind-'' @ to_string_signed pid @ ''.sock''
      in if dir = [] \<or> ends_with dir ''/'' then dir @ name else dir @ ''/'' @ name)"

section \<open>The operating system\<close>

record os_state =
  open_fds :: "int set"
  socket_files :: "string set"

record os_answers =
  oa_socket :: int
  oa_bind :: int
  oa_listen :: int
  oa_fork :: int
  oa_polls :: "(int \<times> int) list"        \<comment> \<open>the results of \<^verbatim>\<open>poll\<close> and of the \<^verbatim>\<open>waitpid\<close> after it\<close>
  oa_accept :: int

definition sun_path_size :: nat where "sun_path_size = 108"

definition open_fd :: "int \<Rightarrow> os_state \<Rightarrow> os_state" where
  "open_fd fd s = s\<lparr>open_fds := insert fd (open_fds s)\<rparr>"

definition close_fd :: "int \<Rightarrow> os_state \<Rightarrow> os_state" where
  "close_fd fd s = s\<lparr>open_fds := open_fds s - {fd}\<rparr>"

definition listen_on :: "os_answers \<Rightarrow> string \<Rightarrow> os_state \<Rightarrow> int \<times> os_state" where
  "listen_on a path s =
     (let fd = oa_socket a in
      if fd < 0 then (-1, s)
      else let s1 = open_fd fd s in
        if sun_path_size \<le> length path then (-1, close_fd fd s1)
        else let s2 = s1\<lparr>socket_files := socket_files s1 - {path}\<rparr> in
          if oa_bind a \<noteq> 0 then (-1, close_fd fd s2)
          else let s3 = s2\<lparr>socket_files := insert path (socket_files s2)\<rparr> in
            if oa_listen a \<noteq> 0 then (-1, close_fd fd s3) else (fd, s3))"

text \<open>
  The loop polls until there is a connection, an error, or the host program is gone; \<open>None\<close> says that it
  still waits when the polls known about are over.
\<close>

fun accept_plugin :: "int \<Rightarrow> int \<Rightarrow> (int \<times> int) list \<Rightarrow> int option" where
  "accept_plugin child accepted [] = None"
| "accept_plugin child accepted ((ready, waited) # polls) =
     (if ready > 0 then Some accepted
      else if ready < 0 then Some (-1)
      else if waited = child then Some (-1)
      else accept_plugin child accepted polls)"

text \<open>The environment \<^verbatim>\<open>exec_host\<close> sets up for the host program.\<close>

definition host_environ :: "build \<Rightarrow> string \<Rightarrow> environ \<Rightarrow> environ" where
  "host_environ bd path e =
     (let lib_dir = oclgrind_lib_dir bd e;
          e1 = e(kSocketEnvVar \<mapsto> path);
          e2 = e1(''OCLGRIND_PLUGINS'' \<mapsto> plugin_library bd e1);
          e3 = e2(''LD_PRELOAD'' \<mapsto> prepend_path (lib_dir @ ''/liboclgrind-rt.so'') (e2 ''LD_PRELOAD''))
      in e3(''LD_LIBRARY_PATH'' \<mapsto> prepend_path lib_dir (e3 ''LD_LIBRARY_PATH'')))"

text \<open>What is executed, with its environment and arguments, or the exit status of a child that cannot execute it.\<close>

definition exec_host :: "build \<Rightarrow> string \<Rightarrow> environ \<Rightarrow> string \<Rightarrow> string list \<Rightarrow> bool \<Rightarrow> int + environ \<times> string \<times> string list" where
  "exec_host bd path e binary args executable =
     (if executable then Inr (host_environ bd path e, binary, binary # args) else Inl 127)"

section \<open>The plugin's side\<close>

text \<open>
  \<^verbatim>\<open>connect_to_debugger\<close>: the descriptor of the channel, \<open>-1\<close> for a closed one.  \<open>sock\<close> is the result of
  \<^verbatim>\<open>socket\<close> in the host program, \<open>conn\<close> that of \<^verbatim>\<open>connect\<close> for a path.
\<close>

definition connect_to_debugger :: "int \<Rightarrow> (string \<Rightarrow> int) \<Rightarrow> environ \<Rightarrow> int" where
  "connect_to_debugger sock conn e =
     (case e kSocketEnvVar of
        None \<Rightarrow> -1
      | Some path \<Rightarrow>
          if sock < 0 then -1
          else if sun_path_size \<le> length path then -1
          else if conn path \<noteq> 0 then -1 else sock)"

text \<open>The constructor up to the call of \<^verbatim>\<open>serve\<close>: the plugin and the line it sends.\<close>

definition debug_plugin :: "int \<Rightarrow> plugin \<times> string option" where
  "debug_plugin fd =
     (let p = new_plugin\<lparr>channel_valid := (fd \<ge> 0)\<rparr>
      in if \<not> channel_valid p then (p, None) else (p, Some kEventReady))"

section \<open>Launch and detach, down to the descriptors\<close>

record resources =
  rs_channel :: int
  rs_listen_fd :: int
  rs_socket_path :: string
  rs_child :: int
  rs_halted :: bool
  rs_os :: os_state

definition no_resources :: "os_state \<Rightarrow> resources" where
  "no_resources s = \<lparr>rs_channel = -1, rs_listen_fd = -1, rs_socket_path = [], rs_child = -1, rs_halted = False, rs_os = s\<rparr>"

definition detach_channel :: "resources \<Rightarrow> resources" where
  "detach_channel r = (if rs_channel r \<ge> 0 then r\<lparr>rs_os := close_fd (rs_channel r) (rs_os r), rs_channel := -1\<rparr> else r)"

definition detach_listener :: "resources \<Rightarrow> resources" where
  "detach_listener r = (if rs_listen_fd r \<ge> 0 then r\<lparr>rs_os := close_fd (rs_listen_fd r) (rs_os r), rs_listen_fd := -1\<rparr> else r)"

definition detach_path :: "resources \<Rightarrow> resources" where
  "detach_path r = (if rs_socket_path r \<noteq> []
     then r\<lparr>rs_os := (rs_os r)\<lparr>socket_files := socket_files (rs_os r) - {rs_socket_path r}\<rparr>, rs_socket_path := []\<rparr> else r)"

definition detach_os :: "resources \<Rightarrow> resources" where
  "detach_os r =
     (let r3 = detach_path (detach_listener (detach_channel r));
          r4 = (if rs_child r3 > 0 then r3\<lparr>rs_child := -1\<rparr> else r3)
      in r4\<lparr>rs_halted := False\<rparr>)"

text \<open>
  \<^verbatim>\<open>launch\<close> before the breakpoints are sent.  \<open>hello\<close> is the first line the accepted connection delivers.
\<close>

definition launch_os :: "build \<Rightarrow> environ \<Rightarrow> string \<Rightarrow> int \<Rightarrow> string option \<Rightarrow> os_answers \<Rightarrow> resources
    \<Rightarrow> (bool \<times> resources) option" where
  "launch_os bd e dir pid hello a r =
     (if plugin_library bd e = [] then Some (False, r)
      else let path = make_socket_path dir pid;
               (fd, s) = listen_on a path (rs_os r);
               r1 = r\<lparr>rs_socket_path := path, rs_listen_fd := fd, rs_os := s\<rparr>
        in if fd < 0 then Some (False, r1)
        else let r2 = r1\<lparr>rs_child := oa_fork a\<rparr> in
          if oa_fork a < 0 then Some (False, r2)
          else case accept_plugin (oa_fork a) (oa_accept a) (oa_polls a) of
            None \<Rightarrow> None
          | Some conn \<Rightarrow>
              if conn < 0 then Some (False, detach_os r2)
              else let r3 = r2\<lparr>rs_channel := conn, rs_os := open_fd conn (rs_os r2)\<rparr> in
                if (case hello of None \<Rightarrow> True | Some event \<Rightarrow> first_word event \<noteq> kEventReady)
                then Some (False, detach_os r3)
                else Some (True, r3\<lparr>rs_halted := True\<rparr>))"

text \<open>The same answers, as \<open>og_launch\<close> takes them.\<close>

definition launch_env_of :: "build \<Rightarrow> environ \<Rightarrow> string \<Rightarrow> int \<Rightarrow> string option \<Rightarrow> os_answers \<Rightarrow> launch_env" where
  "launch_env_of bd e dir pid hello a =
     \<lparr>le_plugin_library = plugin_library bd e, le_socket_path = make_socket_path dir pid,
      le_listen_ok = (oa_socket a \<ge> 0 \<and> length (make_socket_path dir pid) < sun_path_size \<and> oa_bind a = 0 \<and> oa_listen a = 0),
      le_fork_ok = (oa_fork a \<ge> 0),
      le_accept_ok = (case accept_plugin (oa_fork a) (oa_accept a) (oa_polls a) of None \<Rightarrow> False | Some conn \<Rightarrow> conn \<ge> 0),
      le_hello = hello\<rparr>"

section \<open>The descriptors refine the flags\<close>

definition agrees :: "resources \<Rightarrow> og_backend \<Rightarrow> bool" where
  "agrees r b \<longleftrightarrow> ob_channel b = (rs_channel r \<ge> 0) \<and> ob_listen_fd b = (rs_listen_fd r \<ge> 0)
     \<and> ob_socket_path b = rs_socket_path r \<and> ob_child b = (rs_child r > 0) \<and> ob_halted b = rs_halted r"

lemmas detach_os_defs = detach_os_def detach_channel_def detach_listener_def detach_path_def

lemma detach_agrees: "agrees r b \<Longrightarrow> agrees (detach_os r) (og_detach b)"
  by (simp add: agrees_def og_detach_def detach_os_defs Let_def)

lemma listen_on_result:
  "fst (listen_on a path s) = (if oa_socket a \<ge> 0 \<and> length path < sun_path_size \<and> oa_bind a = 0 \<and> oa_listen a = 0 then oa_socket a else -1)"
  by (simp add: listen_on_def Let_def)

lemma listen_on_ok:
  "(0 \<le> fst (listen_on a path s)) = (oa_socket a \<ge> 0 \<and> length path < sun_path_size \<and> oa_bind a = 0 \<and> oa_listen a = 0)"
  by (simp add: listen_on_result)

lemma launch_os_forked:
  assumes "plugin_library bd e \<noteq> []" and "listen_on a (make_socket_path dir pid) (rs_os r) = (fd, s)" and "fd \<ge> 0" and "oa_fork a > 0"
    and "r2 = r\<lparr>rs_socket_path := make_socket_path dir pid, rs_listen_fd := fd, rs_os := s, rs_child := oa_fork a\<rparr>"
  shows "launch_os bd e dir pid hello a r = (case accept_plugin (oa_fork a) (oa_accept a) (oa_polls a) of None \<Rightarrow> None | Some conn \<Rightarrow>
     let r3 = r2\<lparr>rs_channel := conn, rs_os := open_fd conn s\<rparr> in Some
      (if conn < 0 then (False, detach_os r2)
       else if (case hello of None \<Rightarrow> True | Some event \<Rightarrow> first_word event \<noteq> kEventReady) then (False, detach_os r3)
       else (True, r3\<lparr>rs_halted := True\<rparr>)))"
  using assms by (simp add: launch_os_def Let_def split: option.splits)

abbreviation bad_hello :: "string option \<Rightarrow> bool" where
  "bad_hello hello \<equiv> (case hello of None \<Rightarrow> True | Some event \<Rightarrow> first_word event \<noteq> kEventReady)"

lemma launch_forked_cases:
  assumes "launch_os bd e dir pid hello a r = Some (ok, r')"
    and "plugin_library bd e \<noteq> []" and "listen_on a (make_socket_path dir pid) (rs_os r) = (fd, s)" and "fd \<ge> 0" and "oa_fork a > 0"
    and "r2 = r\<lparr>rs_socket_path := make_socket_path dir pid, rs_listen_fd := fd, rs_os := s, rs_child := oa_fork a\<rparr>"
  obtains (no_plugin) conn where "accept_plugin (oa_fork a) (oa_accept a) (oa_polls a) = Some conn" "conn < 0" "\<not> ok" "r' = detach_os r2"
  | (bad_handshake) conn where "accept_plugin (oa_fork a) (oa_accept a) (oa_polls a) = Some conn" "conn \<ge> 0" "bad_hello hello" "\<not> ok"
      "r' = detach_os (r2\<lparr>rs_channel := conn, rs_os := open_fd conn s\<rparr>)"
  | (connected) conn where "accept_plugin (oa_fork a) (oa_accept a) (oa_polls a) = Some conn" "conn \<ge> 0" "\<not> bad_hello hello" "ok"
      "r' = r2\<lparr>rs_channel := conn, rs_os := open_fd conn s, rs_halted := True\<rparr>"
proof -
  note run = launch_os_forked [OF assms(2-6), of hello]
  obtain conn where c: "accept_plugin (oa_fork a) (oa_accept a) (oa_polls a) = Some conn"
    using assms(1) unfolding run by (cases "accept_plugin (oa_fork a) (oa_accept a) (oa_polls a)") simp_all
  consider "conn < 0" | "conn \<ge> 0" "bad_hello hello" | "conn \<ge> 0" "\<not> bad_hello hello" by linarith
  then show thesis
  proof cases
    case 1
    with c assms(1) show thesis unfolding run by (intro no_plugin) simp_all
  next
    case 2
    with c assms(1) show thesis unfolding run by (intro bad_handshake) (auto simp: Let_def)
  next
    case 3
    with c assms(1) show thesis unfolding run by (intro connected) (auto simp: Let_def)
  qed
qed

lemma launch_refined_forked:
  assumes "agrees r b" and "launch_os bd e dir pid hello a r = Some (ok, r')" and l: "listen_on a (make_socket_path dir pid) (rs_os r) = (fd, s)"
    and "plugin_library bd e \<noteq> []" and "fd \<ge> 0" and "oa_fork a > 0"
  shows "\<exists>p' b'. og_launch peer (launch_env_of bd e dir pid hello a) p b = (ok, p', b') \<and> agrees r' b'"
proof -
  let ?path = "make_socket_path dir pid"
  let ?b2 = "b\<lparr>ob_socket_path := ?path, ob_listen_fd := True, ob_child := True\<rparr>"
  let ?r2 = "r\<lparr>rs_socket_path := ?path, rs_listen_fd := fd, rs_os := s, rs_child := oa_fork a\<rparr>"
  have fd: "le_listen_ok (launch_env_of bd e dir pid hello a) = (fd \<ge> 0)"
    using listen_on_ok [of a ?path "rs_os r"] by (simp add: l launch_env_of_def)
  have r2: "agrees ?r2 ?b2" using assms(1,5,6) by (simp add: agrees_def)
  let ?b3 = "?b2\<lparr>ob_channel := True\<rparr>"
  have r3: "agrees (?r2\<lparr>rs_channel := conn, rs_os := open_fd conn s\<rparr>) ?b3" if "conn \<ge> 0" for conn
    using r2 that by (simp add: agrees_def)
  have og: "og_launch peer (launch_env_of bd e dir pid hello a) p b =
     (if conn < 0 then (False, p, og_detach ?b2)
      else if bad_hello hello then (False, p, og_detach ?b3)
      else (True, send_breakpoints peer p (?b3\<lparr>ob_halted := True\<rparr>) (ob_breakpoints b), ?b3\<lparr>ob_halted := True\<rparr>))"
    if "accept_plugin (oa_fork a) (oa_accept a) (oa_polls a) = Some conn" for conn
    using assms(4-6) fd that by (simp add: og_launch_def Let_def) (simp add: launch_env_of_def not_less)
  from assms(2) assms(4) l assms(5,6) refl show ?thesis
  proof (cases rule: launch_forked_cases)
    case (no_plugin conn)
    with og [OF no_plugin(1)] detach_agrees [OF r2] show ?thesis by simp
  next
    case (bad_handshake conn)
    with og [OF bad_handshake(1)] detach_agrees [OF r3] show ?thesis by simp
  next
    case (connected conn)
    with og [OF connected(1)] r3 [OF connected(2)] show ?thesis by (simp add: agrees_def)
  qed
qed

lemma launch_refined:
  assumes "agrees r b" and "oa_fork a \<noteq> 0" and "launch_os bd e dir pid hello a r = Some (ok, r')"
  shows "\<exists>p' b'. og_launch peer (launch_env_of bd e dir pid hello a) p b = (ok, p', b') \<and> agrees r' b'"
proof -
  let ?path = "make_socket_path dir pid"
  obtain fd s where l: "listen_on a ?path (rs_os r) = (fd, s)" by (cases "listen_on a ?path (rs_os r)")
  have fd: "le_listen_ok (launch_env_of bd e dir pid hello a) = (fd \<ge> 0)"
    using listen_on_ok [of a ?path "rs_os r"] by (simp add: l launch_env_of_def)
  let ?b2 = "b\<lparr>ob_socket_path := ?path, ob_listen_fd := True, ob_child := True\<rparr>"
  let ?r2 = "r\<lparr>rs_socket_path := ?path, rs_listen_fd := fd, rs_os := s, rs_child := oa_fork a\<rparr>"
  consider "plugin_library bd e = []" | "plugin_library bd e \<noteq> []" "fd < 0"
    | "plugin_library bd e \<noteq> []" "fd \<ge> 0" "oa_fork a < 0" | "plugin_library bd e \<noteq> []" "fd \<ge> 0" "oa_fork a > 0"
    using assms(2) by linarith
  then show ?thesis
  proof cases
    case 1
    with assms show ?thesis by (auto simp: launch_os_def og_launch_def launch_env_of_def)
  next
    case 2
    with assms(3) l have "ok = False" "r' = r\<lparr>rs_socket_path := ?path, rs_listen_fd := fd, rs_os := s\<rparr>"
      by (simp_all add: launch_os_def)
    moreover from 2 fd have "og_launch peer (launch_env_of bd e dir pid hello a) p b
        = (False, p, b\<lparr>ob_socket_path := ?path, ob_listen_fd := False\<rparr>)"
      by (simp add: og_launch_def) (simp add: launch_env_of_def)
    ultimately show ?thesis using assms(1) 2 by (simp add: agrees_def)
  next
    case 3
    with assms(3) l have "ok = False" "r' = ?r2" by (simp_all add: launch_os_def)
    moreover from 3 fd have "og_launch peer (launch_env_of bd e dir pid hello a) p b
        = (False, p, ?b2\<lparr>ob_child := False\<rparr>)"
      by (simp add: og_launch_def) (simp add: launch_env_of_def)
    ultimately show ?thesis using assms(1) 3 by (simp add: agrees_def)
  next
    case 4
    show ?thesis by (rule launch_refined_forked [OF assms(1,3) l 4])
  qed
qed

lemma accept_plugin_returns:
  "\<exists>x \<in> set polls. fst x \<noteq> 0 \<or> snd x = child \<Longrightarrow> accept_plugin child accepted polls \<noteq> None"
  by (induction child accepted polls rule: accept_plugin.induct) (auto simp: linorder_neq_iff)


section \<open>Nothing stays open\<close>

text \<open>
  What a backend holds beyond what was there before: its descriptors and the socket file at \<open>path\<close>;
  \<open>released\<close> says that nothing of it is left, at most a file that was at \<open>path\<close> before is gone.
\<close>

definition holds :: "string \<Rightarrow> os_state \<Rightarrow> resources \<Rightarrow> bool" where
  "holds path s r \<longleftrightarrow>
     open_fds s \<subseteq> open_fds (rs_os r) \<and> open_fds (rs_os r) \<subseteq> open_fds s \<union> ({rs_listen_fd r, rs_channel r} \<inter> {0..})
     \<and> {rs_listen_fd r, rs_channel r} \<inter> {0..} \<inter> open_fds s = {}
     \<and> socket_files s - {path} \<subseteq> socket_files (rs_os r)
     \<and> socket_files (rs_os r) \<subseteq> socket_files s \<union> ({rs_socket_path r} - {[]}) \<and> rs_socket_path r \<in> {[], path}"

definition released :: "string \<Rightarrow> os_state \<Rightarrow> os_state \<Rightarrow> bool" where
  "released path s s' \<longleftrightarrow> open_fds s' = open_fds s \<and> socket_files s' \<subseteq> socket_files s \<and> socket_files s - {path} \<subseteq> socket_files s'"

lemma detach_fds:
  "open_fds (rs_os (detach_os r)) = open_fds (rs_os r) - ({rs_listen_fd r, rs_channel r} \<inter> {0..})"
  "rs_listen_fd (detach_os r) < 0" "rs_channel (detach_os r) < 0"
  by (auto simp: detach_os_defs Let_def close_fd_def)

lemma detach_files:
  "socket_files (rs_os (detach_os r)) = socket_files (rs_os r) - ({rs_socket_path r} - {[]})" "rs_socket_path (detach_os r) = []"
  by (auto simp: detach_os_defs Let_def close_fd_def)

lemma detach_os_nothing: "rs_channel r < 0 \<Longrightarrow> rs_listen_fd r < 0 \<Longrightarrow> rs_socket_path r = [] \<Longrightarrow> rs_os (detach_os r) = rs_os r"
  by (simp add: detach_os_defs Let_def)

lemma detach_holds: "holds path s r \<Longrightarrow> holds path s (detach_os r)"
  using detach_fds(2,3) [of r] by (auto simp: holds_def detach_fds(1) detach_files)

lemma detach_releases: "holds path s r \<Longrightarrow> released path s (rs_os (detach_os r))"
  by (auto simp: holds_def released_def detach_fds(1) detach_files)

lemma make_socket_path_not_Nil: "make_socket_path dir pid \<noteq> []"
  by (simp add: make_socket_path_def Let_def)

lemma listen_on_state:
  assumes "listen_on a path s = (fd, s')" and "oa_socket a \<notin> open_fds s"
  shows "open_fds s' = open_fds s \<union> ({fd} \<inter> {0..})" "socket_files s - {path} \<subseteq> socket_files s'"
    "socket_files s' \<subseteq> insert path (socket_files s)" "fd < 0 \<or> fd = oa_socket a"
  using assms by (auto simp: listen_on_def Let_def open_fd_def close_fd_def split: if_splits)

lemma accept_plugin_result: "accept_plugin child accepted polls = Some conn \<Longrightarrow> conn = accepted \<or> conn = -1"
  by (induction child accepted polls rule: accept_plugin.induct) (auto split: if_splits)

lemma launch_holds:
  assumes "launch_os bd e dir pid hello a (no_resources s) = Some (ok, r')"
    and "oa_socket a \<notin> open_fds s" and "oa_accept a \<notin> open_fds s"
  shows "holds (make_socket_path dir pid) s r'"
proof -
  let ?path = "make_socket_path dir pid" and ?r = "no_resources s"
  obtain fd t where l: "listen_on a ?path s = (fd, t)" by (cases "listen_on a ?path s")
  let ?r1 = "?r\<lparr>rs_socket_path := ?path, rs_listen_fd := fd, rs_os := t\<rparr>"
  let ?r2 = "?r1\<lparr>rs_child := oa_fork a\<rparr>" and ?r3 = "\<lambda>conn. ?r1\<lparr>rs_child := oa_fork a, rs_channel := conn, rs_os := open_fd conn t\<rparr>"
  have r: "holds ?path s ?r" by (simp add: holds_def no_resources_def)
  have r1: "holds ?path s ?r1" "holds ?path s ?r2"
    using listen_on_state [OF l assms(2)] assms(2) make_socket_path_not_Nil [of dir pid]
    by (auto simp: holds_def no_resources_def)
  have r3: "holds ?path s (?r3 conn)" if "accept_plugin (oa_fork a) (oa_accept a) (oa_polls a) = Some conn" "\<not> conn < 0" for conn
  proof -
    have "conn = oa_accept a" using accept_plugin_result [OF that(1)] that(2) by auto
    with r1(2) that(2) assms(3) show ?thesis by (auto simp: holds_def open_fd_def no_resources_def)
  qed
  have r4: "holds ?path s (?r3 conn\<lparr>rs_halted := True\<rparr>)"
    if "accept_plugin (oa_fork a) (oa_accept a) (oa_polls a) = Some conn" "\<not> conn < 0" for conn
    using r3 [OF that] by (simp add: holds_def)
  show ?thesis
    using assms(1) l r r1 detach_holds [OF r1(2)] detach_holds [OF r3] r4
    by (auto simp: launch_os_def Let_def no_resources_def split: if_splits option.splits)
qed

text \<open>
  C11.  No launch leaks: whether it succeeds, fails or stops half way, from a fresh backend, detaching (which the
  destructor does) afterwards leaves open exactly the descriptors that were open before and no socket file of its
  own.  A launch that fails after the fork has already released everything itself.
\<close>

theorem launch_then_detach_releases:
  assumes "launch_os bd e dir pid hello a (no_resources s) = Some (ok, r)"
    and "oa_socket a \<notin> open_fds s" and "oa_accept a \<notin> open_fds s"
  shows "released (make_socket_path dir pid) s (rs_os (detach_os r))
    \<and> (\<not> ok \<and> le_listen_ok (launch_env_of bd e dir pid hello a) \<and> oa_fork a > 0 \<and> plugin_library bd e \<noteq> []
        \<longrightarrow> released (make_socket_path dir pid) s (rs_os r))"
proof -
  have r: "holds (make_socket_path dir pid) s r" by (rule launch_holds [OF assms])
  have early: "rs_os (detach_os r) = rs_os r"
    if "\<not> ok" "le_listen_ok (launch_env_of bd e dir pid hello a)" "oa_fork a > 0" "plugin_library bd e \<noteq> []"
  proof -
    obtain fd t where l: "listen_on a (make_socket_path dir pid) s = (fd, t)" by (cases "listen_on a (make_socket_path dir pid) s")
    with that(2) listen_on_ok [of a "make_socket_path dir pid" s] have "fd \<ge> 0" by (simp add: launch_env_of_def)
    have "listen_on a (make_socket_path dir pid) (rs_os (no_resources s)) = (fd, t)" using l by (simp add: no_resources_def)
    from assms(1) that(4) this \<open>fd \<ge> 0\<close> that(3) refl have "\<exists>q. r = detach_os q"
    proof (cases rule: launch_forked_cases)
      case (connected conn)
      with that(1) show ?thesis by simp
    qed blast+
    then obtain q where "r = detach_os q" by blast
    then show ?thesis by (simp add: detach_os_nothing detach_fds(2,3) detach_files(2))
  qed
  show ?thesis using detach_releases [OF r] by (auto simp: early)
qed

section \<open>The plugin reaches the debugger\<close>

text \<open>
  C9.  The two halves meet: on a system where the calls succeed and the host program, after any number of polls,
  loads the plugin in the environment \<^verbatim>\<open>exec_host\<close> gives it, where a connection succeeds exactly to the sockets
  that exist, the plugin finds the debugger's socket and says \<^verbatim>\<open>ready\<close>, and the launch succeeds with the
  backend halted on the accepted connection.  Whatever was preloaded stays preloaded, after Oclgrind.
\<close>

theorem plugin_reaches_debugger:
  assumes "plugin_library bd e \<noteq> []" and "length (make_socket_path dir pid) < sun_path_size"
    and "oa_socket a \<ge> 0" and "oa_bind a = 0" and "oa_listen a = 0" and "oa_fork a > 0" and "oa_accept a \<ge> 0"
    and "oa_polls a = replicate n (0, 0) @ (1, 0) # rest" and "sock \<ge> 0"
    and "\<And>q. conn q = 0 \<longleftrightarrow> q \<in> socket_files (snd (listen_on a (make_socket_path dir pid) s))"
    and "exec_host bd (make_socket_path dir pid) e binary args True = Inr (host_env, binary, argv)"
    and "debug_plugin (connect_to_debugger sock conn host_env) = (pl, hello)"
  shows "(\<exists>r. launch_os bd e dir pid hello a (no_resources s) = Some (True, r) \<and> rs_halted r \<and> rs_channel r = oa_accept a)
    \<and> channel_valid pl \<and> launch_succeeds (launch_env_of bd e dir pid hello a)
    \<and> host_env ''OCLGRIND_PLUGINS'' = Some (plugin_library bd e)
    \<and> (\<forall>old. e ''LD_PRELOAD'' = Some old \<and> old \<noteq> [] \<longrightarrow>
        host_env ''LD_PRELOAD'' = Some (oclgrind_lib_dir bd e @ ''/liboclgrind-rt.so'' @ '':'' @ old))"
proof -
  let ?path = "make_socket_path dir pid"
  obtain fd t where l: "listen_on a ?path s = (fd, t)" by (cases "listen_on a ?path s")
  then have fd: "fd = oa_socket a" "?path \<in> socket_files t"
    using assms(2-5) by (auto simp: listen_on_def Let_def)
  have env: "host_env kSocketEnvVar = Some ?path" "host_env ''OCLGRIND_PLUGINS'' = Some (plugin_library bd e)"
    "e ''LD_PRELOAD'' = Some old \<Longrightarrow> old \<noteq> [] \<Longrightarrow>
      host_env ''LD_PRELOAD'' = Some (oclgrind_lib_dir bd e @ ''/liboclgrind-rt.so'' @ '':'' @ old)" for old
    using assms(11) by (auto simp: exec_host_def host_environ_def Let_def kSocketEnvVar_def plugin_library_def prepend_path_def)
  have "connect_to_debugger sock conn host_env = sock"
    using assms(2,9) assms(10) [of ?path] l fd(2) env(1) by (simp add: connect_to_debugger_def)
  then have pl: "channel_valid pl" "hello = Some kEventReady"
    using assms(9,12) by (auto simp: debug_plugin_def Let_def new_plugin_def)
  have "accept_plugin child (oa_accept a) (replicate n (0, 0) @ (1, 0) # rest) = Some (oa_accept a)" if "child > 0" for child
    using that by (induction n) auto
  then have acc: "accept_plugin (oa_fork a) (oa_accept a) (oa_polls a) = Some (oa_accept a)" using assms(6,8) by simp
  have ready: "first_word kEventReady = kEventReady" by (simp add: first_word_plain)
  have "launch_os bd e dir pid hello a (no_resources s) = Some (True, (no_resources s)\<lparr>rs_socket_path := ?path, rs_listen_fd := fd,
      rs_child := oa_fork a, rs_channel := oa_accept a, rs_os := open_fd (oa_accept a) t, rs_halted := True\<rparr>)"
    using launch_os_forked [of bd e a dir pid "no_resources s" fd t, OF assms(1) _ _ assms(6) refl] l fd(1) assms(3,7)
    by (simp add: no_resources_def acc pl(2) ready)
  moreover have "launch_succeeds (launch_env_of bd e dir pid hello a)"
    using assms(1-7) by (simp add: launch_succeeds_def launch_env_of_def acc pl(2))
  ultimately show ?thesis using pl(1) env by auto
qed

section \<open>Registration of the plugin\<close>

text \<open>
  \<^verbatim>\<open>initializePlugins\<close> and \<^verbatim>\<open>releasePlugins\<close>: a plugin is its address, \<open>fresh\<close> the one \<^verbatim>\<open>new\<close> returns;
  Oclgrind keeps a list of registered plugins for each of its contexts.
\<close>

record 'c plugin_host =
  g_plugin :: "nat option"
  allocated :: "nat set"
  registered :: "'c \<Rightarrow> nat list"

definition initializePlugins :: "'c \<Rightarrow> nat \<Rightarrow> 'c plugin_host \<Rightarrow> 'c plugin_host" where
  "initializePlugins ctx fresh h = h\<lparr>g_plugin := Some fresh, allocated := insert fresh (allocated h),
     registered := (registered h)(ctx := registered h ctx @ [fresh])\<rparr>"

definition releasePlugins :: "'c \<Rightarrow> 'c plugin_host \<Rightarrow> 'c plugin_host" where
  "releasePlugins ctx h = (case g_plugin h of None \<Rightarrow> h
     | Some p \<Rightarrow> h\<lparr>registered := (registered h)(ctx := removeAll p (registered h ctx)), allocated := allocated h - {p}, g_plugin := None\<rparr>)"

text \<open>Every plugin a context knows is still allocated.\<close>

definition registered_alive :: "'c plugin_host \<Rightarrow> bool" where
  "registered_alive h \<longleftrightarrow> (\<forall>c. set (registered h c) \<subseteq> allocated h)"

lemma one_context_released:
  assumes "g_plugin h = None" and "fresh \<notin> allocated h" and "registered_alive h"
  shows "releasePlugins c (initializePlugins c fresh h) = h"
proof -
  have "fresh \<notin> set (registered h c)" using assms(2,3) by (auto simp: registered_alive_def)
  with assms(1,2) show ?thesis by (simp add: releasePlugins_def initializePlugins_def removeAll_id)
qed

text \<open>
  With two contexts the second registration overwrites the only pointer: releasing the first context then deletes
  the plugin the second one still calls, and nothing releases the first plugin.
\<close>

lemma two_contexts_dangle:
  assumes "c \<noteq> d" and "p \<noteq> q" and "{p, q} \<inter> allocated h = {}" and "registered_alive h"
  defines "h' \<equiv> releasePlugins c (initializePlugins d q (initializePlugins c p h))"
  shows "\<not> registered_alive h'" and "releasePlugins d h' = h'" and "p \<in> allocated h'"
  using assms(1-3) by (auto simp: h'_def registered_alive_def releasePlugins_def initializePlugins_def dest!: spec [of _ d])

section \<open>A launch\<close>

definition demo_build :: build where
  "demo_build = \<lparr>OCLDBG_OCLGRIND_PLUGIN_PATH = ''/lib/libplugin.so'', OCLDBG_OCLGRIND_LIB_DIR = ''/opt/lib''\<rparr>"

definition demo_environ :: environ where
  "demo_environ = [''HOME'' \<mapsto> ''/root'', ''LD_PRELOAD'' \<mapsto> ''/lib/trace.so'']"

definition demo_os :: os_state where
  "demo_os = \<lparr>open_fds = {0, 1, 2}, socket_files = {''/tmp/x''}\<rparr>"

definition demo_answers :: os_answers where
  "demo_answers = \<lparr>oa_socket = 3, oa_bind = 0, oa_listen = 0, oa_fork = 42, oa_polls = [(0, 0), (0, 0), (1, 0)], oa_accept = 4\<rparr>"

lemmas demo_os_defs = demo_build_def demo_environ_def demo_os_def demo_answers_def

lemma demo_path: "make_socket_path ''/tmp'' 7 = ''/tmp/ocldbg-oclgrind-7.sock''"
  by (simp add: make_socket_path_def Let_def ends_with_def to_string_signed_def dec_of_nat.simps digit_char_def) code_simp

theorem launch_then_detach_releases_witness:
  "\<exists>r. launch_os demo_build demo_environ ''/tmp'' 7 None (demo_answers\<lparr>oa_polls := [(0, 0), (0, 42)]\<rparr>) (no_resources demo_os) = Some (False, r)
    \<and> open_fds (rs_os r) = {0, 1, 2}"
proof -
  let ?a = "demo_answers\<lparr>oa_polls := [(0, 0), (0, 42)]\<rparr>"
  obtain r where r: "launch_os demo_build demo_environ ''/tmp'' 7 None ?a (no_resources demo_os) = Some (False, r)"
    by (simp add: launch_os_def demo_path listen_on_def plugin_library_def demo_os_defs no_resources_def Let_def sun_path_size_def)
  have fresh: "oa_socket ?a \<notin> open_fds demo_os" "oa_accept ?a \<notin> open_fds demo_os" by (simp_all add: demo_os_defs)
  have cond: "\<not> False \<and> le_listen_ok (launch_env_of demo_build demo_environ ''/tmp'' 7 None ?a) \<and> oa_fork ?a > 0 \<and> plugin_library demo_build demo_environ \<noteq> []"
    by (simp add: launch_env_of_def demo_path demo_os_defs plugin_library_def sun_path_size_def)
  have "released (make_socket_path ''/tmp'' 7) demo_os (rs_os r)"
    using launch_then_detach_releases [OF r fresh] cond by blast
  then have "open_fds (rs_os r) = {0, 1, 2}" by (simp add: released_def demo_os_def)
  with r show ?thesis by blast
qed

text \<open>The host program's calls: a connection succeeds to the two socket files there are.\<close>

definition demo_connect :: "string \<Rightarrow> int" where
  "demo_connect q = (if q \<in> {''/tmp/x'', ''/tmp/ocldbg-oclgrind-7.sock''} then 0 else -1)"

theorem plugin_reaches_debugger_witness:
  "\<exists>r. launch_os demo_build demo_environ ''/tmp'' 7 (Some kEventReady) demo_answers (no_resources demo_os) = Some (True, r)
    \<and> rs_halted r \<and> rs_channel r = 4
    \<and> host_environ demo_build ''/tmp/ocldbg-oclgrind-7.sock'' demo_environ ''LD_PRELOAD'' = Some ''/opt/lib/liboclgrind-rt.so:/lib/trace.so''"
proof -
  let ?path = "make_socket_path ''/tmp'' 7" and ?env = "host_environ demo_build (make_socket_path ''/tmp'' 7) demo_environ"
  have env: "exec_host demo_build ?path demo_environ ''host'' [] True = Inr (?env, ''host'', [''host''])" by (simp add: exec_host_def)
  have lib: "plugin_library demo_build demo_environ \<noteq> []" "length ?path < sun_path_size"
    by (simp_all add: plugin_library_def demo_path demo_os_defs sun_path_size_def)
  have ok: "oa_socket demo_answers \<ge> 0" "oa_bind demo_answers = 0" "oa_listen demo_answers = 0" "oa_fork demo_answers > 0" "oa_accept demo_answers \<ge> 0"
    "oa_polls demo_answers = replicate 2 (0, 0) @ (1, 0) # []" "(5::int) \<ge> 0"
    by (simp_all add: demo_answers_def numeral_2_eq_2)
  have conn: "demo_connect q = 0 \<longleftrightarrow> q \<in> socket_files (snd (listen_on demo_answers ?path demo_os))" for q
    by (simp add: demo_connect_def listen_on_def demo_path demo_os_def demo_answers_def open_fd_def sun_path_size_def)
  have hello: "debug_plugin (connect_to_debugger 5 demo_connect ?env) = (new_plugin\<lparr>channel_valid := True\<rparr>, Some kEventReady)"
    by (simp add: debug_plugin_def connect_to_debugger_def host_environ_def kSocketEnvVar_def demo_path demo_connect_def sun_path_size_def Let_def)
  have old: "demo_environ ''LD_PRELOAD'' = Some ''/lib/trace.so''" "oclgrind_lib_dir demo_build demo_environ = ''/opt/lib''"
    by (simp_all add: demo_os_defs oclgrind_lib_dir_def)
  show ?thesis
    using plugin_reaches_debugger [OF lib ok conn env hello] old by (simp add: demo_path demo_answers_def)
qed

lemma demo_agrees: "agrees (no_resources demo_os) new_og_backend"
  by (simp add: agrees_def no_resources_def new_og_backend_def)


end
