(* ===== verification/OclgrindLockstep.thy ===== *)
theory OclgrindLockstep
  imports OclgrindEndToEnd
begin

text \<open>
  The two halves of the Oclgrind backend as what they are, two processes with a stream in each direction: each
  moves on its own, and a receive waits for the other.  The other theories see the plugin as a function from the
  line sent to the next line received (\<open>plugin_peer\<close>); here it is shown that nothing else can happen.  The
  debugger may send any line but receives after every one of them, as \<^verbatim>\<open>request\<close> and \<^verbatim>\<open>resume_with\<close> of
  \<^verbatim>\<open>OclgrindBackend.cpp\<close> do; the plugin's moves are the loop of \<^verbatim>\<open>DebugPlugin::serve\<close> and the callbacks of the
  interpreter in between.
\<close>

section \<open>Two processes\<close>

datatype plugin_place =
    Serving          \<comment> \<open>in \<^verbatim>\<open>recv\<close> of \<^verbatim>\<open>serve\<close>\<close>
  | Interpreting     \<comment> \<open>between two callbacks\<close>
  | Exited

record 'sim duplex =
  dx_sim :: 'sim
  dx_plugin :: plugin
  dx_events :: "'sim sim_event list"     \<comment> \<open>the callbacks to come\<close>
  dx_place :: plugin_place
  to_plugin :: "string list"
  to_debugger :: "string list"
  awaiting :: bool                       \<comment> \<open>the debugger is in \<^verbatim>\<open>recv\<close>\<close>
  hung_up :: bool                        \<comment> \<open>the debugger has closed the channel\<close>

text \<open>The plugin's constructor has sent \<^verbatim>\<open>ready\<close> and serves; the debugger is in its first receive.\<close>

definition connected :: "'sim \<Rightarrow> 'sim sim_event list \<Rightarrow> 'sim duplex" where
  "connected s evs = \<lparr>dx_sim = s, dx_plugin = new_plugin, dx_events = evs, dx_place = Serving,
     to_plugin = [], to_debugger = [kEventReady], awaiting = True, hung_up = False\<rparr>"

datatype move = Send string | Receive "string option" | Hang_up | Plugin

inductive moves :: "'sim oclgrind \<Rightarrow> move \<Rightarrow> 'sim duplex \<Rightarrow> 'sim duplex \<Rightarrow> bool" for og where
  send: "\<not> awaiting s \<Longrightarrow> \<not> hung_up s \<Longrightarrow>
    moves og (Send command) s (s\<lparr>to_plugin := to_plugin s @ [command], awaiting := True\<rparr>)"
| receive: "awaiting s \<Longrightarrow> to_debugger s = line # ls \<Longrightarrow>
    moves og (Receive (Some line)) s (s\<lparr>to_debugger := ls, awaiting := False\<rparr>)"
| receive_eof: "awaiting s \<Longrightarrow> to_debugger s = [] \<Longrightarrow> dx_place s = Exited \<Longrightarrow>
    moves og (Receive None) s (s\<lparr>awaiting := False\<rparr>)"
| hang_up: "\<not> awaiting s \<Longrightarrow> \<not> hung_up s \<Longrightarrow> moves og Hang_up s (s\<lparr>hung_up := True\<rparr>)"
| answer: "dx_place s = Serving \<Longrightarrow> to_plugin s = command # cs \<Longrightarrow>
    handle_command og command (dx_sim s) (dx_plugin s) = Some (Some reply, resume, sim, p) \<Longrightarrow>
    moves og Plugin s (s\<lparr>to_plugin := cs, to_debugger := to_debugger s @ [reply], dx_sim := sim, dx_plugin := p,
      dx_place := (if resume then Interpreting else Serving)\<rparr>)"
| resume: "dx_place s = Serving \<Longrightarrow> to_plugin s = command # cs \<Longrightarrow>
    handle_command og command (dx_sim s) (dx_plugin s) = Some (None, resume, sim, p) \<Longrightarrow>
    moves og Plugin s (s\<lparr>to_plugin := cs, dx_sim := sim, dx_plugin := p, dx_place := (if resume then Interpreting else Serving)\<rparr>)"
| crash: "dx_place s = Serving \<Longrightarrow> to_plugin s = command # cs \<Longrightarrow>
    handle_command og command (dx_sim s) (dx_plugin s) = None \<Longrightarrow>
    moves og Plugin s (s\<lparr>to_plugin := cs, dx_place := Exited\<rparr>)"
| debugger_gone: "dx_place s = Serving \<Longrightarrow> to_plugin s = [] \<Longrightarrow> hung_up s \<Longrightarrow>
    moves og Plugin s (s\<lparr>dx_plugin := (dx_plugin s)\<lparr>channel_valid := False\<rparr>, dx_place := Interpreting\<rparr>)"
| kernel_begins: "dx_place s = Interpreting \<Longrightarrow> dx_events s = Kernel_begin sim # evs \<Longrightarrow>
    moves og Plugin s (s\<lparr>dx_sim := sim, dx_plugin := kernelBegin (dx_plugin s), dx_events := evs\<rparr>)"
| kernel_ends: "dx_place s = Interpreting \<Longrightarrow> dx_events s = Kernel_end sim # evs \<Longrightarrow>
    moves og Plugin s (s\<lparr>dx_sim := sim, dx_plugin := kernelEnd (dx_plugin s), dx_events := evs\<rparr>)"
| passes: "dx_place s = Interpreting \<Longrightarrow> dx_events s = Instruction sim wi line # evs \<Longrightarrow>
    instruction_executed wi line (dx_plugin s) = (None, p) \<Longrightarrow>
    moves og Plugin s (s\<lparr>dx_sim := sim, dx_plugin := p, dx_events := evs\<rparr>)"
| halts: "dx_place s = Interpreting \<Longrightarrow> dx_events s = Instruction sim wi line # evs \<Longrightarrow>
    instruction_executed wi line (dx_plugin s) = (Some event, p) \<Longrightarrow>
    moves og Plugin s (s\<lparr>dx_sim := sim, dx_plugin := p, dx_events := evs, to_debugger := to_debugger s @ [event], dx_place := Serving\<rparr>)"
| exits: "dx_place s = Interpreting \<Longrightarrow> dx_events s = [] \<Longrightarrow> moves og Plugin s (s\<lparr>dx_place := Exited\<rparr>)"

inductive_cases send_cases [elim!]: "moves og (Send command) s t"
inductive_cases receive_cases [elim!]: "moves og (Receive l) s t"
inductive_cases hang_up_cases [elim!]: "moves og Hang_up s t"
inductive_cases plugin_cases: "moves og Plugin s t"

inductive run :: "'sim oclgrind \<Rightarrow> move list \<Rightarrow> 'sim duplex \<Rightarrow> 'sim duplex \<Rightarrow> bool" for og where
  run_start: "run og [] s s"
| run_move: "run og ms s t \<Longrightarrow> moves og m t u \<Longrightarrow> run og (ms @ [m]) s u"

text \<open>What the debugger sent and what it received, the answer to a line following the line.\<close>

definition sends :: "move list \<Rightarrow> string list" where
  "sends ms = concat (map (\<lambda>m. case m of Send c \<Rightarrow> [c] | _ \<Rightarrow> []) ms)"

definition receives :: "move list \<Rightarrow> string option list" where
  "receives ms = concat (map (\<lambda>m. case m of Receive l \<Rightarrow> [l] | _ \<Rightarrow> []) ms)"

lemma trace_simps [simp]:
  "sends [] = []" "receives [] = []" "sends (ms @ ns) = sends ms @ sends ns" "receives (ms @ ns) = receives ms @ receives ns"
  "sends (Send c # ms) = c # sends ms" "sends (Receive l # ms) = sends ms" "sends (Plugin # ms) = sends ms" "sends (Hang_up # ms) = sends ms"
  "receives (Send c # ms) = receives ms" "receives (Receive l # ms) = l # receives ms" "receives (Plugin # ms) = receives ms"
  "receives (Hang_up # ms) = receives ms"
  by (simp_all add: sends_def receives_def)

section \<open>Only one side can move\<close>

text \<open>
  Whose turn it is: while the debugger waits, exactly one line is on its way or the plugin is at work; while it
  does not, the plugin serves, has hung up or is gone, and nothing is on its way back.
\<close>

definition in_step :: "'sim duplex \<Rightarrow> bool" where
  "in_step s \<longleftrightarrow>
     (to_debugger s \<noteq> [] \<longrightarrow> awaiting s \<and> dx_place s = Serving \<and> to_plugin s = [] \<and> length (to_debugger s) = 1)
     \<and> (dx_place s \<noteq> Exited \<longrightarrow> to_plugin s = [] \<or> awaiting s \<and> dx_place s = Serving \<and> length (to_plugin s) = 1)
     \<and> (awaiting s \<longrightarrow> \<not> hung_up s)
     \<and> (awaiting s \<and> dx_place s = Serving \<longrightarrow> to_debugger s \<noteq> [] \<or> to_plugin s \<noteq> [])
     \<and> (\<not> awaiting s \<and> dx_place s = Interpreting \<longrightarrow> hung_up s \<and> \<not> channel_valid (dx_plugin s))"

lemma in_step_connected: "in_step (connected s evs)"
  by (simp add: in_step_def connected_def)

lemma answer_stays: "handle_command og c s p = Some (Some r, resume, s', p') \<Longrightarrow> \<not> resume"
  and no_answer_resumes: "handle_command og c s p = Some (None, resume, s', p') \<Longrightarrow> resume"
  using plugin_answers_once [of og c s p] by simp_all

lemma closed_never_halts: "\<not> channel_valid p \<Longrightarrow> instruction_executed wi line p = (None, p)"
  by (simp add: instruction_executed_def)

lemma kernel_callbacks_channel [simp]:
  "channel_valid (kernelBegin p) = channel_valid p" "channel_valid (kernelEnd p) = channel_valid p"
  by (simp_all add: kernelBegin_def kernelEnd_def)

lemma instruction_channel: "instruction_executed wi line p = (e, p') \<Longrightarrow> channel_valid p' = channel_valid p"
  by (auto simp: instruction_executed_def split: if_splits)

lemma moves_in_step: "moves og m s t \<Longrightarrow> in_step s \<Longrightarrow> in_step t"
proof (induction rule: moves.induct)
  case (send s command)
  then show ?case by (cases "dx_place s") (auto simp: in_step_def)
next
  case (answer s command cs reply resume sim p)
  with answer_stays [OF answer(3)] show ?case by (auto simp: in_step_def)
next
  case (resume s command cs resume sim p)
  with no_answer_resumes [OF resume(3)] show ?case by (auto simp: in_step_def)
next
  case (passes s sim wi line evs p)
  with instruction_channel [OF passes(3)] show ?case by (auto simp: in_step_def)
next
  case (halts s sim wi line evs event p)
  have "channel_valid (dx_plugin s)" using halts(3) by (auto simp: instruction_executed_def split: if_splits)
  with halts show ?case by (auto simp: in_step_def)
qed (auto simp: in_step_def)

lemma run_in_step: "run og ms s t \<Longrightarrow> in_step s \<Longrightarrow> in_step t"
  by (induction rule: run.induct) (auto intro: moves_in_step)

text \<open>The next line the debugger is going to receive, and the plugin's side when it does.\<close>

definition host_of :: "'sim duplex \<Rightarrow> 'sim host" where
  "host_of s = \<lparr>h_alive = (dx_place s \<noteq> Exited), h_sim = dx_sim s, h_plugin = dx_plugin s, h_events = dx_events s\<rparr>"

definition pending_answer :: "'sim oclgrind \<Rightarrow> 'sim duplex \<Rightarrow> string option \<times> 'sim host" where
  "pending_answer og s = (case to_debugger s of line # ls \<Rightarrow> (Some line, host_of s) | [] \<Rightarrow>
     (case dx_place s of
        Exited \<Rightarrow> (None, host_of s)
      | Interpreting \<Rightarrow> run_events (dx_sim s) (dx_plugin s) (dx_events s)
      | Serving \<Rightarrow> plugin_peer og (host_of s) (hd (to_plugin s))))"

lemmas pending_defs = pending_answer_def host_of_def plugin_peer_def

lemma pending_send:
  assumes "moves og (Send c) s t" "in_step s"
  shows "pending_answer og t = plugin_peer og (host_of s) c"
  using assms by (cases "dx_place s") (auto simp: pending_defs in_step_def)

lemma pending_receive:
  assumes "moves og (Receive l) s t"
  shows "pending_answer og s = (l, host_of t)"
  using assms by (auto simp: pending_defs)

lemma pending_plugin:
  assumes "moves og Plugin s t" "in_step s" "awaiting s"
  shows "pending_answer og t = pending_answer og s \<and> awaiting t"
  using assms(1)
  by (cases rule: plugin_cases) (use assms(2,3) in \<open>auto simp: pending_defs in_step_def dest: answer_stays no_answer_resumes\<close>)

lemma plugin_idle:
  assumes "moves og Plugin s t" "in_step s" "\<not> awaiting s"
  shows "hung_up s \<and> hung_up t \<and> \<not> awaiting t"
  using assms(1) by (cases rule: plugin_cases) (use assms(2,3) in \<open>auto simp: in_step_def\<close>)

fun peer_answers :: "'p peer \<Rightarrow> 'p \<Rightarrow> string list \<Rightarrow> string option list \<times> 'p" where
  "peer_answers peer p [] = ([], p)"
| "peer_answers peer p (c # cs) =
     (case peer p c of (l, p') \<Rightarrow> (case peer_answers peer p' cs of (ls, p'') \<Rightarrow> (l # ls, p'')))"

lemma peer_answers_snoc:
  "peer_answers peer p (cs @ [c]) = (case peer_answers peer p cs of (ls, q) \<Rightarrow> (case peer q c of (l, q') \<Rightarrow> (ls @ [l], q')))"
  by (induction cs arbitrary: p) (auto split: prod.splits)

lemma length_peer_answers: "length (fst (peer_answers peer p cs)) = length cs"
proof (induction cs arbitrary: p)
  case (Cons c cs)
  from Cons [of "snd (peer p c)"] show ?case by (simp add: split_beta)
qed simp

lemma lockstep_trace:
  assumes "run og ms s t" and "s = connected sim evs"
  defines "answers \<equiv> peer_answers (plugin_peer og) (new_host sim evs)"
  shows "receives ms @ (if awaiting t then [fst (pending_answer og t)] else []) = Some kEventReady # fst (answers (sends ms))
    \<and> (\<not> hung_up t \<longrightarrow> (if awaiting t then snd (pending_answer og t) else host_of t) = snd (answers (sends ms)))"
  using assms(1,2)
proof (induction rule: run.induct)
  case (run_start s)
  then show ?case by (simp add: answers_def pending_answer_def host_of_def new_host_def connected_def)
next
  case (run_move ms s t m u)
  have step: "in_step t" using run_in_step [OF run_move(1)] run_move(4) by (simp add: in_step_connected)
  note IH = run_move.IH [OF run_move.prems]
  show ?case
  proof (cases m)
    case (Send c)
    with run_move(2) have "\<not> awaiting t" "\<not> hung_up t" "awaiting u" by auto
    with IH pending_send [OF run_move(2) [unfolded Send] step] show ?thesis
      by (auto simp: Send answers_def peer_answers_snoc split: prod.splits)
  next
    case (Receive l)
    with run_move(2) have "awaiting t" "\<not> awaiting u" "hung_up u = hung_up t" by auto
    with IH pending_receive [OF run_move(2) [unfolded Receive]] show ?thesis by (simp add: Receive)
  next
    case Hang_up
    with run_move(2) have "\<not> awaiting t" "\<not> awaiting u" "hung_up u" by auto
    with IH show ?thesis by (simp add: Hang_up)
  next
    case Plugin
    show ?thesis
    proof (cases "awaiting t")
      case True
      with step have "\<not> hung_up t" by (simp add: in_step_def)
      with IH pending_plugin [OF run_move(2) [unfolded Plugin] step True] True show ?thesis by (simp add: Plugin)
    next
      case False
      with IH plugin_idle [OF run_move(2) [unfolded Plugin] step] show ?thesis by (simp add: Plugin)
    qed
  qed
qed

text \<open>
  C4.  The interleaving cannot be observed: whatever the two processes do, in whatever order, the lines the debugger
  has received are \<^verbatim>\<open>ready\<close> and then the answers, in order, that \<open>plugin_peer\<close> gives to the lines it sent, with at
  most the last one still to come; and between two exchanges the host program is in the state \<open>plugin_peer\<close> says.
\<close>

theorem lockstep_refines_peer:
  assumes "run og ms (connected sim evs) t" and "peer_answers (plugin_peer og) (new_host sim evs) (sends ms) = (answers, h)"
  shows "receives ms = take (length (receives ms)) (Some kEventReady # answers)
    \<and> length (receives ms) + (if awaiting t then 1 else 0) = 1 + length (sends ms)
    \<and> (\<not> awaiting t \<and> \<not> hung_up t \<longrightarrow> host_of t = h)"
proof -
  let ?all = "receives ms @ (if awaiting t then [fst (pending_answer og t)] else [])"
  have all: "?all = Some kEventReady # answers" "\<not> awaiting t \<and> \<not> hung_up t \<longrightarrow> host_of t = h"
    using lockstep_trace [OF assms(1) refl] by (auto simp: assms(2) split: if_splits)
  have "length answers = length (sends ms)"
    using length_peer_answers [of "plugin_peer og" "new_host sim evs" "sends ms"] by (simp add: assms(2))
  then have "length ?all = 1 + length (sends ms)" by (simp only: all(1)) simp
  then have "length (receives ms) + (if awaiting t then 1 else 0) = 1 + length (sends ms)" by (simp split: if_splits)
  moreover have "receives ms = take (length (receives ms)) (Some kEventReady # answers)" unfolding all(1) [symmetric] by simp
  ultimately show ?thesis using all(2) by blast
qed

lemma interpreting_moves:
  assumes "dx_place s = Interpreting"
  shows "\<exists>m t. moves og m s t"
proof (cases "dx_events s")
  case Nil
  with assms show ?thesis by (blast intro: exits)
next
  case (Cons e evs)
  show ?thesis
  proof (cases e)
    case (Instruction sim wi line)
    with Cons assms show ?thesis
      by (cases "instruction_executed wi line (dx_plugin s)"; cases "fst (instruction_executed wi line (dx_plugin s))")
        (auto intro: passes halts)
  qed (use Cons assms in \<open>blast intro: kernel_begins kernel_ends\<close>)+
qed

lemma awaiting_moves:
  assumes "in_step s" and "awaiting s"
  shows "\<exists>m t. moves og m s t"
proof -
  consider (line) l ls where "to_debugger s = l # ls"
    | (gone) "to_debugger s = []" "dx_place s = Exited"
    | (busy) "to_debugger s = []" "dx_place s = Interpreting"
    | (told) c cs where "to_debugger s = []" "dx_place s = Serving" "to_plugin s = c # cs"
    using assms by (cases "to_debugger s"; cases "dx_place s"; cases "to_plugin s") (auto simp: in_step_def)
  then show ?thesis
  proof cases
    case line
    with assms(2) show ?thesis by (blast intro: receive)
  next
    case gone
    with assms(2) show ?thesis by (blast intro: receive_eof)
  next
    case busy
    from interpreting_moves [OF busy(2)] show ?thesis .
  next
    case (told c cs)
    show ?thesis
    proof (cases "handle_command og c (dx_sim s) (dx_plugin s)")
      case None
      with told show ?thesis by (blast intro: crash)
    next
      case (Some r)
      then show ?thesis using told by (cases r; cases "fst r") (auto intro: answer resume)
    qed
  qed
qed

lemma plugin_unique: "moves og Plugin s t \<Longrightarrow> moves og Plugin s t' \<Longrightarrow> t' = t"
  by (elim plugin_cases) simp_all

lemma no_plugin_move: "moves og Plugin s t \<Longrightarrow> in_step s \<Longrightarrow> awaiting s \<Longrightarrow> to_debugger s = [] \<and> dx_place s \<noteq> Exited"
  by (elim plugin_cases) (auto simp: in_step_def)

lemma moves_unique:
  assumes "moves og m s t" and "moves og m' s t'" and "in_step s" and "awaiting s"
  shows "m' = m \<and> t' = t"
proof (cases m)
  case Plugin
  then have "m' = Plugin" using assms no_plugin_move [of og s t] by (cases m') auto
  with Plugin assms(1,2) show ?thesis by (auto dest: plugin_unique)
next
  case (Receive l)
  then have "m' \<noteq> Plugin" using assms no_plugin_move [of og s t'] by auto
  with Receive assms(1,2,4) show ?thesis by (cases m') auto
qed (use assms(1,4) in auto)

text \<open>
  C5.  Neither a deadlock nor a race: in every state the two processes can reach in which the debugger waits,
  exactly one move is possible, of one process to one state; while it does not wait, and has not hung up, the
  plugin cannot move, so the debugger finds everything as it left it.
\<close>

theorem one_side_moves:
  assumes "run og ms (connected sim evs) s"
  shows "(awaiting s \<longrightarrow> (\<exists>m t. \<forall>m' t'. moves og m' s t' \<longleftrightarrow> m' = m \<and> t' = t))
    \<and> (\<not> awaiting s \<and> \<not> hung_up s \<longrightarrow> \<not> (\<exists>t. moves og Plugin s t))"
proof -
  have s: "in_step s" using run_in_step [OF assms in_step_connected] .
  have "\<exists>m t. \<forall>m' t'. moves og m' s t' \<longleftrightarrow> m' = m \<and> t' = t" if "awaiting s"
    using awaiting_moves [OF s that, of og] moves_unique [OF _ _ s that, of og] by metis
  with plugin_idle [OF _ s] show ?thesis by blast
qed

section \<open>Nobody waits for ever\<close>

text \<open>What the plugin can still do before it serves again or is gone.\<close>

definition work_left :: "'sim duplex \<Rightarrow> nat" where
  "work_left s = (case dx_place s of Exited \<Rightarrow> 0 | Interpreting \<Rightarrow> 1 + length (dx_events s)
     | Serving \<Rightarrow> if to_plugin s \<noteq> [] \<or> hung_up s then 2 + length (dx_events s) else 0)"

lemma in_step_told: "in_step s \<Longrightarrow> dx_place s = Serving \<Longrightarrow> to_plugin s = c # cs \<Longrightarrow> cs = [] \<and> \<not> hung_up s"
  by (auto simp: in_step_def)

lemma in_step_working: "in_step s \<Longrightarrow> dx_place s = Interpreting \<Longrightarrow> to_plugin s = [] \<and> (hung_up s \<longrightarrow> \<not> channel_valid (dx_plugin s))"
  by (auto simp: in_step_def)

lemma halting_open: "instruction_executed wi line p = (Some event, p') \<Longrightarrow> channel_valid p"
  by (simp add: instruction_executed_def split: if_splits)

lemma plugin_works: "moves og Plugin s t \<Longrightarrow> in_step s \<Longrightarrow> work_left t < work_left s"
  by (elim plugin_cases)
    (simp_all add: work_left_def, auto dest: in_step_told in_step_working halting_open answer_stays)

lemma work_left_le: "work_left s \<le> 2 + length (dx_events s)"
  by (simp add: work_left_def split: plugin_place.split)

lemma run_append: "run og ns s' t \<Longrightarrow> run og ms s s' \<Longrightarrow> run og (ms @ ns) s t"
proof (induction rule: run.induct)
  case (run_move ns s' t m u)
  from run.run_move [OF run_move.IH [OF run_move.prems] run_move(2)] show ?case by simp
qed simp

lemma run_single: "moves og m s t \<Longrightarrow> run og [m] s t"
  using run.run_move [OF run_start] by fastforce

lemma run_plugin_first: "moves og Plugin s t \<Longrightarrow> run og (replicate n Plugin @ ms) t u \<Longrightarrow> run og (replicate (Suc n) Plugin @ ms) s u"
  using run_append [OF _ run_single] by fastforce

lemma awaiting_ends:
  assumes "in_step s" and "awaiting s"
  shows "\<exists>n l t. n \<le> work_left s \<and> run og (replicate n Plugin @ [Receive l]) s t \<and> \<not> awaiting t \<and> \<not> hung_up t"
  using assms
proof (induction "work_left s" arbitrary: s rule: less_induct)
  case less
  obtain m t where m: "moves og m s t" using awaiting_moves [OF less.prems] by blast
  show ?case
  proof (cases m)
    case (Receive l)
    with run_single [OF m] m less.prems have "run og (replicate 0 Plugin @ [Receive l]) s t" "\<not> awaiting t" "\<not> hung_up t"
      by (auto simp: in_step_def)
    then show ?thesis by blast
  next
    case Plugin
    with m have p: "moves og Plugin s t" by simp
    obtain n l u where "n \<le> work_left t" "run og (replicate n Plugin @ [Receive l]) t u" "\<not> awaiting u" "\<not> hung_up u"
      using less.hyps [OF plugin_works [OF p less.prems(1)] moves_in_step [OF p less.prems(1)]] pending_plugin [OF p less.prems] by blast
    with plugin_works [OF p less.prems(1)] run_plugin_first [OF p] show ?thesis
      by (intro exI [of _ "Suc n"] exI [of _ l] exI [of _ u]) simp
  qed (use m less.prems(2) in auto)
qed

lemma hung_up_moves:
  assumes "in_step s" and "hung_up s" and "dx_place s \<noteq> Exited"
  shows "\<exists>t. moves og Plugin s t \<and> (dx_place t = Exited \<longrightarrow> dx_events t = [])"
proof (cases "dx_place s")
  case Serving
  with assms have "to_plugin s = []" by (auto simp: in_step_def)
  show ?thesis by (rule exI, rule conjI, rule debugger_gone) (use Serving assms(2) \<open>to_plugin s = []\<close> in auto)
next
  case Interpreting
  with assms have valid: "\<not> channel_valid (dx_plugin s)" by (auto simp: in_step_def)
  show ?thesis
  proof (cases "dx_events s")
    case Nil
    show ?thesis by (rule exI, rule conjI, rule exits) (use Interpreting \<open>dx_events s = []\<close> in auto)
  next
    case (Cons e evs)
    show ?thesis
    proof (cases e)
      case (Kernel_begin sim)
      show ?thesis by (rule exI, rule conjI, rule kernel_begins) (use Kernel_begin Cons Interpreting in auto)
    next
      case (Kernel_end sim)
      show ?thesis by (rule exI, rule conjI, rule kernel_ends) (use Kernel_end Cons Interpreting in auto)
    next
      case (Instruction sim wi line)
      show ?thesis by (rule exI, rule conjI, rule passes) (use Instruction Cons Interpreting closed_never_halts [OF valid] in auto)
    qed
  qed
qed (use assms(3) in simp)

lemma hung_up_ends:
  assumes "in_step s" and "hung_up s" and "dx_place s \<noteq> Exited"
  shows "\<exists>n t. n \<le> work_left s \<and> run og (replicate n Plugin) s t \<and> dx_place t = Exited \<and> dx_events t = []"
  using assms
proof (induction "work_left s" arbitrary: s rule: less_induct)
  case less
  obtain t where p: "moves og Plugin s t" "dx_place t = Exited \<longrightarrow> dx_events t = []" using hung_up_moves [OF less.prems] by blast
  have idle: "\<not> awaiting s" using less.prems(1,2) by (auto simp: in_step_def)
  have t: "in_step t" "hung_up t" "work_left t < work_left s"
    using moves_in_step [OF p(1) less.prems(1)] plugin_idle [OF p(1) less.prems(1) idle] plugin_works [OF p(1) less.prems(1)] by auto
  show ?case
  proof (cases "dx_place t = Exited")
    case True
    with p t(3) show ?thesis using run_single [OF p(1)] by (intro exI [of _ "Suc 0"] exI [of _ t]) auto
  next
    case False
    obtain n u where "n \<le> work_left t" "run og (replicate n Plugin) t u" "dx_place u = Exited" "dx_events u = []"
      using less.hyps [OF t(3,1,2) False] by blast
    with t(3) run_plugin_first [OF p(1), of n "[]"] show ?thesis by (intro exI [of _ "Suc n"] exI [of _ u]) simp
  qed
qed

text \<open>
  C6.  Nobody waits for ever: a debugger that waits gets its line, or the end of the stream, after at most two moves
  of the plugin more than the callbacks the interpreter still has to make; and once the debugger has hung up the
  host program runs to its end, however it was halted.
\<close>

theorem nobody_waits_forever:
  assumes "run og ms (connected sim evs) s"
  shows "(awaiting s \<longrightarrow> (\<exists>n l t. n \<le> 2 + length (dx_events s) \<and> run og (replicate n Plugin @ [Receive l]) s t \<and> \<not> awaiting t))
    \<and> (hung_up s \<and> dx_place s \<noteq> Exited \<longrightarrow>
        (\<exists>n t. n \<le> 2 + length (dx_events s) \<and> run og (replicate n Plugin) s t \<and> dx_place t = Exited \<and> dx_events t = []))"
proof -
  have s: "in_step s" using run_in_step [OF assms in_step_connected] .
  show ?thesis
    using awaiting_ends [OF s, of og] hung_up_ends [OF s, of og] work_left_le [of s] by (meson order.trans)
qed

section \<open>An exchange\<close>

lemma exchange:
  assumes "in_step s" and "\<not> awaiting s" and "\<not> hung_up s"
  shows "\<exists>n l t. run og ([Send c] @ replicate n Plugin @ [Receive l]) s t \<and> in_step t \<and> \<not> awaiting t \<and> \<not> hung_up t"
proof -
  have m: "moves og (Send c) s (s\<lparr>to_plugin := to_plugin s @ [c], awaiting := True\<rparr>)" using assms(2,3) by (rule send)
  obtain n l t where "run og (replicate n Plugin @ [Receive l]) (s\<lparr>to_plugin := to_plugin s @ [c], awaiting := True\<rparr>) t"
    "\<not> awaiting t" "\<not> hung_up t"
    using awaiting_ends [OF moves_in_step [OF m assms(1)], of og] by auto
  with run_append [OF this(1) run_single [OF m]] run_in_step [OF _ assms(1)] show ?thesis by blast
qed

text \<open>A breakpoint is set and the host program resumed: \<^verbatim>\<open>ready\<close>, \<^verbatim>\<open>ok\<close> and the first hit arrive.\<close>

definition demo_lines :: "string list" where
  "demo_lines = [break_command 1 17, kCmdContinue]"

lemma demo_run:
  "\<exists>n m l l' t. run demo_og ([Receive (Some kEventReady)] @ ([Send (break_command 1 17)] @ replicate n Plugin @ [Receive l])
     @ ([Send kCmdContinue] @ replicate m Plugin @ [Receive l'])) (connected 0 demo_events) t \<and> \<not> awaiting t \<and> \<not> hung_up t"
proof -
  let ?c = "connected (0 :: nat) demo_events"
  have r: "moves demo_og (Receive (Some kEventReady)) ?c (?c\<lparr>to_debugger := [], awaiting := False\<rparr>)"
    by (rule receive) (simp_all add: connected_def)
  obtain n l t where 1: "run demo_og ([Send (break_command 1 17)] @ replicate n Plugin @ [Receive l]) (?c\<lparr>to_debugger := [], awaiting := False\<rparr>) t"
    "in_step t" "\<not> awaiting t" "\<not> hung_up t"
    using exchange [OF moves_in_step [OF r in_step_connected], of demo_og "break_command 1 17"] by (auto simp: connected_def)
  obtain m l' u where 2: "run demo_og ([Send kCmdContinue] @ replicate m Plugin @ [Receive l']) t u" "\<not> awaiting u" "\<not> hung_up u"
    using exchange [OF 1(2-4), of demo_og kCmdContinue] by blast
  from run_append [OF run_append [OF 2(1) 1(1)] run_single [OF r]] 2(2,3) show ?thesis by (metis append.assoc)
qed

lemma demo_answers:
  "\<exists>h. peer_answers (plugin_peer demo_og) (new_host 0 demo_events) demo_lines = ([Some kReplyOk, Some (stop_event (item_at 1) 17)], h) \<and> h_alive h"
  by (simp add: demo_lines_def plugin_peer_break plugin_peer_continue new_host_def new_plugin_def demo_events_def
      instruction_executed_def should_halt_def kernelBegin_def)

lemma trace_plugin [simp]: "sends (replicate n Plugin) = []" "receives (replicate n Plugin) = []"
  by (induction n) (simp_all add: sends_def receives_def)

theorem lockstep_refines_peer_witness:
  "\<exists>ms t. run demo_og ms (connected 0 demo_events) t \<and> sends ms = demo_lines
    \<and> receives ms = [Some kEventReady, Some kReplyOk, Some (stop_event (item_at 1) 17)] \<and> h_alive (host_of t)"
proof -
  obtain n m l l' t where r: "run demo_og ([Receive (Some kEventReady)] @ ([Send (break_command 1 17)] @ replicate n Plugin @ [Receive l])
      @ ([Send kCmdContinue] @ replicate m Plugin @ [Receive l'])) (connected 0 demo_events) t" "\<not> awaiting t" "\<not> hung_up t"
    using demo_run by blast
  let ?ms = "[Receive (Some kEventReady)] @ ([Send (break_command 1 17)] @ replicate n Plugin @ [Receive l])
      @ ([Send kCmdContinue] @ replicate m Plugin @ [Receive l'])"
  have ms: "sends ?ms = demo_lines" "receives ?ms = [Some kEventReady, l, l']"
    by (simp_all add: demo_lines_def)
  obtain h where h: "peer_answers (plugin_peer demo_og) (new_host 0 demo_events) demo_lines
      = ([Some kReplyOk, Some (stop_event (item_at 1) 17)], h)" "h_alive h" using demo_answers by blast
  from lockstep_refines_peer [OF r(1), unfolded ms, OF h(1)] r(2,3)
  have "[Some kEventReady, l, l'] = [Some kEventReady, Some kReplyOk, Some (stop_event (item_at 1) 17)]" "host_of t = h" by simp_all
  with r(1) ms h(2) show ?thesis by metis
qed

theorem one_side_moves_witness:
  "\<exists>m t. \<forall>m' t'. moves demo_og m' (connected 0 demo_events) t' \<longleftrightarrow> m' = m \<and> t' = t"
proof -
  have "awaiting (connected 0 demo_events)" by (simp add: connected_def)
  with one_side_moves [OF run_start, of 0 demo_events demo_og] show ?thesis by blast
qed

theorem nobody_waits_forever_witness:
  "\<exists>ms t. run demo_og ([Receive (Some kEventReady), Hang_up] @ ms) (connected 0 demo_events) t \<and> dx_place t = Exited \<and> dx_events t = []"
proof -
  let ?c = "connected (0 :: nat) demo_events"
  let ?r = "?c\<lparr>to_debugger := [], awaiting := False\<rparr>"
  have "moves demo_og (Receive (Some kEventReady)) ?c ?r" by (rule receive) (simp_all add: connected_def)
  moreover have "moves demo_og Hang_up ?r (?r\<lparr>hung_up := True\<rparr>)" by (rule hang_up) (simp_all add: connected_def)
  ultimately have h: "run demo_og ([Receive (Some kEventReady)] @ [Hang_up]) ?c (?r\<lparr>hung_up := True\<rparr>)"
    by (intro run_append [OF run_single run_single])
  have "hung_up (?r\<lparr>hung_up := True\<rparr>) \<and> dx_place (?r\<lparr>hung_up := True\<rparr>) \<noteq> Exited" by (simp add: connected_def)
  with nobody_waits_forever [OF h] obtain n t where "run demo_og (replicate n Plugin) (?r\<lparr>hung_up := True\<rparr>) t" "dx_place t = Exited" "dx_events t = []"
    by blast
  with run_append [OF this(1) h] show ?thesis by auto
qed

end
