(* ===== verification/HostArgs.thy ===== *)
theory HostArgs
  imports Prelude "HOL-Library.Monad_Syntax"
begin

text \<open>
  \<^verbatim>\<open>examples/host_runner.c\<close>, the OpenCL host program the debugger is run on: its configuration and how it is
  read from the command line and from the header of the kernel file.  Strings are C strings, without a NUL.
  Arrays of fixed length are lists, and a write past the end of one, which is undefined, makes the result
  \<open>None\<close>; \<open>runner_input_in_bounds\<close> shows that it never happens.  \<^verbatim>\<open>work_dim\<close> and \<^verbatim>\<open>num_args\<close> index these arrays
  and are natural numbers.  The arithmetic of \<^verbatim>\<open>float\<close> is the C implementation's: a record of the functions used.
\<close>

section \<open>The C library\<close>

record 'f float_ops =
  fl_strtof :: "string \<Rightarrow> 'f"
  fl_of_size :: "size_t \<Rightarrow> 'f"
  fl_times :: "'f \<Rightarrow> 'f \<Rightarrow> 'f"
  fl_zero :: 'f
  fl_one :: 'f
  fl_two :: 'f
  fl_text :: "'f \<Rightarrow> string"           \<comment> \<open>\<^verbatim>\<open>%.1f\<close>\<close>

text \<open>\<^verbatim>\<open>xs[i] = v\<close>.\<close>

definition write_at :: "'a list \<Rightarrow> nat \<Rightarrow> 'a \<Rightarrow> 'a list option" where
  "write_at xs i v = (if i < length xs then Some (xs[i := v]) else None)"

text \<open>Reading a file into a NUL-terminated buffer and using it as a string stops at the first NUL.\<close>

definition c_string :: "string \<Rightarrow> string" where
  "c_string s = takeWhile (\<lambda>c. c \<noteq> CHR 0x00) s"

lemma strtok_shorter:
  assumes "dropWhile (\<lambda>c. c \<in> D) s \<noteq> []"
  shows "length (dropWhile (\<lambda>c. c \<notin> D) (dropWhile (\<lambda>c. c \<in> D) s)) < length s"
proof -
  obtain c r where cr: "dropWhile (\<lambda>c. c \<in> D) s = c # r" using assms by (cases "dropWhile (\<lambda>c. c \<in> D) s") auto
  then have "c \<in> D \<Longrightarrow> False" using hd_dropWhile [of "\<lambda>c. c \<in> D" s] by simp
  then have "length (dropWhile (\<lambda>c. c \<notin> D) (c # r)) \<le> length r" by (auto simp: length_dropWhile_le)
  also have "\<dots> < length s" using length_dropWhile_le [of "\<lambda>c. c \<in> D" s] cr by simp
  finally show ?thesis by (simp only: cr)
qed

text \<open>All the tokens \<^verbatim>\<open>strtok\<close> gives, one call after the other.\<close>

function strtok :: "string \<Rightarrow> string \<Rightarrow> string list" where
  "strtok delims s =
     (let t = dropWhile (\<lambda>c. c \<in> set delims) s
      in if t = [] then []
         else takeWhile (\<lambda>c. c \<notin> set delims) t # strtok delims (dropWhile (\<lambda>c. c \<notin> set delims) t))"
  by pat_completeness auto

termination
  by (relation "measure (length \<circ> snd)") (auto simp only: in_measure comp_apply snd_conv intro: strtok_shorter)

declare strtok.simps [simp del]

text \<open>\<^verbatim>\<open>strtol\<close>, base 10: 0 when nothing is read, the nearest \<^verbatim>\<open>long\<close> out of range.\<close>

definition strtol :: "string \<Rightarrow> int" where
  "strtol s = (case scan_number s of None \<Rightarrow> 0
     | Some (neg, n, r) \<Rightarrow> if neg then max (- (2 ^ 63)) (- int n) else min (2 ^ 63 - 1) (int n))"

text \<open>\<^verbatim>\<open>strstr\<close>, and what follows the occurrence found.\<close>

fun after_match :: "string \<Rightarrow> string \<Rightarrow> string option" where
  "after_match p [] = (if p = [] then Some [] else None)"
| "after_match p (c # s) = (if starts_with (c # s) p then Some (drop (length p) (c # s)) else after_match p s)"

section \<open>The configuration\<close>

definition MAX_DIMS :: nat where "MAX_DIMS = 3"

definition MAX_KERNEL_ARGS :: nat where "MAX_KERNEL_ARGS = 16"

datatype arg_type = ARG_TYPE_BUFFER | ARG_TYPE_BUFFER_VAL | ARG_TYPE_BUFFER_RAMP | ARG_TYPE_INT | ARG_TYPE_FLOAT
  | ARG_TYPE_LOCAL

record 'f kernel_arg_config =
  ka_type :: arg_type
  buf_elements :: size_t
  init_val :: 'f
  ramp_scale :: 'f
  int_val :: u32                        \<comment> \<open>two's complement\<close>
  float_val :: 'f

record 'f runner_config =
  cfg_work_dim :: nat
  global_sizes :: "size_t list"
  local_sizes :: "size_t list"
  has_local_size :: bool
  num_args :: nat
  arg_configs :: "'f kernel_arg_config list"

text \<open>\<^verbatim>\<open>memset(&config, 0, sizeof(config))\<close>: all bits 0, which is \<^verbatim>\<open>ARG_TYPE_BUFFER\<close> and \<^verbatim>\<open>0.0F\<close>.\<close>

definition zero_arg :: "'f float_ops \<Rightarrow> 'f kernel_arg_config" where
  "zero_arg fl = \<lparr>ka_type = ARG_TYPE_BUFFER, buf_elements = 0, init_val = fl_zero fl, ramp_scale = fl_zero fl,
     int_val = 0, float_val = fl_zero fl\<rparr>"

definition zero_config :: "'f float_ops \<Rightarrow> 'f runner_config" where
  "zero_config fl = \<lparr>cfg_work_dim = 0, global_sizes = replicate MAX_DIMS 0, local_sizes = replicate MAX_DIMS 0,
     has_local_size = False, num_args = 0, arg_configs = replicate MAX_KERNEL_ARGS (zero_arg fl)\<rparr>"

text \<open>
  The pointers \<^verbatim>\<open>kernel_file\<close> and \<^verbatim>\<open>kernel_name\<close> of \<^verbatim>\<open>main\<close> point into two global buffers, which later flags
  overwrite, or at a text nobody writes to.
\<close>

datatype str_ptr = Null | At_kernel_name | At_kernel_file | At_text string

record 'f parse_state =
  config :: "'f runner_config"
  g_kernel_name :: string
  g_kernel_file :: string
  kernel_file :: str_ptr
  kernel_name :: str_ptr

definition initial_state :: "'f float_ops \<Rightarrow> 'f parse_state" where
  "initial_state fl = \<lparr>config = zero_config fl, g_kernel_name = [], g_kernel_file = [], kernel_file = Null, kernel_name = Null\<rparr>"

definition deref :: "'f parse_state \<Rightarrow> str_ptr \<Rightarrow> string option" where
  "deref s p = (case p of Null \<Rightarrow> None | At_kernel_name \<Rightarrow> Some (g_kernel_name s)
     | At_kernel_file \<Rightarrow> Some (g_kernel_file s) | At_text t \<Rightarrow> Some t)"

section \<open>The flags\<close>

text \<open>
  A parser of flags takes the argument at \<^verbatim>\<open>*index\<close> and the ones after it.  Its result is \<open>None\<close> for a write out of
  bounds; otherwise \<open>Some None\<close> where the code returns 0, and the state and the arguments after those it read.
\<close>

type_synonym 's parsed = "('s \<times> string list) option option"

fun store_sizes :: "nat \<Rightarrow> string list \<Rightarrow> size_t list \<Rightarrow> (nat \<times> size_t list) option" where
  "store_sizes count [] sizes = Some (count, sizes)"
| "store_sizes count (token # tokens) sizes =
     (if count < MAX_DIMS then do { sizes' \<leftarrow> write_at sizes count (strtoul token); store_sizes (Suc count) tokens sizes' }
      else Some (count, sizes))"

definition parse_sizes :: "string \<Rightarrow> size_t list \<Rightarrow> nat \<Rightarrow> (bool \<times> size_t list \<times> nat) option" where
  "parse_sizes str sizes dim = do {
     (count, sizes') \<leftarrow> store_sizes 0 (strtok '',x '' (take 127 str)) sizes;
     Some (if count = 0 then (False, sizes', dim) else (True, sizes', count)) }"

definition is_global_flag :: "string \<Rightarrow> bool" where
  "is_global_flag arg \<longleftrightarrow> arg = ''-g_size'' \<or> arg = ''-g'' \<or> arg = ''--global-size''"

definition is_local_flag :: "string \<Rightarrow> bool" where
  "is_local_flag arg \<longleftrightarrow> arg = ''-l_size'' \<or> arg = ''-l'' \<or> arg = ''--local-size''"

definition parse_size_flags :: "string \<Rightarrow> string list \<Rightarrow> 'f runner_config \<Rightarrow> 'f runner_config parsed" where
  "parse_size_flags arg rest c =
     (if is_global_flag arg then
        (case rest of
           [] \<Rightarrow> Some None
         | v # rest' \<Rightarrow> do {
             (_, sizes, dim) \<leftarrow> parse_sizes v (global_sizes c) (cfg_work_dim c);
             Some (Some (c\<lparr>global_sizes := sizes, cfg_work_dim := dim\<rparr>, rest')) })
      else if is_local_flag arg then
        (case rest of
           [] \<Rightarrow> Some None
         | v # rest' \<Rightarrow> do {
             (_, sizes, ldim) \<leftarrow> parse_sizes v (local_sizes c) 0;
             Some (Some (c\<lparr>local_sizes := sizes, has_local_size := True\<rparr>, rest')) })
      else Some None)"

definition set_kernel_name :: "string \<Rightarrow> 'f parse_state \<Rightarrow> 'f parse_state" where
  "set_kernel_name v s = s\<lparr>g_kernel_name := take 127 v, kernel_name := At_kernel_name\<rparr>"

definition set_kernel_file :: "string \<Rightarrow> 'f parse_state \<Rightarrow> 'f parse_state" where
  "set_kernel_file v s = s\<lparr>g_kernel_file := take 511 v, kernel_file := At_kernel_file\<rparr>"

definition parse_name_flags :: "string \<Rightarrow> string list \<Rightarrow> 'f parse_state \<Rightarrow> ('f parse_state \<times> string list) option" where
  "parse_name_flags arg rest s =
     (case rest of
        [] \<Rightarrow> None
      | v # rest' \<Rightarrow>
          if arg = ''-k'' \<or> arg = ''--kernel'' then Some (set_kernel_name v s, rest')
          else if arg = ''-f'' \<or> arg = ''--file'' then Some (set_kernel_file v s, rest')
          else None)"

text \<open>Fills \<^verbatim>\<open>args[num_args]\<close> field by field, and counts it.\<close>

definition push_arg :: "('f kernel_arg_config \<Rightarrow> 'f kernel_arg_config) \<Rightarrow> 'f runner_config \<Rightarrow> 'f runner_config option" where
  "push_arg f c = do {
     args \<leftarrow> write_at (arg_configs c) (num_args c) (f (arg_configs c ! num_args c));
     Some (c\<lparr>arg_configs := args, num_args := num_args c + 1\<rparr>) }"

text \<open>The loop of \<^verbatim>\<open>--buffers\<close>; \<open>n\<close> is what is left of the count.\<close>

fun push_buffers :: "nat \<Rightarrow> 'f runner_config \<Rightarrow> 'f runner_config option" where
  "push_buffers 0 c = Some c"
| "push_buffers (Suc n) c =
     (if num_args c < MAX_KERNEL_ARGS then
        do { c' \<leftarrow> push_arg (\<lambda>a. a\<lparr>ka_type := ARG_TYPE_BUFFER, buf_elements := 0\<rparr>) c; push_buffers n c' }
      else Some c)"

text \<open>The value of a flag that pushes an argument, and what is left.\<close>

definition pushed :: "string list \<Rightarrow> 'f runner_config option \<Rightarrow> 'f runner_config parsed" where
  "pushed rest pc = do { c \<leftarrow> pc; Some (Some (c, rest)) }"

definition parse_buf_spec_flags :: "'f float_ops \<Rightarrow> string \<Rightarrow> string list \<Rightarrow> 'f runner_config \<Rightarrow> 'f runner_config parsed" where
  "parse_buf_spec_flags fl arg rest c =
     (if num_args c \<ge> MAX_KERNEL_ARGS then Some None
      else if arg = ''--buffers'' \<and> length rest \<ge> 1 then
        pushed (drop 1 rest) (push_buffers (nat (strtol (rest ! 0))) c)
      else if arg = ''--arg-buf-val'' \<and> length rest \<ge> 2 then
        pushed (drop 2 rest) (push_arg (\<lambda>a. a\<lparr>ka_type := ARG_TYPE_BUFFER_VAL, buf_elements := strtoul (rest ! 0),
          init_val := fl_strtof fl (rest ! 1)\<rparr>) c)
      else if arg = ''--arg-buf-ramp'' \<and> length rest \<ge> 2 then
        pushed (drop 2 rest) (push_arg (\<lambda>a. a\<lparr>ka_type := ARG_TYPE_BUFFER_RAMP, buf_elements := strtoul (rest ! 0),
          ramp_scale := fl_strtof fl (rest ! 1)\<rparr>) c)
      else if arg = ''--arg-buf'' \<and> length rest \<ge> 1 then
        pushed (drop 1 rest) (push_arg (\<lambda>a. a\<lparr>ka_type := ARG_TYPE_BUFFER, buf_elements := strtoul (rest ! 0)\<rparr>) c)
      else Some None)"

definition parse_scalar_spec_flags :: "'f float_ops \<Rightarrow> string \<Rightarrow> string list \<Rightarrow> 'f runner_config \<Rightarrow> 'f runner_config parsed" where
  "parse_scalar_spec_flags fl arg rest c =
     (if num_args c \<ge> MAX_KERNEL_ARGS then Some None
      else case rest of
        [] \<Rightarrow> Some None
      | v # rest' \<Rightarrow>
          if arg = ''--arg-int'' \<or> arg = ''--scalar-int'' then
            pushed rest' (push_arg (\<lambda>a. a\<lparr>ka_type := ARG_TYPE_INT, int_val := word_of_int (strtol v)\<rparr>) c)
          else if arg = ''--arg-float'' then
            pushed rest' (push_arg (\<lambda>a. a\<lparr>ka_type := ARG_TYPE_FLOAT, float_val := fl_strtof fl v\<rparr>) c)
          else if arg = ''--arg-local'' then
            pushed rest' (push_arg (\<lambda>a. a\<lparr>ka_type := ARG_TYPE_LOCAL, buf_elements := strtoul v\<rparr>) c)
          else Some None)"

definition parse_arg_spec_flags :: "'f float_ops \<Rightarrow> string \<Rightarrow> string list \<Rightarrow> 'f runner_config \<Rightarrow> 'f runner_config parsed" where
  "parse_arg_spec_flags fl arg rest c = do {
     r \<leftarrow> parse_buf_spec_flags fl arg rest c;
     (case r of Some x \<Rightarrow> Some (Some x) | None \<Rightarrow> parse_scalar_spec_flags fl arg rest c) }"

text \<open>A parser of the configuration, on the whole state.\<close>

definition on_config :: "'f parse_state \<Rightarrow> 'f runner_config parsed \<Rightarrow> 'f parse_state parsed" where
  "on_config s = map_option (map_option (\<lambda>(c, rest). (s\<lparr>config := c\<rparr>, rest)))"

definition parse_positional :: "string \<Rightarrow> 'f parse_state \<Rightarrow> 'f parse_state" where
  "parse_positional arg s =
     (if arg \<noteq> [] \<and> hd arg = CHR ''-'' then s
      else if kernel_file s = Null then set_kernel_file arg s
      else if kernel_name s = Null then set_kernel_name arg s
      else s)"

text \<open>One turn of the loop of \<^verbatim>\<open>parse_arg_tokens\<close>.\<close>

definition parse_token :: "'f float_ops \<Rightarrow> string \<Rightarrow> string list \<Rightarrow> 'f parse_state \<Rightarrow> ('f parse_state \<times> string list) option" where
  "parse_token fl arg rest s = do {
     r \<leftarrow> on_config s (parse_size_flags arg rest (config s));
     (case r of
        Some x \<Rightarrow> Some x
      | None \<Rightarrow> (case parse_name_flags arg rest s of
          Some x \<Rightarrow> Some x
        | None \<Rightarrow> do {
            q \<leftarrow> on_config s (parse_arg_spec_flags fl arg rest (config s));
            Some (case q of Some x \<Rightarrow> x | None \<Rightarrow> (parse_positional arg s, rest)) })) }"

lemma parse_size_flags_shorter: "parse_size_flags arg rest c = Some (Some (c', r)) \<Longrightarrow> length r \<le> length rest"
  by (cases rest) (auto simp: parse_size_flags_def bind_eq_Some_conv split: if_split_asm)

lemma parse_name_flags_shorter: "parse_name_flags arg rest s = Some (s', r) \<Longrightarrow> length r \<le> length rest"
  by (cases rest) (force simp: parse_name_flags_def split: if_split_asm)+

lemma pushed_Some: "pushed rest pc = Some (Some (c, r)) \<longleftrightarrow> pc = Some c \<and> r = rest"
  by (auto simp: pushed_def bind_eq_Some_conv)

lemma parse_buf_spec_flags_shorter: "parse_buf_spec_flags fl arg rest c = Some (Some (c', r)) \<Longrightarrow> length r \<le> length rest"
  by (auto simp: parse_buf_spec_flags_def pushed_Some split: if_split_asm)

lemma parse_scalar_spec_flags_shorter: "parse_scalar_spec_flags fl arg rest c = Some (Some (c', r)) \<Longrightarrow> length r \<le> length rest"
  by (cases rest) (force simp: parse_scalar_spec_flags_def pushed_Some split: if_split_asm)+

lemma parse_arg_spec_flags_shorter: "parse_arg_spec_flags fl arg rest c = Some (Some (c', r)) \<Longrightarrow> length r \<le> length rest"
  by (auto simp: parse_arg_spec_flags_def bind_eq_Some_conv split: option.splits
      dest: parse_buf_spec_flags_shorter parse_scalar_spec_flags_shorter)

lemma on_config_Some: "on_config s p = Some (Some (s', r)) \<longleftrightarrow> (\<exists>c. p = Some (Some (c, r)) \<and> s' = s\<lparr>config := c\<rparr>)"
  by (auto simp: on_config_def)

lemma on_config_None: "on_config s p = Some None \<longleftrightarrow> p = Some None"
  by (auto simp: on_config_def)

lemma parse_token_shorter: "parse_token fl arg rest s = Some (s', r) \<Longrightarrow> length r \<le> length rest"
  by (auto simp: parse_token_def bind_eq_Some_conv on_config_Some on_config_None split: option.splits
      dest: parse_size_flags_shorter parse_name_flags_shorter parse_arg_spec_flags_shorter)

function parse_arg_tokens :: "'f float_ops \<Rightarrow> string list \<Rightarrow> 'f parse_state \<Rightarrow> 'f parse_state option" where
  "parse_arg_tokens fl [] s = Some s"
| "parse_arg_tokens fl (arg # rest) s =
     (case parse_token fl arg rest s of None \<Rightarrow> None | Some (s', r) \<Rightarrow> parse_arg_tokens fl r s')"
  by pat_completeness auto
termination
  by (relation "measure (length \<circ> fst \<circ> snd)") (auto dest: parse_token_shorter simp: le_imp_less_Suc)

declare parse_arg_tokens.simps(2) [simp del]

section \<open>The header of the kernel file\<close>

text \<open>The text after the directive of a line, if it has one.\<close>

fun first_pattern :: "string \<Rightarrow> string list \<Rightarrow> string option" where
  "first_pattern line_buf [] = None"
| "first_pattern line_buf (p # ps) = (case after_match p line_buf of Some r \<Rightarrow> Some r | None \<Rightarrow> first_pattern line_buf ps)"

definition filter_key :: "string \<Rightarrow> string" where
  "filter_key k = take 127 (''FLAGS['' @ k @ '']:'')"

definition extract_flag_directive :: "string \<Rightarrow> string option \<Rightarrow> string option" where
  "extract_flag_directive line_buf filter_kernel =
     (let general = first_pattern line_buf [''FLAGS:'', ''RUNNER_ARGS:'', ''CONFIG:'']
      in case filter_kernel of
           None \<Rightarrow> general
         | Some k \<Rightarrow> if k = [] then general
             else (case after_match (filter_key k) line_buf of Some r \<Rightarrow> Some r | None \<Rightarrow> general))"

definition header_space :: "char \<Rightarrow> bool" where
  "header_space c \<longleftrightarrow> c = CHR '' '' \<or> c = CHR 0x09 \<or> c = CHR 0x0D \<or> c = CHR 0x0A"

lemma next_line_shorter:
  assumes "CHR 0x0A \<in> set (dropWhile p src)"
  shows "length (drop 1 (dropWhile (\<lambda>c. c \<noteq> CHR 0x0A) (dropWhile p src))) < length src"
proof -
  have "dropWhile (\<lambda>c. c \<noteq> CHR 0x0A) (dropWhile p src) \<noteq> []" using assms by auto
  then have "length (drop 1 (dropWhile (\<lambda>c. c \<noteq> CHR 0x0A) (dropWhile p src))) < length (dropWhile (\<lambda>c. c \<noteq> CHR 0x0A) (dropWhile p src))"
    by simp
  also have "\<dots> \<le> length src" by (meson length_dropWhile_le order_trans)
  finally show ?thesis .
qed

text \<open>The loop over the lines of the header, up to the first directive.\<close>

function find_directive :: "string \<Rightarrow> string option \<Rightarrow> string option" where
  "find_directive src filter_kernel =
     (let line = dropWhile header_space src
      in if \<not> starts_with line ''//'' then None
         else case extract_flag_directive (take 511 (takeWhile (\<lambda>c. c \<noteq> CHR 0x0A) line)) filter_kernel of
           Some flag_start \<Rightarrow> Some flag_start
         | None \<Rightarrow> if CHR 0x0A \<in> set line then find_directive (drop 1 (dropWhile (\<lambda>c. c \<noteq> CHR 0x0A) line)) filter_kernel
             else None)"
  by pat_completeness auto

termination
  by (relation "measure (length \<circ> fst)") (auto simp only: in_measure comp_apply fst_conv intro: next_line_shorter)

declare find_directive.simps [simp del]

text \<open>
  The file a header names is stored in the global buffer all the same: only the pointer is a dummy.
\<close>

definition parse_flags_from_source :: "'f float_ops \<Rightarrow> string \<Rightarrow> string option \<Rightarrow> 'f parse_state \<Rightarrow> 'f parse_state option" where
  "parse_flags_from_source fl src filter_kernel s =
     (case find_directive src filter_kernel of
        None \<Rightarrow> Some s
      | Some flag_start \<Rightarrow> do {
          s' \<leftarrow> parse_arg_tokens fl (take 32 (strtok ('' '' @ [CHR 0x09, CHR 0x0D, CHR 0x0A]) flag_start)) (s\<lparr>kernel_file := Null\<rparr>);
          Some (s'\<lparr>kernel_file := kernel_file s\<rparr>) })"

section \<open>The kernel's name in the source\<close>

definition skip_ws :: "string \<Rightarrow> string" where
  "skip_ws p = dropWhile header_space p"

definition is_ident_char :: "char \<Rightarrow> bool" where
  "is_ident_char c \<longleftrightarrow> (let n = (of_char c :: nat) in
     97 \<le> n \<and> n \<le> 122 \<or> 65 \<le> n \<and> n \<le> 90 \<or> 48 \<le> n \<and> n \<le> 57 \<or> n = 95)"

text \<open>What is written to \<^verbatim>\<open>out\<close>, and whether it is a name.\<close>

definition parse_ident :: "string \<Rightarrow> nat \<Rightarrow> string \<times> bool" where
  "parse_ident p out_size = (let name = take (out_size - 1) (takeWhile is_ident_char p) in (name, name \<noteq> []))"

lemma starts_with_length: "starts_with s p \<Longrightarrow> length p \<le> length s"
  by (auto simp: starts_with_iff)

lemma after_match_shorter: "after_match p s = Some r \<Longrightarrow> length r + length p \<le> length s"
proof (induction s)
  case (Cons c s)
  show ?case
  proof (cases "starts_with (c # s) p")
    case True
    then have "r = drop (length p) (c # s)" using Cons.prems by simp
    with starts_with_length [OF True] show ?thesis by simp
  next
    case False
    with Cons show ?thesis by simp
  qed
qed (simp split: if_splits)

function extract_kernel_name_from_source :: "string \<Rightarrow> string option" where
  "extract_kernel_name_from_source p =
     (case after_match ''kernel'' p of
        None \<Rightarrow> None
      | Some k \<Rightarrow>
          let after_k = skip_ws k; ident = parse_ident (skip_ws (drop 4 after_k)) 128
          in if starts_with after_k ''void'' \<and> snd ident then Some (fst ident)
             else extract_kernel_name_from_source k)"
  by pat_completeness auto
termination
  by (relation "measure length") (auto dest: after_match_shorter)

declare extract_kernel_name_from_source.simps [simp del]

section \<open>The configuration \<^verbatim>\<open>main\<close> runs with\<close>

text \<open>From the command line, up to reading the file: the default of \<^verbatim>\<open>kernel_file\<close>.\<close>

definition default_kernel_file :: "'f parse_state \<Rightarrow> 'f parse_state" where
  "default_kernel_file s = (if kernel_file s = Null then s\<lparr>kernel_file := At_text ''examples/kernels/vector_add.cl''\<rparr> else s)"

text \<open>After reading the file: its header, if the command line gave no work size, and the name in its source.\<close>

definition complete_from_source :: "'f float_ops \<Rightarrow> string \<Rightarrow> 'f parse_state \<Rightarrow> 'f parse_state option" where
  "complete_from_source fl src s = do {
     s1 \<leftarrow> (if cfg_work_dim (config s) = 0 then parse_flags_from_source fl src (deref s (kernel_name s)) s else Some s);
     Some (if kernel_name s1 = Null then
             (case extract_kernel_name_from_source src of
                None \<Rightarrow> s1 | Some n \<Rightarrow> s1\<lparr>kernel_name := At_text n\<rparr>)
           else s1) }"

definition not_configured :: "'f parse_state \<Rightarrow> bool" where
  "not_configured s \<longleftrightarrow> cfg_work_dim (config s) = 0 \<or> kernel_name s = Null \<or> num_args (config s) = 0"

section \<open>Nothing is written out of bounds\<close>

text \<open>A computation that may be undefined returns, with a result that has \<open>P\<close>.\<close>

definition returns :: "'a option \<Rightarrow> ('a \<Rightarrow> bool) \<Rightarrow> bool" where
  "returns m P \<longleftrightarrow> (\<exists>x. m = Some x \<and> P x)"

named_theorems returns_simps

lemma returns_Some [returns_simps]: "returns (Some x) P \<longleftrightarrow> P x"
  by (simp add: returns_def)

lemma returns_None [returns_simps]: "\<not> returns None P"
  by (simp add: returns_def)

lemma returns_bind [returns_simps]: "returns (Option.bind m f) P \<longleftrightarrow> returns m (\<lambda>x. returns (f x) P)"
  by (cases m) (simp_all add: returns_simps)

lemma returns_map [returns_simps]: "returns (map_option f m) P \<longleftrightarrow> returns m (\<lambda>x. P (f x))"
  by (cases m) (simp_all add: returns_simps)

lemma returns_mono: "returns m P \<Longrightarrow> (\<And>x. m = Some x \<Longrightarrow> P x \<Longrightarrow> Q x) \<Longrightarrow> returns m Q"
  by (auto simp: returns_def)

definition config_ok :: "'f runner_config \<Rightarrow> bool" where
  "config_ok c \<longleftrightarrow> length (global_sizes c) = MAX_DIMS \<and> length (local_sizes c) = MAX_DIMS
     \<and> length (arg_configs c) = MAX_KERNEL_ARGS \<and> cfg_work_dim c \<le> MAX_DIMS \<and> num_args c \<le> MAX_KERNEL_ARGS"

definition state_ok :: "'f parse_state \<Rightarrow> bool" where
  "state_ok s \<longleftrightarrow> config_ok (config s) \<and> length (g_kernel_name s) < 128 \<and> length (g_kernel_file s) < 512"

text \<open>What a parser of flags must do: return, and keep the configuration within its arrays.\<close>

definition keeps_ok :: "'f runner_config parsed \<Rightarrow> bool" where
  "keeps_ok p \<longleftrightarrow> returns p (\<lambda>r. \<forall>x. r = Some x \<longrightarrow> config_ok (fst x))"

lemma keeps_ok_0 [simp]: "keeps_ok (Some None)"
  by (simp add: keeps_ok_def returns_simps)

lemma write_at_returns: "i < length xs \<Longrightarrow> returns (write_at xs i v) (\<lambda>ys. length ys = length xs)"
  by (simp add: write_at_def returns_simps)

lemma store_sizes_returns:
  "count \<le> MAX_DIMS \<Longrightarrow> length sizes = MAX_DIMS \<Longrightarrow>
     returns (store_sizes count ts sizes) (\<lambda>(n, ss). n \<le> MAX_DIMS \<and> length ss = MAX_DIMS)"
proof (induction count ts sizes rule: store_sizes.induct)
  case (2 count token tokens sizes)
  then show ?case by (auto simp: write_at_def returns_simps)
qed (simp add: returns_simps)

lemma parse_sizes_returns:
  "length sizes = MAX_DIMS \<Longrightarrow> dim \<le> MAX_DIMS \<Longrightarrow>
     returns (parse_sizes str sizes dim) (\<lambda>r. length (fst (snd r)) = MAX_DIMS \<and> snd (snd r) \<le> MAX_DIMS)"
  unfolding parse_sizes_def returns_bind
  by (rule returns_mono [OF store_sizes_returns]) (auto simp: returns_simps)

lemma parse_size_flags_ok: "config_ok c \<Longrightarrow> keeps_ok (parse_size_flags arg rest c)"
proof (cases rest)
  case (Cons v rest')
  assume c: "config_ok c"
  then have l: "length (global_sizes c) = MAX_DIMS" "length (local_sizes c) = MAX_DIMS" "cfg_work_dim c \<le> MAX_DIMS"
    by (simp_all add: config_ok_def)
  have "keeps_ok (do { (_, ss, d) \<leftarrow> parse_sizes v (global_sizes c) (cfg_work_dim c);
      Some (Some (c\<lparr>global_sizes := ss, cfg_work_dim := d\<rparr>, rest')) })"
    unfolding keeps_ok_def returns_bind
    by (rule returns_mono [OF parse_sizes_returns [OF l(1,3)]])
      (use c in \<open>simp add: returns_simps case_prod_beta config_ok_def\<close>)
  moreover have "keeps_ok (do { (_, ss, d) \<leftarrow> parse_sizes v (local_sizes c) 0;
      Some (Some (c\<lparr>local_sizes := ss, has_local_size := True\<rparr>, rest')) })"
    unfolding keeps_ok_def returns_bind
    by (rule returns_mono [OF parse_sizes_returns [OF l(2)]])
      (use c in \<open>simp_all add: returns_simps case_prod_beta config_ok_def\<close>)
  ultimately show ?thesis by (simp add: parse_size_flags_def Cons)
qed (simp add: parse_size_flags_def)

lemma push_arg_ok:
  "config_ok c \<Longrightarrow> num_args c < MAX_KERNEL_ARGS \<Longrightarrow> returns (push_arg f c) (\<lambda>c'. config_ok c' \<and> num_args c' = Suc (num_args c))"
  by (simp add: push_arg_def write_at_def returns_simps config_ok_def)

lemma push_buffers_ok: "config_ok c \<Longrightarrow> returns (push_buffers n c) config_ok"
proof (induction n c rule: push_buffers.induct)
  case (2 n c)
  show ?case
  proof (cases "num_args c < MAX_KERNEL_ARGS")
    case True
    then show ?thesis
      using returns_mono [OF push_arg_ok [OF 2(2) True]] 2 by (simp add: returns_simps)
  next
    case False
    with 2(2) show ?thesis by (simp add: returns_simps)
  qed
qed (simp add: returns_simps)

lemma pushed_ok: "returns pc config_ok \<Longrightarrow> keeps_ok (pushed rest pc)"
  by (simp add: keeps_ok_def pushed_def returns_simps)

lemma pushed_arg_ok: "config_ok c \<Longrightarrow> num_args c < MAX_KERNEL_ARGS \<Longrightarrow> keeps_ok (pushed rest (push_arg f c))"
  by (rule pushed_ok) (rule returns_mono [OF push_arg_ok], simp_all)

text \<open>
  The contract of the parsers of flags: they never leave more arguments than they are given, and they write nothing
  out of bounds.  Two of them tried one after the other are one again, which is how the code composes them.
\<close>

locale flag_parser =
  fixes parse :: "string \<Rightarrow> string list \<Rightarrow> 'f runner_config \<Rightarrow> 'f runner_config parsed"
  assumes parse_shorter: "parse arg rest c = Some (Some (c', r)) \<Longrightarrow> length r \<le> length rest"
    and parse_keeps: "config_ok c \<Longrightarrow> keeps_ok (parse arg rest c)"
begin

lemma on_state: "state_ok s \<Longrightarrow> returns (on_config s (parse arg rest (config s))) (\<lambda>r. \<forall>x. r = Some x \<longrightarrow> state_ok (fst x))"
  using parse_keeps [of "config s" arg rest] by (auto simp: on_config_def keeps_ok_def returns_def state_ok_def)

end

definition either_parser :: "(string \<Rightarrow> string list \<Rightarrow> 'f runner_config \<Rightarrow> 'f runner_config parsed)
    \<Rightarrow> (string \<Rightarrow> string list \<Rightarrow> 'f runner_config \<Rightarrow> 'f runner_config parsed)
    \<Rightarrow> string \<Rightarrow> string list \<Rightarrow> 'f runner_config \<Rightarrow> 'f runner_config parsed" where
  "either_parser p q arg rest c = do { r \<leftarrow> p arg rest c; (case r of Some x \<Rightarrow> Some (Some x) | None \<Rightarrow> q arg rest c) }"

locale flag_parsers = first: flag_parser p + second: flag_parser q
  for p q :: "string \<Rightarrow> string list \<Rightarrow> 'f runner_config \<Rightarrow> 'f runner_config parsed"

sublocale flag_parsers \<subseteq> either: flag_parser "either_parser p q"
proof
  show "length r \<le> length rest" if "either_parser p q arg rest c = Some (Some (c', r))" for arg rest c c' r
    using that by (auto simp: either_parser_def bind_eq_Some_conv split: option.splits
        dest: first.parse_shorter second.parse_shorter)
  show "keeps_ok (either_parser p q arg rest c)" if "config_ok c" for arg rest c
    unfolding either_parser_def keeps_ok_def returns_bind
    by (rule returns_mono [OF first.parse_keeps [OF that, unfolded keeps_ok_def]])
      (use second.parse_keeps [OF that] in \<open>auto simp: keeps_ok_def returns_simps split: option.split\<close>)
qed

interpretation size_parser: flag_parser parse_size_flags
  by unfold_locales (rule parse_size_flags_shorter parse_size_flags_ok, assumption)+

interpretation spec_parsers: flag_parsers "parse_buf_spec_flags fl" "parse_scalar_spec_flags fl" for fl
proof unfold_locales
  show "keeps_ok (parse_buf_spec_flags fl arg rest c)" if "config_ok c" for arg rest c
    using that by (auto simp: parse_buf_spec_flags_def pushed_arg_ok pushed_ok push_buffers_ok not_le)
  show "keeps_ok (parse_scalar_spec_flags fl arg rest c)" if "config_ok c" for arg rest c
    using that by (cases rest) (auto simp: parse_scalar_spec_flags_def pushed_arg_ok not_le)
qed (rule parse_buf_spec_flags_shorter parse_scalar_spec_flags_shorter, assumption)+

lemma parse_arg_spec_flags_either: "parse_arg_spec_flags fl = either_parser (parse_buf_spec_flags fl) (parse_scalar_spec_flags fl)"
  by (simp add: fun_eq_iff parse_arg_spec_flags_def either_parser_def)

lemma set_names_ok: "state_ok s \<Longrightarrow> state_ok (set_kernel_name v s)" "state_ok s \<Longrightarrow> state_ok (set_kernel_file v s)"
  by (simp_all add: state_ok_def set_kernel_name_def set_kernel_file_def)

lemma parse_name_flags_ok: "state_ok s \<Longrightarrow> parse_name_flags arg rest s = Some (s', r) \<Longrightarrow> state_ok s'"
  by (cases rest) (auto simp: parse_name_flags_def set_names_ok split: if_split_asm)

lemma parse_positional_ok: "state_ok s \<Longrightarrow> state_ok (parse_positional arg s)"
  by (simp add: parse_positional_def set_names_ok)

lemma parse_token_ok:
  assumes "state_ok s"
  shows "returns (parse_token fl arg rest s) (state_ok \<circ> fst)"
proof -
  note size = size_parser.on_state [OF assms, of arg rest]
  note spec = spec_parsers.either.on_state [OF assms, of fl arg rest, folded parse_arg_spec_flags_either]
  have tail: "returns (do { q \<leftarrow> on_config s (parse_arg_spec_flags fl arg rest (config s));
      Some (case q of Some x \<Rightarrow> x | None \<Rightarrow> (parse_positional arg s, rest)) }) (state_ok \<circ> fst)"
    unfolding returns_bind
    by (rule returns_mono [OF spec]) (auto simp: returns_simps parse_positional_ok assms split: option.split)
  show ?thesis
    unfolding parse_token_def returns_bind
    by (rule returns_mono [OF size])
      (use tail in \<open>auto simp: returns_Some dest: parse_name_flags_ok [OF assms] split: option.split\<close>)
qed

lemma parse_arg_tokens_ok: "state_ok s \<Longrightarrow> returns (parse_arg_tokens fl args s) state_ok"
proof (induction fl args s rule: parse_arg_tokens.induct)
  case (2 fl arg rest s)
  from parse_token_ok [OF 2(2), of fl arg rest] obtain s' r where
    "parse_token fl arg rest s = Some (s', r)" "state_ok s'"
    by (auto simp: returns_def)
  with 2(1) show ?case by (simp add: parse_arg_tokens.simps(2))
qed (simp add: returns_simps)

lemma kernel_file_ok: "state_ok (s\<lparr>kernel_file := p\<rparr>) \<longleftrightarrow> state_ok s"
  by (simp add: state_ok_def)

lemma parse_flags_from_source_ok: "state_ok s \<Longrightarrow> returns (parse_flags_from_source fl src f s) state_ok"
  by (auto simp: parse_flags_from_source_def returns_simps kernel_file_ok parse_arg_tokens_ok split: option.split)

lemma complete_from_source_ok: "state_ok s \<Longrightarrow> returns (complete_from_source fl src s) state_ok"
proof -
  assume s: "state_ok s"
  have "returns (if cfg_work_dim (config s) = 0 then parse_flags_from_source fl src (deref s (kernel_name s)) s else Some s) state_ok"
    using s by (simp add: parse_flags_from_source_ok returns_simps)
  then show ?thesis
    unfolding complete_from_source_def returns_bind
    by (rule returns_mono) (auto simp: returns_simps state_ok_def split: option.split)
qed

lemma initial_state_ok: "state_ok (initial_state fl)"
  by (simp add: state_ok_def initial_state_def config_ok_def zero_config_def)

text \<open>
  Whatever is on the command line and in the kernel file, reading the configuration writes nothing out of
  bounds: it is defined, at most three dimensions and sixteen arguments are counted, and the names fit their
  buffers with their NUL.
\<close>

theorem runner_input_in_bounds:
  "\<exists>s. do { s1 \<leftarrow> parse_arg_tokens fl argv (initial_state fl); complete_from_source fl src (default_kernel_file s1) } = Some s
     \<and> cfg_work_dim (config s) \<le> 3 \<and> num_args (config s) \<le> 16 \<and> length (g_kernel_name s) < 128 \<and> length (g_kernel_file s) < 512"
proof -
  have "returns (do { s1 \<leftarrow> parse_arg_tokens fl argv (initial_state fl); complete_from_source fl src (default_kernel_file s1) }) state_ok"
    unfolding returns_bind
    by (rule returns_mono [OF parse_arg_tokens_ok [OF initial_state_ok]])
      (simp add: default_kernel_file_def complete_from_source_ok kernel_file_ok)
  then show ?thesis by (simp add: returns_def state_ok_def config_ok_def MAX_DIMS_def MAX_KERNEL_ARGS_def) blast
qed

section \<open>Spelling a configuration\<close>

lemma strtok_Nil [simp]: "strtok ds [] = []"
  by (simp add: strtok.simps [of ds "[]"])

lemma strtok_delim [simp]: "d \<in> set ds \<Longrightarrow> strtok ds (d # s) = strtok ds s"
  by (simp add: strtok.simps [of ds "d # s"] strtok.simps [of ds s])

lemma strtok_word:
  assumes "w \<noteq> []" "\<forall>c \<in> set w. c \<notin> set ds" "s = [] \<or> hd s \<in> set ds"
  shows "strtok ds (w @ s) = w # strtok ds s"
proof -
  from assms(1,2) have d: "dropWhile (\<lambda>c. c \<in> set ds) (w @ s) = w @ s" by (cases w) auto
  have t: "takeWhile (\<lambda>c. c \<notin> set ds) (w @ s) = w" "dropWhile (\<lambda>c. c \<notin> set ds) (w @ s) = s"
    using assms(2,3) by (cases s; simp add: takeWhile_append2 dropWhile_append2)+
  show ?thesis using assms(1) by (simp add: strtok.simps [of ds "w @ s"] d t)
qed

lemma strtok_last [simp]: "w \<noteq> [] \<Longrightarrow> \<forall>c \<in> set w. c \<notin> set ds \<Longrightarrow> strtok ds w = [w]"
  using strtok_word [of w ds "[]"] by simp

lemma strtok_spaced:
  "CHR '' '' \<in> set ds \<Longrightarrow> \<forall>w \<in> set ws. w \<noteq> [] \<and> (\<forall>c \<in> set w. c \<notin> set ds) \<Longrightarrow> strtok ds (spaced ws) = ws"
  by (induction ws rule: spaced.induct) (simp_all add: strtok_word)

text \<open>Sizes as the usage text writes them, \<^verbatim>\<open>g0,g1,g2\<close>.\<close>

fun comma_list :: "size_t list \<Rightarrow> string" where
  "comma_list [] = []"
| "comma_list [n] = to_string n"
| "comma_list (n # m # ns) = to_string n @ CHR '','' # comma_list (m # ns)"

lemma to_string_not_delim: "\<forall>c \<in> set (to_string w). c \<notin> set '',x ''"
  using dec_of_nat_digits by (fastforce simp: to_string_def is_digit_def)

lemma strtok_comma_list: "strtok '',x '' (comma_list ns) = map to_string ns"
proof -
  have last_one: "strtok '',x '' (to_string n) = [to_string n]" for n :: size_t
    by (rule strtok_last [OF to_string_not_Nil to_string_not_delim])
  have more: "strtok '',x '' (to_string n @ CHR '','' # s) = to_string n # strtok '',x '' s" for n :: size_t and s
    using strtok_word [OF to_string_not_Nil to_string_not_delim, of "CHR '','' # s" n] by simp
  show ?thesis by (induction ns rule: comma_list.induct) (simp_all add: last_one more)
qed

lemma length_dec_of_nat: "n < 10 ^ k \<Longrightarrow> 0 < k \<Longrightarrow> length (dec_of_nat n) \<le> k"
proof (induction n arbitrary: k rule: dec_of_nat.induct)
  case (1 n)
  show ?case
  proof (cases "n < 10")
    case True
    with 1 show ?thesis by (simp add: dec_of_nat.simps [of n])
  next
    case False
    with 1(2,3) obtain k' where k: "k = Suc k'" "0 < k'" by (cases k; cases "k - 1") auto
    have "n div 10 < 10 ^ k'" using 1(2) k(1) by (simp add: div_less_iff_less_mult mult.commute)
    from 1(1) [OF False this k(2)] False k(1) show ?thesis by (simp add: dec_of_nat.simps [of n])
  qed
qed

lemma length_to_string_64: "length (to_string (w :: size_t)) \<le> 20"
  unfolding to_string_def by (rule length_dec_of_nat) (use unat_lt64 [of w] in \<open>simp_all del: unat_lt64\<close>)

lemma length_comma_list: "length (comma_list ns) \<le> 21 * length ns"
proof (induction ns rule: comma_list.induct)
  case (2 n)
  then show ?case using length_to_string_64 [of n] by simp
next
  case (3 n m ns)
  then show ?case using length_to_string_64 [of n] by simp
qed simp

lemma store_sizes_append:
  "length done + length ns \<le> MAX_DIMS \<Longrightarrow> length ns \<le> length old \<Longrightarrow>
     store_sizes (length done) (map to_string ns) (done @ old) = Some (length done + length ns, done @ ns @ drop (length ns) old)"
proof (induction ns arbitrary: "done" old)
  case (Cons n ns)
  then obtain o1 old' where o: "old = o1 # old'" by (cases old) auto
  from Cons.prems Cons.IH [of "done @ [n]" old'] o show ?case
    by (simp add: write_at_def strtoul_to_string list_update_append)
qed simp

lemma parse_sizes_comma_list:
  assumes "ns \<noteq> []" "length ns \<le> MAX_DIMS" "length old = MAX_DIMS"
  shows "parse_sizes (comma_list ns) old dim = Some (True, ns @ drop (length ns) old, length ns)"
proof -
  have "length (comma_list ns) \<le> 127" using length_comma_list [of ns] assms(2) by (simp add: MAX_DIMS_def)
  with store_sizes_append [of "[]" ns old] assms show ?thesis by (simp add: parse_sizes_def strtok_comma_list)
qed

datatype 'f host_arg = Host_buffer size_t | Host_buffer_val size_t 'f | Host_buffer_ramp size_t 'f
  | Host_int u32 | Host_float 'f | Host_local size_t

fun arg_config :: "'f float_ops \<Rightarrow> 'f host_arg \<Rightarrow> 'f kernel_arg_config" where
  "arg_config fl (Host_buffer n) = (zero_arg fl)\<lparr>ka_type := ARG_TYPE_BUFFER, buf_elements := n\<rparr>"
| "arg_config fl (Host_buffer_val n v) = (zero_arg fl)\<lparr>ka_type := ARG_TYPE_BUFFER_VAL, buf_elements := n, init_val := v\<rparr>"
| "arg_config fl (Host_buffer_ramp n v) = (zero_arg fl)\<lparr>ka_type := ARG_TYPE_BUFFER_RAMP, buf_elements := n, ramp_scale := v\<rparr>"
| "arg_config fl (Host_int i) = (zero_arg fl)\<lparr>ka_type := ARG_TYPE_INT, int_val := i\<rparr>"
| "arg_config fl (Host_float v) = (zero_arg fl)\<lparr>ka_type := ARG_TYPE_FLOAT, float_val := v\<rparr>"
| "arg_config fl (Host_local n) = (zero_arg fl)\<lparr>ka_type := ARG_TYPE_LOCAL, buf_elements := n\<rparr>"

fun spell_arg :: "('f \<Rightarrow> string) \<Rightarrow> 'f host_arg \<Rightarrow> string list" where
  "spell_arg sh (Host_buffer n) = [''--arg-buf'', to_string n]"
| "spell_arg sh (Host_buffer_val n v) = [''--arg-buf-val'', to_string n, sh v]"
| "spell_arg sh (Host_buffer_ramp n v) = [''--arg-buf-ramp'', to_string n, sh v]"
| "spell_arg sh (Host_int i) = [''--arg-int'', to_string_signed (sint i)]"
| "spell_arg sh (Host_float v) = [''--arg-float'', sh v]"
| "spell_arg sh (Host_local n) = [''--arg-local'', to_string n]"

fun floats_of :: "'f host_arg \<Rightarrow> 'f set" where
  "floats_of (Host_buffer_val n v) = {v}"
| "floats_of (Host_buffer_ramp n v) = {v}"
| "floats_of (Host_float v) = {v}"
| "floats_of _ = {}"

definition padded_to :: "nat \<Rightarrow> 'a \<Rightarrow> 'a list \<Rightarrow> 'a list" where
  "padded_to n z xs = xs @ replicate (n - length xs) z"

definition config_for :: "'f float_ops \<Rightarrow> size_t list \<Rightarrow> size_t list \<Rightarrow> 'f host_arg list \<Rightarrow> 'f runner_config" where
  "config_for fl g l args = \<lparr>cfg_work_dim = length g, global_sizes = padded_to MAX_DIMS 0 g,
     local_sizes = padded_to MAX_DIMS 0 l, has_local_size = (l \<noteq> []), num_args = length args,
     arg_configs = padded_to MAX_KERNEL_ARGS (zero_arg fl) (map (arg_config fl) args)\<rparr>"

text \<open>The sizes and arguments, after the two names.\<close>

definition spell_config :: "('f \<Rightarrow> string) \<Rightarrow> size_t list \<Rightarrow> size_t list \<Rightarrow> 'f host_arg list \<Rightarrow> string list" where
  "spell_config sh g l args = [''-g'', comma_list g] @ (if l = [] then [] else [''-l'', comma_list l])
     @ concat (map (spell_arg sh) args)"

definition spell_runner :: "('f \<Rightarrow> string) \<Rightarrow> string \<Rightarrow> string \<Rightarrow> size_t list \<Rightarrow> size_t list \<Rightarrow> 'f host_arg list \<Rightarrow> string list" where
  "spell_runner sh file name g l args = [''-f'', file, ''-k'', name] @ spell_config sh g l args"

lemma strtol_int: "word_of_int (strtol (to_string_signed (sint (i :: u32)))) = i"
proof -
  have r: "- (2 ^ 31) \<le> sint i" "sint i < 2 ^ 31" using sint_greater_eq [of i] sint_less [of i] by simp_all
  show ?thesis
  proof (cases "sint i < 0")
    case True
    have digits: "takeWhile is_digit (dec_of_nat n) = dec_of_nat n" "dropWhile is_digit (dec_of_nat n) = []" for n
      using dec_of_nat_digits [of n] by simp_all
    have "scan_number (CHR ''-'' # dec_of_nat n) = Some (True, n, [])" for n
      by (simp add: scan_number_def scan_sign_def Let_def digits)
    with True r show ?thesis by (simp add: strtol_def to_string_signed_def)
  next
    case False
    with r show ?thesis by (simp add: strtol_def to_string_signed_def scan_number_dec_Nil)
  qed
qed


text \<open>One flag at a time.\<close>

lemma not_size_flags [simp]:
  "\<not> is_global_flag (CHR ''-'' # CHR ''-'' # CHR ''a'' # cs)" "\<not> is_local_flag (CHR ''-'' # CHR ''-'' # CHR ''a'' # cs)"
  "\<not> is_global_flag ''-k''" "\<not> is_local_flag ''-k''" "\<not> is_global_flag ''-f''" "\<not> is_local_flag ''-f''"
  by (simp_all add: is_global_flag_def is_local_flag_def)

lemma parse_token_config:
  assumes "parse_size_flags arg rest (config s) = Some None" "parse_name_flags arg rest s = None"
    "parse_arg_spec_flags fl arg rest (config s) = Some (Some (c, r))"
  shows "parse_token fl arg rest s = Some (s\<lparr>config := c\<rparr>, r)"
  by (simp add: parse_token_def assms on_config_def)

lemma parse_size_flags_other: "\<not> is_global_flag arg \<Longrightarrow> \<not> is_local_flag arg \<Longrightarrow> parse_size_flags arg rest c = Some None"
  by (simp add: parse_size_flags_def)

lemma parse_size_flags_sizes:
  assumes "ns \<noteq> []" "length ns \<le> MAX_DIMS"
  shows "length (global_sizes c) = MAX_DIMS \<Longrightarrow> parse_size_flags ''-g'' (comma_list ns # rest) c
      = Some (Some (c\<lparr>global_sizes := ns @ drop (length ns) (global_sizes c), cfg_work_dim := length ns\<rparr>, rest))"
    and "length (local_sizes c) = MAX_DIMS \<Longrightarrow> parse_size_flags ''-l'' (comma_list ns # rest) c
      = Some (Some (c\<lparr>local_sizes := ns @ drop (length ns) (local_sizes c), has_local_size := True\<rparr>, rest))"
  by (simp_all add: parse_size_flags_def is_global_flag_def is_local_flag_def parse_sizes_comma_list [OF assms])

lemma parse_token_size:
  "parse_size_flags arg rest (config s) = Some (Some (c, r)) \<Longrightarrow> parse_token fl arg rest s = Some (s\<lparr>config := c\<rparr>, r)"
  by (simp add: parse_token_def on_config_def)

lemma parse_token_names:
  "parse_token fl ''-f'' (v # rest) s = Some (set_kernel_file v s, rest)"
  "parse_token fl ''-k'' (v # rest) s = Some (set_kernel_name v s, rest)"
  by (simp_all add: parse_token_def on_config_def parse_size_flags_other parse_name_flags_def)

text \<open>A configuration after some arguments, and the next one.\<close>

lemma push_arg_config_for:
  assumes "length args < MAX_KERNEL_ARGS" "f (zero_arg fl) = arg_config fl a"
  shows "push_arg f (config_for fl g l args) = Some (config_for fl g l (args @ [a]))"
proof -
  obtain k where k: "MAX_KERNEL_ARGS - length args = Suc k" "MAX_KERNEL_ARGS - Suc (length args) = k"
    using assms(1) by (cases "MAX_KERNEL_ARGS - length args") auto
  show ?thesis
    using assms by (simp add: push_arg_def write_at_def config_for_def padded_to_def k nth_append list_update_append)
qed

lemma parse_token_arg:
  assumes "length args < MAX_KERNEL_ARGS" "\<forall>v \<in> floats_of a. fl_strtof fl (sh v) = v" "config s = config_for fl g l args"
  shows "\<exists>arg r. spell_arg sh a = arg # r
    \<and> parse_token fl arg (r @ rest) s = Some (s\<lparr>config := config_for fl g l (args @ [a])\<rparr>, rest)"
proof -
  have n: "num_args (config_for fl g l args) < MAX_KERNEL_ARGS" using assms(1) by (simp add: config_for_def)
  have push: "f (zero_arg fl) = arg_config fl a \<Longrightarrow> push_arg f (config_for fl g l args) = Some (config_for fl g l (args @ [a]))" for f
    by (rule push_arg_config_for [OF assms(1)])
  note defs = parse_arg_spec_flags_def parse_buf_spec_flags_def parse_scalar_spec_flags_def parse_size_flags_other
    parse_name_flags_def pushed_def not_le strtoul_to_string strtol_int
  show ?thesis
    using assms(2) n by (cases a) (auto intro!: parse_token_config simp: defs assms(3) push)
qed

lemma parse_args_spelled:
  "length (done @ args) \<le> MAX_KERNEL_ARGS \<Longrightarrow> \<forall>a \<in> set args. \<forall>v \<in> floats_of a. fl_strtof fl (sh v) = v \<Longrightarrow>
     config s = config_for fl g l done \<Longrightarrow>
     parse_arg_tokens fl (concat (map (spell_arg sh) args)) s = Some (s\<lparr>config := config_for fl g l (done @ args)\<rparr>)"
proof (induction args arbitrary: "done" s)
  case (Cons a args)
  have len: "length done < MAX_KERNEL_ARGS" and fa: "\<forall>v \<in> floats_of a. fl_strtof fl (sh v) = v"
    using Cons.prems by auto
  from parse_token_arg [where rest = "concat (map (spell_arg sh) args)", OF len fa Cons.prems(3)] obtain arg r where
    ar: "spell_arg sh a = arg # r"
      "parse_token fl arg (r @ concat (map (spell_arg sh) args)) s
         = Some (s\<lparr>config := config_for fl g l (done @ [a])\<rparr>, concat (map (spell_arg sh) args))"
    by blast
  from Cons.prems Cons.IH [of "done @ [a]" "s\<lparr>config := config_for fl g l (done @ [a])\<rparr>"] ar show ?case
    by (simp add: parse_arg_tokens.simps(2))
qed simp

lemma padded_to_update: "length ns \<le> n \<Longrightarrow> ns @ drop (length ns) (replicate n z) = padded_to n z ns"
  by (simp add: padded_to_def)

lemma zero_config_for: "zero_config fl = config_for fl [] [] []"
  by (simp add: zero_config_def config_for_def padded_to_def)

lemma parse_config_spelled:
  assumes "g \<noteq> []" "length g \<le> MAX_DIMS" "length l \<le> MAX_DIMS" "length args \<le> MAX_KERNEL_ARGS"
    and "\<forall>a \<in> set args. \<forall>v \<in> floats_of a. fl_strtof fl (sh v) = v" and "config s = zero_config fl"
  shows "parse_arg_tokens fl (spell_config sh g l args) s = Some (s\<lparr>config := config_for fl g l args\<rparr>)"
proof -
  let ?args = "concat (map (spell_arg sh) args)"
  have g: "parse_token fl ''-g'' (comma_list g # rest) s = Some (s\<lparr>config := config_for fl g [] []\<rparr>, rest)" for rest
    by (rule parse_token_size, unfold assms(6) zero_config_for, subst parse_size_flags_sizes(1) [OF assms(1,2)])
      (simp_all add: config_for_def padded_to_def assms(2))
  have l: "l \<noteq> [] \<Longrightarrow> parse_token fl ''-l'' (comma_list l # ?args) (s\<lparr>config := config_for fl g [] []\<rparr>)
      = Some (s\<lparr>config := config_for fl g l []\<rparr>, ?args)"
    using parse_token_size [of "''-l''" "comma_list l # ?args" "s\<lparr>config := config_for fl g [] []\<rparr>" "config_for fl g l []" ?args fl]
      parse_size_flags_sizes(2) [OF _ assms(3), of "config_for fl g [] []" ?args]
    by (simp add: config_for_def padded_to_def assms(3))
  have args: "parse_arg_tokens fl ?args (s\<lparr>config := config_for fl g l []\<rparr>) = Some (s\<lparr>config := config_for fl g l args\<rparr>)"
    using parse_args_spelled [of "[]" args fl sh "s\<lparr>config := config_for fl g l []\<rparr>" g l] assms(4,5) by simp
  show ?thesis using l args by (cases "l = []") (simp_all add: spell_config_def parse_arg_tokens.simps(2) g)
qed

text \<open>
  Every configuration of the host program has a command line: at most three global and local sizes, at most
  sixteen arguments of the six kinds with their element counts and values, a kernel file and a kernel name that
  fit their buffers.  Reading the flags that spell it gives exactly this configuration back, provided
  \<^verbatim>\<open>strtof\<close> reads the spelling of each \<^verbatim>\<open>float\<close> as that \<^verbatim>\<open>float\<close>.
\<close>

theorem runner_args_roundtrip:
  assumes "g \<noteq> []" and "length g \<le> 3" and "length l \<le> 3" and "length args \<le> 16"
    and "length file < 512" and "length name < 128"
    and "\<forall>a \<in> set args. \<forall>v \<in> floats_of a. fl_strtof fl (sh v) = v"
  shows "parse_arg_tokens fl (spell_runner sh file name g l args) (initial_state fl)
    = Some \<lparr>config = config_for fl g l args, g_kernel_name = name, g_kernel_file = file,
        kernel_file = At_kernel_file, kernel_name = At_kernel_name\<rparr>"
proof -
  let ?s = "set_kernel_name name (set_kernel_file file (initial_state fl))"
  have "config ?s = zero_config fl" by (simp add: set_kernel_name_def set_kernel_file_def initial_state_def)
  from parse_config_spelled [OF assms(1) _ _ _ assms(7) this, of l] assms(2-4)
  have "parse_arg_tokens fl (spell_config sh g l args) ?s = Some (?s\<lparr>config := config_for fl g l args\<rparr>)"
    by (simp add: MAX_DIMS_def MAX_KERNEL_ARGS_def)
  with assms(5,6) show ?thesis
    by (simp add: spell_runner_def parse_arg_tokens.simps(2) parse_token_names)
      (simp add: set_kernel_name_def set_kernel_file_def initial_state_def)
qed

definition demo_floats :: "u64 float_ops" where
  "demo_floats = \<lparr>fl_strtof = strtoul, fl_of_size = (\<lambda>n. n), fl_times = (*), fl_zero = 0, fl_one = 1, fl_two = 2,
     fl_text = to_string\<rparr>"

definition demo_host_args :: "u64 host_arg list" where
  "demo_host_args = [Host_buffer 0, Host_buffer_val 0 3, Host_int (- 5), Host_local 16]"

theorem runner_args_roundtrip_witness:
  "parse_arg_tokens demo_floats (spell_runner to_string ''k.cl'' ''vec_add'' [64] [16] demo_host_args) (initial_state demo_floats)
    = Some \<lparr>config = config_for demo_floats [64] [16] demo_host_args, g_kernel_name = ''vec_add'', g_kernel_file = ''k.cl'',
        kernel_file = At_kernel_file, kernel_name = At_kernel_name\<rparr>"
  by (rule runner_args_roundtrip) (simp_all add: demo_host_args_def demo_floats_def strtoul_to_string)

section \<open>Flags in the header\<close>

lemma after_match_first:
  "\<forall>i < length pre. \<not> starts_with (drop i (pre @ p @ s)) p \<Longrightarrow> after_match p (pre @ p @ s) = Some s"
proof (induction pre)
  case Nil
  have "starts_with (p @ s) p" by simp
  moreover have "drop (length p) (p @ s) = s" by simp
  ultimately show ?case by (cases "p @ s") simp_all
next
  case (Cons c pre)
  have "\<not> starts_with (c # pre @ p @ s) p" using Cons.prems [rule_format, of 0] by simp
  moreover have "\<forall>i < length pre. \<not> starts_with (drop i (pre @ p @ s)) p"
    using Cons.prems by (metis append_Cons drop_Suc_Cons length_Cons Suc_less_eq)
  ultimately show ?case using Cons.IH by simp
qed

text \<open>The directive for the kernel asked for, or for any.\<close>

definition directive :: "string option \<Rightarrow> string" where
  "directive f = (case f of None \<Rightarrow> ''FLAGS:'' | Some k \<Rightarrow> if k = [] then ''FLAGS:'' else ''FLAGS['' @ k @ '']:'')"

lemma extract_directive:
  assumes "\<forall>k. f = Some k \<longrightarrow> length k < 120"
  shows "extract_flag_directive (''// '' @ directive f @ s) f = Some s"
proof -
  have any: "after_match (''FLAGS'' @ p) (''// '' @ (''FLAGS'' @ p) @ s) = Some s" for p
    by (rule after_match_first) (auto simp: less_Suc_eq numeral_eq_Suc starts_with_def)
  show ?thesis
  proof (cases "f = None \<or> f = Some []")
    case True
    then show ?thesis using any [of "'':''"] by (auto simp: extract_flag_directive_def directive_def)
  next
    case False
    then obtain k where k: "f = Some k" "k \<noteq> []" by auto
    with assms have "filter_key k = ''FLAGS['' @ k @ '']:''" by (simp add: filter_key_def)
    with any [of "CHR ''['' # k @ '']:''"] k show ?thesis by (simp add: extract_flag_directive_def directive_def Let_def)
  qed
qed

lemma takeWhile_newline:
  assumes "CHR 0x0A \<notin> set l"
  shows "takeWhile (\<lambda>c. c \<noteq> CHR 0x0A) (l @ CHR 0x0A # r) = l"
    "dropWhile (\<lambda>c. c \<noteq> CHR 0x0A) (l @ CHR 0x0A # r) = CHR 0x0A # r"
  using assms by (induction l) auto

lemma find_directive_here:
  assumes "extract_flag_directive line f = Some r" "starts_with line ''//''" "length line < 512" "CHR 0x0A \<notin> set line"
  shows "find_directive (line @ CHR 0x0A # rest) f = Some r"
proof -
  obtain l where l: "line = CHR ''/'' # CHR ''/'' # l" using assms(2) by (auto simp: starts_with_iff)
  then have d: "dropWhile header_space (line @ CHR 0x0A # rest) = line @ CHR 0x0A # rest" by (simp add: header_space_def)
  have t: "takeWhile (\<lambda>c. c \<noteq> CHR 0x0A) (line @ CHR 0x0A # rest) = line"
    by (rule takeWhile_newline(1) [OF assms(4)])
  have s: "starts_with (line @ CHR 0x0A # rest) ''//''" using l by (simp add: starts_with_def)
  show ?thesis using assms(1,3) by (simp add: find_directive.simps [of "line @ CHR 0x0A # rest"] d t s Let_def)
qed

text \<open>A comment line without a directive.\<close>

definition plain_comment :: "string option \<Rightarrow> string \<Rightarrow> bool" where
  "plain_comment f c \<longleftrightarrow> starts_with c ''//'' \<and> CHR 0x0A \<notin> set c \<and> extract_flag_directive (take 511 c) f = None"

lemma find_directive_comment:
  assumes "plain_comment f c"
  shows "find_directive (c @ CHR 0x0A # src) f = find_directive src f"
proof -
  obtain l where l: "c = CHR ''/'' # CHR ''/'' # l" using assms by (auto simp: plain_comment_def starts_with_iff)
  then have d: "dropWhile header_space (c @ CHR 0x0A # src) = c @ CHR 0x0A # src" by (simp add: header_space_def)
  have t: "takeWhile (\<lambda>x. x \<noteq> CHR 0x0A) (c @ CHR 0x0A # src) = c" "dropWhile (\<lambda>x. x \<noteq> CHR 0x0A) (c @ CHR 0x0A # src) = CHR 0x0A # src"
    using assms by (simp_all add: plain_comment_def takeWhile_newline)
  have s: "starts_with (c @ CHR 0x0A # src) ''//''" using l by (simp add: starts_with_def)
  show ?thesis using assms by (simp add: find_directive.simps [of "c @ CHR 0x0A # src"] d t s Let_def plain_comment_def)
qed

lemma find_directive_comments:
  "\<forall>c \<in> set comments. plain_comment f c \<Longrightarrow> find_directive (concat (map (\<lambda>c. c @ [CHR 0x0A]) comments) @ src) f = find_directive src f"
  by (induction comments) (simp_all add: find_directive_comment)

text \<open>A word of a header line.\<close>

definition header_word :: "string \<Rightarrow> bool" where
  "header_word w \<longleftrightarrow> w \<noteq> [] \<and> (\<forall>c \<in> set w. \<not> header_space c)"

lemma header_line:
  assumes "\<forall>c \<in> set comments. plain_comment f c"
    and "\<forall>w \<in> set ws. header_word w" and "length ws \<le> 32"
    and "\<forall>k. f = Some k \<longrightarrow> length k < 120 \<and> CHR 0x0A \<notin> set k"
    and "line = ''// '' @ directive f @ '' '' @ spaced ws" and "length line < 512"
  shows "parse_flags_from_source fl (concat (map (\<lambda>c. c @ [CHR 0x0A]) comments) @ line @ [CHR 0x0A] @ rest) f s
    = map_option (\<lambda>t. t\<lparr>kernel_file := kernel_file s\<rparr>) (parse_arg_tokens fl ws (s\<lparr>kernel_file := Null\<rparr>))"
proof -
  have found: "extract_flag_directive line f = Some ('' '' @ spaced ws)"
    unfolding assms(5) by (rule extract_directive) (use assms(4) in blast)
  have "CHR 0x0A \<notin> set (spaced ws)"
    by (rule newline_notin_spaced) (use assms(2) in \<open>auto simp: header_word_def header_space_def\<close>)
  moreover have "CHR 0x0A \<notin> set (directive f)" using assms(4) by (auto simp: directive_def split: option.split)
  ultimately have "CHR 0x0A \<notin> set line" by (simp add: assms(5))
  with found assms(6) have here: "find_directive (line @ CHR 0x0A # rest) f = Some ('' '' @ spaced ws)"
    by (intro find_directive_here) (simp_all add: assms(5) starts_with_def)
  have "strtok ('' '' @ [CHR 0x09, CHR 0x0D, CHR 0x0A]) (spaced ws) = ws"
    by (rule strtok_spaced) (use assms(2) in \<open>auto simp: header_word_def header_space_def\<close>)
  with assms(3) show ?thesis
    by (simp add: parse_flags_from_source_def find_directive_comments [OF assms(1)] here)
      (simp add: map_option_case Option.bind_def split: option.split)
qed

text \<open>
  C40.  Flags in the kernel file's header mean what they mean on the command line: after any comment lines without
  a directive, the line \<^verbatim>\<open>// FLAGS: w1 ... wn\<close> (or \<^verbatim>\<open>// FLAGS[k]: w1 ... wn\<close> when the kernel \<^verbatim>\<open>k\<close> is asked for) of
  up to 511 characters and 32 words has the effect of the arguments \<^verbatim>\<open>w1 ... wn\<close>, whatever follows the line,
  except that it cannot change which file was asked for.
\<close>

theorem header_flags_as_typed:
  assumes "\<forall>c \<in> set comments. plain_comment f c"
    and "\<forall>w \<in> set ws. header_word w" and "length ws \<le> 32"
    and "\<forall>k. f = Some k \<longrightarrow> length k < 120 \<and> CHR 0x0A \<notin> set k"
    and "line = ''// '' @ directive f @ '' '' @ spaced ws" and "length line < 512"
  shows "parse_flags_from_source fl (concat (map (\<lambda>c. c @ [CHR 0x0A]) comments) @ line @ [CHR 0x0A] @ rest) f s
    = map_option (\<lambda>t. t\<lparr>kernel_file := kernel_file s\<rparr>) (parse_arg_tokens fl ws (s\<lparr>kernel_file := Null\<rparr>))"
  using assms by (rule header_line)

theorem header_flags_as_typed_witness:
  "parse_flags_from_source demo_floats
      (concat (map (\<lambda>c. c @ [CHR 0x0A]) [''// copy'']) @ ''// FLAGS[cp]: -g 64 --buffers 2'' @ [CHR 0x0A] @ ''kernel void cp() {}'')
      (Some ''cp'') (set_kernel_file ''copy.cl'' (set_kernel_name ''cp'' (initial_state demo_floats)))
    = map_option (\<lambda>t. t\<lparr>kernel_file := At_kernel_file\<rparr>) (parse_arg_tokens demo_floats [''-g'', ''64'', ''--buffers'', ''2'']
        ((set_kernel_file ''copy.cl'' (set_kernel_name ''cp'' (initial_state demo_floats)))\<lparr>kernel_file := Null\<rparr>))"
proof -
  have line: "''// FLAGS[cp]: -g 64 --buffers 2'' = ''// '' @ directive (Some ''cp'') @ '' '' @ spaced [''-g'', ''64'', ''--buffers'', ''2'']"
    by (simp add: directive_def)
  have comment: "\<forall>c \<in> set [''// copy'']. plain_comment (Some ''cp'') c"
    by (simp add: plain_comment_def extract_flag_directive_def filter_key_def starts_with_def)
  have ws: "\<forall>w \<in> set [''-g'', ''64'', ''--buffers'', ''2'']. header_word w" by (simp add: header_word_def header_space_def)
  show ?thesis
    using header_flags_as_typed [OF comment ws _ _ line, of demo_floats "''kernel void cp() {}''"
        "set_kernel_file ''copy.cl'' (set_kernel_name ''cp'' (initial_state demo_floats))"]
    by (simp add: set_kernel_file_def)
qed

text \<open>
  A file named in the header goes into the buffer that names the file asked for: the header has no effect on which
  file is read, but the messages that follow name the other one.
\<close>

lemma header_file_shown:
  "parse_flags_from_source fl (''// FLAGS: -f other.cl'' @ [CHR 0x0A] @ rest) None s = Some (s\<lparr>g_kernel_file := ''other.cl''\<rparr>)"
proof -
  have line: "''// FLAGS: -f other.cl'' = ''// '' @ directive None @ '' '' @ spaced [''-f'', ''other.cl'']"
    by (simp add: directive_def)
  have ws: "\<forall>w \<in> set [''-f'', ''other.cl'']. header_word w" by (simp add: header_word_def header_space_def)
  show ?thesis
    using header_line [OF _ ws _ _ line, of "[]" fl rest s]
    by (simp add: parse_arg_tokens.simps(2) parse_token_names set_kernel_file_def)
qed

end
