(* ===== verification/HostRunner.thy ===== *)
theory HostRunner
  imports HostArgs
begin

text \<open>
  \<^verbatim>\<open>examples/host_runner.c\<close>: what the host program does with its configuration.  The operating system and OpenCL are
  third-party code: a record of the answers they give, in which a handle of 0 is \<^verbatim>\<open>NULL\<close>.  The program's effects are
  the list of its events, in order; a result of \<open>None\<close> is undefined behaviour.  \<open>ledger\<close> says which resources are
  held after a list of events, and is \<open>None\<close> when one is used or released that is not held.
\<close>

section \<open>The world\<close>

record c_file =
  cf_seek_end :: bool
  cf_tell :: int
  cf_seek_set :: bool
  cf_contents :: string

text \<open>
  \<open>cl_alloc\<close> tells whether an allocation succeeds, by what it is for; \<open>cl_read_back\<close> is the first element of the host
  buffer of an argument, given its contents, after \<^verbatim>\<open>clEnqueueReadBuffer\<close>.
\<close>

datatype resource = Open_file | Source_text | Platform_ids | Build_log | Cl_context | Cl_queue | Cl_program | Cl_kernel
  | Host_mem nat | Device_mem nat

record 'f host_world =
  hw_file :: "string \<Rightarrow> string + c_file"                \<comment> \<open>\<^verbatim>\<open>fopen\<close>: the reason of a failure, or the file\<close>
  hw_alloc :: "resource \<Rightarrow> bool"
  hw_build_options :: "string option"                  \<comment> \<open>\<^verbatim>\<open>OCLDBG_BUILD_OPTIONS\<close>\<close>
  cl_platforms :: "int \<times> u64 list"
  cl_platform_name :: "u64 \<Rightarrow> string"
  cl_devices :: "u64 \<Rightarrow> bool \<Rightarrow> int \<times> u32 \<times> u64"        \<comment> \<open>CPU devices or all: error, number, the device written\<close>
  cl_device_name :: "u64 \<Rightarrow> string"
  cl_context :: "u64 \<times> int"
  cl_queue :: "u64 \<times> int"
  cl_program :: "string \<Rightarrow> u64 \<times> int"
  cl_build :: "string \<Rightarrow> int"
  cl_build_log :: string
  cl_kernel :: "string \<Rightarrow> u64 \<times> int"
  cl_buffer :: "nat \<Rightarrow> int"                             \<comment> \<open>the error of \<^verbatim>\<open>clCreateBuffer\<close> for an argument\<close>
  cl_enqueue :: int
  cl_read_back :: "nat \<Rightarrow> 'f list \<Rightarrow> 'f"

section \<open>Events\<close>

datatype 'f arg_value = Val_buffer nat | Val_int u32 | Val_float 'f | Val_none

datatype 'f event =
    Acquire resource
  | Release resource
  | Copy_host_ptr nat u64 "'f list"        \<comment> \<open>the size and contents \<^verbatim>\<open>clCreateBuffer\<close> takes from the host buffer\<close>
  | Set_kernel_arg nat u64 "'f arg_value"
  | Enqueue nat "size_t list" "size_t list option"
  | Cl_finish
  | Read_buffer nat u64
  | Stdout string
  | Stderr string

fun needs :: "'f event \<Rightarrow> resource list" where
  "needs (Acquire Cl_queue) = [Cl_context]"
| "needs (Acquire Cl_program) = [Cl_context, Source_text]"
| "needs (Acquire Cl_kernel) = [Cl_program]"
| "needs (Acquire (Device_mem i)) = [Cl_context, Host_mem i]"
| "needs (Copy_host_ptr i n xs) = [Cl_context, Host_mem i]"
| "needs (Set_kernel_arg i n (Val_buffer b)) = [Cl_kernel, Device_mem b]"
| "needs (Set_kernel_arg i n v) = [Cl_kernel]"
| "needs (Enqueue d g l) = [Cl_queue, Cl_kernel]"
| "needs Cl_finish = [Cl_queue]"
| "needs (Read_buffer i n) = [Cl_queue, Device_mem i, Host_mem i]"
| "needs _ = []"

fun ledger_step :: "resource set \<Rightarrow> 'f event \<Rightarrow> resource set option" where
  "ledger_step live (Acquire r) = (if r \<in> live \<or> \<not> set (needs (Acquire r :: 'f event)) \<subseteq> live then None else Some (insert r live))"
| "ledger_step live (Release r) = (if r \<in> live then Some (live - {r}) else None)"
| "ledger_step live e = (if set (needs e) \<subseteq> live then Some live else None)"

fun ledger :: "resource set \<Rightarrow> 'f event list \<Rightarrow> resource set option" where
  "ledger live [] = Some live"
| "ledger live (e # es) = Option.bind (ledger_step live e) (\<lambda>live'. ledger live' es)"

lemma ledger_append: "ledger live (xs @ ys) = Option.bind (ledger live xs) (\<lambda>live'. ledger live' ys)"
proof (induction xs arbitrary: live)
  case (Cons x xs)
  then show ?case by (cases "ledger_step live x") simp_all
qed simp

section \<open>Reading the file, finding a device, building the program\<close>

definition runner_line :: "string \<Rightarrow> string" where
  "runner_line s = ''[host_runner] '' @ s @ [CHR 0x0A]"

text \<open>The buffer's contents, of which \<^verbatim>\<open>*out_size\<close> is the length, or \<open>None\<close> for \<^verbatim>\<open>NULL\<close>.\<close>

definition read_file :: "'f host_world \<Rightarrow> string \<Rightarrow> string option \<times> 'f event list" where
  "read_file w filename =
     (case hw_file w filename of
        Inl reason \<Rightarrow> (None, [Stderr (runner_line (''fopen: '' @ reason))])
      | Inr f \<Rightarrow>
          if \<not> cf_seek_end f \<or> cf_tell f < 0 \<or> \<not> cf_seek_set f \<or> \<not> hw_alloc w Source_text
          then (None, [Acquire Open_file, Release Open_file])
          else (Some (take (nat (cf_tell f)) (cf_contents f)), [Acquire Open_file, Acquire Source_text, Release Open_file]))"

definition find_pocl_or_default_platform :: "'f host_world \<Rightarrow> u64 \<times> 'f event list" where
  "find_pocl_or_default_platform w =
     (let (err, platforms) = cl_platforms w
      in if err \<noteq> 0 \<or> platforms = [] \<or> \<not> hw_alloc w Platform_ids then (0, [])
         else (case find (\<lambda>p. let name = cl_platform_name w p in
                   contains name ''Portable'' \<or> contains name ''pocl'' \<or> contains name ''POCL'') platforms of
                 Some p \<Rightarrow> p | None \<Rightarrow> platforms ! 0,
               [Acquire Platform_ids, Release Platform_ids]))"

definition find_cpu_or_any_device :: "'f host_world \<Rightarrow> u64 \<Rightarrow> u64" where
  "find_cpu_or_any_device w platform =
     (let (err, num_devices, device) = cl_devices w platform True
      in if err \<noteq> 0 \<or> num_devices = 0 then
           (let (err2, num2, device2) = cl_devices w platform False in if device2 = 0 then device else device2)
         else device)"

definition err_text :: "int \<Rightarrow> string" where
  "err_text err = ''(err='' @ to_string_signed err @ '')''"

text \<open>A handle other than \<^verbatim>\<open>NULL\<close> is something to release.\<close>

definition created :: "resource \<Rightarrow> u64 \<Rightarrow> 'f event list" where
  "created r handle = (if handle = 0 then [] else [Acquire r])"

definition build_kernel_program :: "'f host_world \<Rightarrow> string \<Rightarrow> u64 \<times> 'f event list" where
  "build_kernel_program w src =
     (let (program, err) = cl_program w src
      in if program = 0 \<or> err \<noteq> 0 then (0, created Cl_program program @ [Stderr (runner_line (''Failed to create program '' @ err_text err))])
         else let build_options = (case hw_build_options w of Some b \<Rightarrow> b | None \<Rightarrow> ''-g -cl-opt-disable'')
              in if cl_build w build_options \<noteq> 0 then
                   (0, [Acquire Cl_program]
                      @ (if hw_alloc w Build_log then
                           [Acquire Build_log, Stderr (runner_line (''Build failed:'' @ [CHR 0x0A] @ c_string (cl_build_log w))), Release Build_log]
                         else [])
                      @ [Release Cl_program])
                 else (program, [Acquire Cl_program, Stdout (runner_line (''Program built successfully with flags: '' @ build_options))]))"

section \<open>Running the kernel\<close>

definition local_or_0 :: "'f runner_config \<Rightarrow> nat \<Rightarrow> string" where
  "local_or_0 c i = to_string (if has_local_size c then local_sizes c ! i else 0)"

definition print_enqueue_message :: "string \<Rightarrow> 'f runner_config \<Rightarrow> 'f event list" where
  "print_enqueue_message name c =
     (let g = (\<lambda>i. to_string (global_sizes c ! i)); l = local_or_0 c
      in if cfg_work_dim c = 1 then
           [Stdout (runner_line (''Enqueueing kernel '' @ name @ '' (global='' @ g 0 @ '', local='' @ l 0 @ '')...''))]
         else if cfg_work_dim c = 2 then
           [Stdout (runner_line (''Enqueueing kernel '' @ name @ '' (global=['' @ g 0 @ '','' @ g 1 @ ''], local=['' @ l 0 @ '',''
              @ l 1 @ ''])...''))]
         else if cfg_work_dim c = 3 then
           [Stdout (runner_line (''Enqueueing kernel '' @ name @ '' (global=['' @ g 0 @ '','' @ g 1 @ '','' @ g 2 @ ''], local=[''
              @ l 0 @ '','' @ l 1 @ '','' @ l 2 @ ''])...''))]
         else [])"

text \<open>\<^verbatim>\<open>sizeof(float) * count\<close>, which wraps.\<close>

definition float_bytes :: "size_t \<Rightarrow> u64" where
  "float_bytes count = 4 * count"

text \<open>
  The contents of a buffer with room for \<open>room\<close> elements; writing \<^verbatim>\<open>count\<close> elements to a smaller one is undefined.
\<close>

definition init_buffer_data :: "'f float_ops \<Rightarrow> nat \<Rightarrow> size_t \<Rightarrow> 'f kernel_arg_config \<Rightarrow> nat \<Rightarrow> bool \<Rightarrow> 'f list option" where
  "init_buffer_data fl room count arg arg_idx is_second_input =
     (if unat count > room then None
      else Some (map (\<lambda>j.
        if ka_type arg = ARG_TYPE_BUFFER_VAL then init_val arg
        else if ka_type arg = ARG_TYPE_BUFFER_RAMP then fl_times fl (fl_of_size fl (of_nat j)) (ramp_scale arg)
        else if arg_idx = 0 then fl_one fl
        else if is_second_input then fl_two fl
        else fl_zero fl) [0..<unat count]))"

text \<open>The arrays \<^verbatim>\<open>d_buffers\<close>, \<^verbatim>\<open>h_buffers\<close> and \<^verbatim>\<open>buf_counts\<close>, as far as they are filled: argument, contents, count.\<close>

type_synonym 'f buffers = "(nat \<times> 'f list \<times> size_t) list"

definition setup_buffer_arg :: "'f host_world \<Rightarrow> 'f float_ops \<Rightarrow> 'f kernel_arg_config \<Rightarrow> nat \<Rightarrow> size_t \<Rightarrow> bool \<Rightarrow> 'f buffers
    \<Rightarrow> (bool \<times> 'f buffers \<times> 'f event list) option" where
  "setup_buffer_arg w fl arg arg_idx count is_second_input buffers =
     (if \<not> hw_alloc w (Host_mem arg_idx) then Some (False, buffers, [])
      else do {
        h_buf \<leftarrow> init_buffer_data fl (unat (float_bytes count) div 4) count arg arg_idx is_second_input;
        let copy = [Acquire (Host_mem arg_idx), Copy_host_ptr arg_idx (float_bytes count) h_buf];
            err = cl_buffer w arg_idx
        in if err \<noteq> 0 then
             Some (False, buffers, copy @ [Stderr (runner_line (''Failed to create buffer '' @ dec_of_nat arg_idx @ '' '' @ err_text err)),
               Release (Host_mem arg_idx)])
           else if length buffers \<ge> MAX_KERNEL_ARGS then None
           else Some (True, buffers @ [(arg_idx, h_buf, count)],
             copy @ [Acquire (Device_mem arg_idx), Set_kernel_arg arg_idx 8 (Val_buffer arg_idx)]) })"

definition is_buffer :: "arg_type \<Rightarrow> bool" where
  "is_buffer t \<longleftrightarrow> t = ARG_TYPE_BUFFER \<or> t = ARG_TYPE_BUFFER_VAL \<or> t = ARG_TYPE_BUFFER_RAMP"

definition buffer_count :: "size_t \<Rightarrow> 'f kernel_arg_config \<Rightarrow> size_t" where
  "buffer_count whole arg = (if buf_elements arg \<noteq> 0 then buf_elements arg else whole)"

definition local_count :: "'f runner_config \<Rightarrow> 'f kernel_arg_config \<Rightarrow> size_t" where
  "local_count c arg = (if buf_elements arg = 0 then (if has_local_size c then local_sizes c ! 0 else 4) else buf_elements arg)"

text \<open>One turn of the loop over the arguments, and the loop from argument \<open>i\<close> on.\<close>

definition setup_kernel_arg :: "'f host_world \<Rightarrow> 'f float_ops \<Rightarrow> 'f runner_config \<Rightarrow> size_t \<Rightarrow> nat \<Rightarrow> 'f kernel_arg_config \<Rightarrow> 'f buffers
    \<Rightarrow> (bool \<times> 'f buffers \<times> 'f event list) option" where
  "setup_kernel_arg w fl c whole i arg buffers =
     (if is_buffer (ka_type arg) then
        setup_buffer_arg w fl arg i (buffer_count whole arg) (i = 1 \<and> num_args c > 2) buffers
      else if ka_type arg = ARG_TYPE_INT then Some (True, buffers, [Set_kernel_arg i 4 (Val_int (int_val arg))])
      else if ka_type arg = ARG_TYPE_FLOAT then Some (True, buffers, [Set_kernel_arg i 4 (Val_float (float_val arg))])
      else Some (True, buffers, [Set_kernel_arg i (float_bytes (local_count c arg)) Val_none]))"

fun setup_kernel_args :: "'f host_world \<Rightarrow> 'f float_ops \<Rightarrow> 'f runner_config \<Rightarrow> size_t \<Rightarrow> nat \<Rightarrow> 'f kernel_arg_config list \<Rightarrow> 'f buffers
    \<Rightarrow> (bool \<times> 'f buffers \<times> 'f event list) option" where
  "setup_kernel_args w fl c whole i [] buffers = Some (True, buffers, [])"
| "setup_kernel_args w fl c whole i (arg # args) buffers = do {
     (ok, buffers1, es) \<leftarrow> setup_kernel_arg w fl c whole i arg buffers;
     if \<not> ok then Some (False, buffers1, es)
     else do {
       (ok', buffers2, es') \<leftarrow> setup_kernel_args w fl c whole (Suc i) args buffers1;
       Some (ok', buffers2, es @ es') } }"

definition total_elements :: "'f runner_config \<Rightarrow> size_t" where
  "total_elements c = (let whole = foldl (*) 1 (take (cfg_work_dim c) (global_sizes c)) in if whole = 0 then 64 else whole)"

text \<open>The result sample, of the last buffer.\<close>

definition read_result :: "'f host_world \<Rightarrow> 'f float_ops \<Rightarrow> 'f buffers \<Rightarrow> 'f event list" where
  "read_result w fl buffers =
     (if buffers = [] then []
      else let (i, h_buf, count) = last buffers
           in [Read_buffer i (float_bytes count), Stdout (runner_line (''Result sample: dst[0]='' @ fl_text fl (cl_read_back w i h_buf)))])"

definition release_buffers :: "'f buffers \<Rightarrow> 'f event list" where
  "release_buffers buffers = concat (map (\<lambda>b. [Release (Device_mem (fst b)), Release (Host_mem (fst b))]) buffers)"

definition run_generic_kernel :: "'f host_world \<Rightarrow> 'f float_ops \<Rightarrow> string \<Rightarrow> 'f runner_config \<Rightarrow> (int \<times> 'f event list) option" where
  "run_generic_kernel w fl name c = do {
     (ok, buffers, es) \<leftarrow> setup_kernel_args w fl c (total_elements c) 0 (take (num_args c) (arg_configs c)) [];
     if \<not> ok then Some (1, es)
     else let err = cl_enqueue w
          in Some (if err = 0 then 0 else 1,
               es @ print_enqueue_message name c
               @ [Enqueue (cfg_work_dim c) (global_sizes c) (if has_local_size c then Some (local_sizes c) else None)]
               @ (if err \<noteq> 0 then [Stderr (runner_line (''Failed to enqueue kernel '' @ err_text err))] else [])
               @ [Cl_finish] @ read_result w fl buffers @ release_buffers buffers) }"

section \<open>The program\<close>

definition not_found_text :: "string \<Rightarrow> string" where
  "not_found_text file = runner_line (''Error: Execution parameters not found for '' @ [CHR 0x27] @ file @ [CHR 0x27, CHR ''.'', CHR 0x0A]
     @ ''Please provide CLI flags (-g_size, -k, --buffers, etc.) or a header comment ''
     @ ''in the kernel file (e.g. '' @ [CHR 0x27] @ ''// FLAGS: -k <name> -g_size <dim> ...'' @ [CHR 0x27] @ '').'')"

text \<open>From the kernel on: running it and releasing everything.  The result of the run is not looked at.\<close>

definition run_and_release :: "'f host_world \<Rightarrow> 'f float_ops \<Rightarrow> string \<Rightarrow> 'f runner_config \<Rightarrow> (int \<times> 'f event list) option" where
  "run_and_release w fl name c = do {
     (result, es) \<leftarrow> run_generic_kernel w fl name c;
     Some (0, es @ [Release Cl_kernel, Release Cl_program, Release Cl_queue, Release Cl_context, Release Source_text,
       Stdout (runner_line ''Kernel execution finished successfully.'')]) }"

text \<open>From the device on.\<close>

definition run_on_device :: "'f host_world \<Rightarrow> 'f float_ops \<Rightarrow> string \<Rightarrow> string \<Rightarrow> 'f runner_config \<Rightarrow> (int \<times> 'f event list) option" where
  "run_on_device w fl src name c =
     (let (context, err) = cl_context w
      in if context = 0 \<or> err \<noteq> 0 then
           Some (1, created Cl_context context @ [Stderr (runner_line (''Failed to create context '' @ err_text err)), Release Source_text])
         else let (queue, err2) = cl_queue w
         in if queue = 0 \<or> err2 \<noteq> 0 then
              Some (1, [Acquire Cl_context] @ created Cl_queue queue
                @ [Stderr (runner_line (''Failed to create command queue '' @ err_text err2)), Release Cl_context, Release Source_text])
            else let (program, built) = build_kernel_program w src
            in if program = 0 then
                 Some (1, [Acquire Cl_context, Acquire Cl_queue] @ built @ [Release Cl_queue, Release Cl_context, Release Source_text])
               else let (kernel_handle, err3) = cl_kernel w name
               in if kernel_handle = 0 \<or> err3 \<noteq> 0 then
                    Some (1, [Acquire Cl_context, Acquire Cl_queue] @ built @ created Cl_kernel kernel_handle
                      @ [Stderr (runner_line (''Failed to create kernel '' @ [CHR 0x27] @ name @ [CHR 0x27, CHR '' ''] @ err_text err3)),
                         Release Cl_program, Release Cl_queue, Release Cl_context, Release Source_text])
                  else do {
                    (status, es) \<leftarrow> run_and_release w fl name c;
                    Some (status, [Acquire Cl_context, Acquire Cl_queue] @ built @ [Acquire Cl_kernel] @ es) })"

text \<open>From the platform on.\<close>

definition run_configured :: "'f host_world \<Rightarrow> 'f float_ops \<Rightarrow> string \<Rightarrow> string \<Rightarrow> 'f runner_config \<Rightarrow> (int \<times> 'f event list) option" where
  "run_configured w fl src name c =
     (let (platform, es) = find_pocl_or_default_platform w
      in if platform = 0 then Some (1, es @ [Stderr (runner_line ''Failed to find OpenCL platform''), Release Source_text])
         else let using = [Stdout (runner_line (''Using platform: '' @ cl_platform_name w platform))];
                  device = find_cpu_or_any_device w platform
         in if device = 0 then Some (1, es @ using @ [Stderr (runner_line ''Failed to find OpenCL device''), Release Source_text])
            else do {
              (status, es') \<leftarrow> run_on_device w fl src name c;
              Some (status, es @ using @ [Stdout (runner_line (''Using device: '' @ cl_device_name w device))] @ es') })"

text \<open>The text a pointer that is not \<^verbatim>\<open>NULL\<close> points to.\<close>

definition text_at :: "'f parse_state \<Rightarrow> str_ptr \<Rightarrow> string" where
  "text_at s p = (case deref s p of Some t \<Rightarrow> t | None \<Rightarrow> [])"

text \<open>\<^verbatim>\<open>argv\<close> is without the program's name; the source is passed to OpenCL with its length and read as a C string here.\<close>

definition host_main :: "'f host_world \<Rightarrow> 'f float_ops \<Rightarrow> string list \<Rightarrow> (int \<times> 'f event list) option" where
  "host_main w fl argv = do {
     s0 \<leftarrow> parse_arg_tokens fl argv (initial_state fl);
     let s1 = default_kernel_file s0;
         (source, es) = read_file w (text_at s1 (kernel_file s1))
     in case source of
          None \<Rightarrow> Some (1, es @ [Stderr (runner_line (''Could not read file '' @ text_at s1 (kernel_file s1)))])
        | Some src \<Rightarrow> do {
            s \<leftarrow> complete_from_source fl (c_string src) s1;
            if not_configured s then
              Some (1, es @ [Stderr (not_found_text (text_at s (kernel_file s))), Release Source_text])
            else do {
              (status, es') \<leftarrow> run_configured w fl src (text_at s (kernel_name s)) (config s);
              Some (status, es @ [Stdout (runner_line (''Loading kernel file: '' @ text_at s (kernel_file s)
                @ '' (kernel name: '' @ text_at s (kernel_name s) @ '')''))] @ es') } } }"

section \<open>Everything is released\<close>

text \<open>What OpenCL promises: a call that reports an error creates nothing.\<close>

definition lawful_cl :: "'f host_world \<Rightarrow> bool" where
  "lawful_cl w \<longleftrightarrow> (snd (cl_context w) \<noteq> 0 \<longrightarrow> fst (cl_context w) = 0) \<and> (snd (cl_queue w) \<noteq> 0 \<longrightarrow> fst (cl_queue w) = 0)
     \<and> (\<forall>src. snd (cl_program w src) \<noteq> 0 \<longrightarrow> fst (cl_program w src) = 0)
     \<and> (\<forall>name. snd (cl_kernel w name) \<noteq> 0 \<longrightarrow> fst (cl_kernel w name) = 0)"

definition buffers_granted :: "'f host_world \<Rightarrow> bool" where
  "buffers_granted w \<longleftrightarrow> (\<forall>i. hw_alloc w (Host_mem i) \<and> cl_buffer w i = 0)"

text \<open>The memory of some arguments.\<close>

definition mem_of :: "nat set \<Rightarrow> resource set" where
  "mem_of is = Host_mem ` is \<union> Device_mem ` is"

abbreviation buffer_args :: "'f buffers \<Rightarrow> nat set" where
  "buffer_args buffers \<equiv> fst ` set buffers"

text \<open>What is held when the arguments are set up.\<close>

definition kernel_base :: "resource set \<Rightarrow> bool" where
  "kernel_base base \<longleftrightarrow> Cl_kernel \<in> base \<and> Cl_context \<in> base \<and> Cl_queue \<in> base \<and> base \<inter> mem_of UNIV = {}"

lemma mem_of_simps [simp]:
  "mem_of {} = {}" "mem_of (insert i is) = insert (Host_mem i) (insert (Device_mem i) (mem_of is))"
  "Host_mem i \<in> mem_of is \<longleftrightarrow> i \<in> is" "Device_mem i \<in> mem_of is \<longleftrightarrow> i \<in> is"
  by (auto simp: mem_of_def)

lemma nothing_left: "ledger live es = Some {} \<Longrightarrow> \<exists>is. ledger live es = Some (mem_of is) \<and> (g \<longrightarrow> is = {})"
  by (rule exI [of _ "{}"]) simp

lemma kernel_base_mem: "kernel_base base \<Longrightarrow> Host_mem i \<notin> base \<and> Device_mem i \<notin> base"
  by (auto simp: kernel_base_def mem_of_def)

lemma setup_buffer_arg_ledger:
  assumes "setup_buffer_arg w fl arg i count second buffers = Some (ok, buffers', es)" "kernel_base base" "i \<notin> buffer_args buffers"
  shows "ledger (mem_of (buffer_args buffers) \<union> base) es = Some (mem_of (buffer_args buffers') \<union> base)"
    and "buffers' = (if ok then buffers @ [(i, snd (last buffers'))] else buffers)"
    and "buffers_granted w \<Longrightarrow> ok"
  using assms kernel_base_mem [OF assms(2), of i]
  by (auto simp: setup_buffer_arg_def bind_eq_Some_conv Let_def kernel_base_def buffers_granted_def insert_Diff_if
      split: if_split_asm)

lemma setup_kernel_arg_ledger:
  assumes "setup_kernel_arg w fl c whole i arg buffers = Some (ok, buffers', es)" "kernel_base base" "i \<notin> buffer_args buffers"
  shows "ledger (mem_of (buffer_args buffers) \<union> base) es = Some (mem_of (buffer_args buffers') \<union> base)"
    and "buffers' = buffers \<or> (\<exists>x. buffers' = buffers @ [(i, x)])"
    and "buffers_granted w \<Longrightarrow> ok"
proof (atomize (full), cases "is_buffer (ka_type arg)")
  case True
  with assms(1) have "setup_buffer_arg w fl arg i (buffer_count whole arg) (i = 1 \<and> num_args c > 2) buffers = Some (ok, buffers', es)"
    by (simp add: setup_kernel_arg_def)
  from setup_buffer_arg_ledger [OF this assms(2,3)]
  show "ledger (mem_of (buffer_args buffers) \<union> base) es = Some (mem_of (buffer_args buffers') \<union> base)
    \<and> (buffers' = buffers \<or> (\<exists>x. buffers' = buffers @ [(i, x)])) \<and> (buffers_granted w \<longrightarrow> ok)"
    by (metis (full_types))
next
  case False
  then show "ledger (mem_of (buffer_args buffers) \<union> base) es = Some (mem_of (buffer_args buffers') \<union> base)
    \<and> (buffers' = buffers \<or> (\<exists>x. buffers' = buffers @ [(i, x)])) \<and> (buffers_granted w \<longrightarrow> ok)"
    using assms by (auto simp: setup_kernel_arg_def kernel_base_def split: if_split_asm)
qed

lemma setup_kernel_args_ledger:
  assumes "setup_kernel_args w fl c whole i args buffers = Some (ok, buffers', es)" "kernel_base base"
    "buffer_args buffers \<subseteq> {..<i}" "distinct (map fst buffers)"
  shows "ledger (mem_of (buffer_args buffers) \<union> base) es = Some (mem_of (buffer_args buffers') \<union> base)
    \<and> distinct (map fst buffers') \<and> (buffers_granted w \<longrightarrow> ok)"
  using assms(1,3,4)
proof (induction args arbitrary: i buffers ok buffers' es)
  case (Cons arg args)
  from Cons.prems(1) obtain ok1 buffers1 es1 where one: "setup_kernel_arg w fl c whole i arg buffers = Some (ok1, buffers1, es1)"
    and rest: "if ok1 then (\<exists>es2. setup_kernel_args w fl c whole (Suc i) args buffers1 = Some (ok, buffers', es2) \<and> es = es1 @ es2)
      else ok = ok1 \<and> buffers' = buffers1 \<and> es = es1"
    by (auto simp: bind_eq_Some_conv split: if_split_asm)
  have i: "i \<notin> buffer_args buffers" using Cons.prems(2) by auto
  note led = setup_kernel_arg_ledger [OF one assms(2) i]
  have "buffer_args buffers1 \<subseteq> insert i (buffer_args buffers)" using led(2) by auto
  then have b1: "buffer_args buffers1 \<subseteq> {..<Suc i}" "distinct (map fst buffers1)"
    using led(2) Cons.prems(2,3) i by (auto simp: lessThan_Suc)
  show ?case
  proof (cases ok1)
    case True
    with rest obtain es2 where "setup_kernel_args w fl c whole (Suc i) args buffers1 = Some (ok, buffers', es2)" "es = es1 @ es2"
      by auto
    with Cons.IH [OF this(1) b1] led(1) show ?thesis by (simp add: ledger_append)
  next
    case False
    with led(3) have "\<not> buffers_granted w" by blast
    with False rest led(1) b1 show ?thesis by simp
  qed
qed simp

lemma release_buffers_ledger:
  "distinct (map fst buffers) \<Longrightarrow> kernel_base base \<Longrightarrow>
     ledger (mem_of (buffer_args buffers) \<union> base) (release_buffers buffers) = Some base"
proof (induction buffers)
  case (Cons b buffers)
  have "mem_of (buffer_args (b # buffers)) \<union> base - {Device_mem (fst b)} - {Host_mem (fst b)} = mem_of (buffer_args buffers) \<union> base"
    using Cons.prems kernel_base_mem [OF Cons.prems(2), of "fst b"] by auto
  with Cons show ?case by (simp add: release_buffers_def)
qed (simp add: release_buffers_def)

lemma print_enqueue_ledger: "ledger live (print_enqueue_message name c) = Some live"
  by (simp add: print_enqueue_message_def Let_def)

lemma read_result_ledger:
  "kernel_base base \<Longrightarrow> ledger (mem_of (buffer_args buffers) \<union> base) (read_result w fl buffers) = Some (mem_of (buffer_args buffers) \<union> base)"
proof (cases buffers rule: rev_cases)
  case (snoc bs b)
  assume "kernel_base base"
  then show ?thesis by (cases b) (auto simp: snoc read_result_def kernel_base_def)
qed (simp add: read_result_def)

lemma run_generic_kernel_ledger:
  assumes "run_generic_kernel w fl name c = Some (status, es)" "kernel_base base"
  shows "\<exists>is. ledger base es = Some (mem_of is \<union> base) \<and> (buffers_granted w \<longrightarrow> is = {})"
proof -
  from assms(1) obtain ok buffers es1 where set_up:
      "setup_kernel_args w fl c (total_elements c) 0 (take (num_args c) (arg_configs c)) [] = Some (ok, buffers, es1)"
    and es: "if ok then es = es1 @ print_enqueue_message name c
        @ [Enqueue (cfg_work_dim c) (global_sizes c) (if has_local_size c then Some (local_sizes c) else None)]
        @ (if cl_enqueue w \<noteq> 0 then [Stderr (runner_line (''Failed to enqueue kernel '' @ err_text (cl_enqueue w)))] else [])
        @ [Cl_finish] @ read_result w fl buffers @ release_buffers buffers
      else es = es1"
    unfolding run_generic_kernel_def by (auto simp: bind_eq_Some_conv Let_def split: if_split_asm)
  have led: "ledger base es1 = Some (mem_of (buffer_args buffers) \<union> base)" "distinct (map fst buffers)" "buffers_granted w \<longrightarrow> ok"
    using setup_kernel_args_ledger [OF set_up assms(2)] by auto
  show ?thesis
  proof (cases ok)
    case True
    have "ledger (mem_of (buffer_args buffers) \<union> base) (drop (length es1) es) = Some base"
      using True es assms(2) release_buffers_ledger [OF led(2) assms(2)]
      by (auto simp: ledger_append print_enqueue_ledger read_result_ledger [OF assms(2)] kernel_base_def)
    moreover have "es = es1 @ drop (length es1) es" using True es by simp
    ultimately have "ledger base es = Some base" using led(1) by (metis bind.bind_lunit ledger_append)
    then show ?thesis by (intro exI [of _ "{}"]) simp
  next
    case False
    with es led show ?thesis by auto
  qed
qed

lemma created_0 [simp]: "created r 0 = []"
  by (simp add: created_def)

lemma ledger_created [simp]:
  "r \<notin> live \<Longrightarrow> set (needs (Acquire r :: 'f event)) \<subseteq> live \<Longrightarrow>
     ledger live (created r h :: 'f event list) = Some (if h = 0 then live else insert r live)"
  by (simp add: created_def)

lemma build_kernel_program_ledger:
  assumes "build_kernel_program w src = (program, es)" "lawful_cl w" "{Cl_context, Source_text} \<subseteq> live"
    "Cl_program \<notin> live" "Build_log \<notin> live"
  shows "ledger live es = Some (if program = 0 then live else insert Cl_program live)"
proof -
  obtain h e where a: "cl_program w src = (h, e)" by fastforce
  with assms(2) have "e \<noteq> 0 \<Longrightarrow> h = 0" by (auto simp: lawful_cl_def dest: spec [of _ src])
  moreover have "insert Cl_program live - {Cl_program} = live" "insert Build_log (insert Cl_program live) - {Build_log} = insert Cl_program live"
    using assms(4,5) by auto
  ultimately show ?thesis
    using assms(1,3,4,5) by (auto simp: build_kernel_program_def a Let_def split: if_split_asm)
qed

lemma run_and_release_ledger:
  assumes "run_and_release w fl name c = Some (status, es)"
  shows "\<exists>is. ledger {Cl_kernel, Cl_program, Cl_queue, Cl_context, Source_text} es = Some (mem_of is) \<and> (buffers_granted w \<longrightarrow> is = {})"
proof -
  let ?base = "{Cl_kernel, Cl_program, Cl_queue, Cl_context, Source_text}"
  from assms obtain r es1 where run: "run_generic_kernel w fl name c = Some (r, es1)"
    and es: "es = es1 @ [Release Cl_kernel, Release Cl_program, Release Cl_queue, Release Cl_context, Release Source_text,
       Stdout (runner_line ''Kernel execution finished successfully.'')]"
    by (auto simp: run_and_release_def bind_eq_Some_conv)
  have base: "kernel_base ?base" by (auto simp: kernel_base_def mem_of_def)
  from run_generic_kernel_ledger [OF run base] obtain js where
    js: "ledger ?base es1 = Some (mem_of js \<union> ?base)" "buffers_granted w \<longrightarrow> js = {}" by blast
  have "mem_of js \<union> ?base - {Cl_kernel} - {Cl_program} - {Cl_queue} - {Cl_context} - {Source_text} = mem_of js"
    by (auto simp: mem_of_def)
  then have "ledger ?base es = Some (mem_of js)" by (simp add: es ledger_append js(1))
  with js(2) show ?thesis by blast
qed

lemma run_on_device_ledger:
  assumes "run_on_device w fl src name c = Some (status, es)" "lawful_cl w"
  shows "\<exists>is. ledger {Source_text} es = Some (mem_of is) \<and> (buffers_granted w \<longrightarrow> is = {})"
proof -
  obtain h0 e0 h1 e1 h3 e3 where a: "cl_context w = (h0, e0)" "cl_queue w = (h1, e1)" "cl_kernel w name = (h3, e3)"
    by (meson surj_pair)
  obtain h2 built where b: "build_kernel_program w src = (h2, built)" by fastforce
  have l: "h0 \<noteq> 0 \<Longrightarrow> e0 = 0" "h1 \<noteq> 0 \<Longrightarrow> e1 = 0" "h3 \<noteq> 0 \<Longrightarrow> e3 = 0"
    using assms(2) a by (auto simp: lawful_cl_def dest: spec [of _ name])
  have built: "ledger {Cl_queue, Cl_context, Source_text} built
      = Some (if h2 = 0 then {Cl_queue, Cl_context, Source_text} else {Cl_program, Cl_queue, Cl_context, Source_text})"
    using build_kernel_program_ledger [OF b assms(2), of "{Cl_queue, Cl_context, Source_text}"] by simp
  consider (no_context) "h0 = 0" | (no_queue) "h0 \<noteq> 0" "h1 = 0" | (no_program) "h0 \<noteq> 0" "h1 \<noteq> 0" "h2 = 0"
    | (no_kernel) "h0 \<noteq> 0" "h1 \<noteq> 0" "h2 \<noteq> 0" "h3 = 0" | (all) "h0 \<noteq> 0" "h1 \<noteq> 0" "h2 \<noteq> 0" "h3 \<noteq> 0"
    by blast
  then show ?thesis
  proof cases
    case all
    then have "e0 = 0" "e1 = 0" "e3 = 0" using l by blast+
    with all assms(1) obtain es1 where "run_and_release w fl name c = Some (status, es1)"
      "es = [Acquire Cl_context, Acquire Cl_queue] @ built @ [Acquire Cl_kernel] @ es1"
      by (auto simp: run_on_device_def a b bind_eq_Some_conv)
    with run_and_release_ledger [OF this(1)] all built show ?thesis by (simp add: ledger_append)
  qed (rule nothing_left, (use assms(1) built in \<open>auto simp: run_on_device_def a b l ledger_append insert_Diff_if\<close>) [1])+
qed

lemma run_configured_ledger:
  assumes "run_configured w fl src name c = Some (status, es)" "lawful_cl w"
  shows "\<exists>is. ledger {Source_text} es = Some (mem_of is) \<and> (buffers_granted w \<longrightarrow> is = {})"
proof -
  obtain p es0 where p: "find_pocl_or_default_platform w = (p, es0)" by fastforce
  then have es0: "ledger {Source_text} es0 = Some {Source_text}"
    by (auto simp: find_pocl_or_default_platform_def Let_def split: if_split_asm prod.split_asm)
  show ?thesis
  proof (cases "p = 0 \<or> find_cpu_or_any_device w p = 0")
    case True
    show ?thesis
      by (rule nothing_left) (use assms(1) True in \<open>auto simp: run_configured_def p Let_def ledger_append es0 split: if_split_asm\<close>)
  next
    case False
    with assms(1) obtain es1 where "run_on_device w fl src name c = Some (status, es1)"
      "es = es0 @ [Stdout (runner_line (''Using platform: '' @ cl_platform_name w p))]
         @ [Stdout (runner_line (''Using device: '' @ cl_device_name w (find_cpu_or_any_device w p)))] @ es1"
      by (auto simp: run_configured_def p Let_def bind_eq_Some_conv)
    with run_on_device_ledger [OF this(1) assms(2)] show ?thesis by (simp add: ledger_append es0)
  qed
qed

lemma read_file_ledger:
  "read_file w n = (source, es) \<Longrightarrow> ledger {} es = Some (if source = None then {} else {Source_text})"
  by (auto simp: read_file_def insert_Diff_if split: sum.split_asm if_split_asm)

lemma host_main_ledger:
  assumes "lawful_cl w" and "host_main w fl argv = Some (status, es)"
  shows "\<exists>left. ledger {} es = Some (mem_of left) \<and> (buffers_granted w \<longrightarrow> left = {})"
proof -
  from assms(2) obtain s0 where s0: "parse_arg_tokens fl argv (initial_state fl) = Some s0"
    by (auto simp: host_main_def bind_eq_Some_conv)
  define s1 where "s1 = default_kernel_file s0"
  obtain source es0 where source: "read_file w (text_at s1 (kernel_file s1)) = (source, es0)" by fastforce
  note led = read_file_ledger [OF source]
  show ?thesis
  proof (cases source)
    case None
    show ?thesis
      by (rule nothing_left)
        (use assms(2) led None in \<open>auto simp: host_main_def s0 source ledger_append simp flip: s1_def\<close>)
  next
    case (Some src)
    with assms(2) obtain s where s: "complete_from_source fl (c_string src) s1 = Some s"
      by (auto simp: host_main_def s0 source bind_eq_Some_conv simp flip: s1_def)
    show ?thesis
    proof (cases "not_configured s")
      case True
      show ?thesis
        by (rule nothing_left)
          (use assms(2) led Some True in \<open>auto simp: host_main_def s0 source s ledger_append simp flip: s1_def\<close>)
    next
      case False
      with assms(2) Some obtain es1 where "run_configured w fl src (text_at s (kernel_name s)) (config s) = Some (status, es1)"
        "es = es0 @ [Stdout (runner_line (''Loading kernel file: '' @ text_at s (kernel_file s)
           @ '' (kernel name: '' @ text_at s (kernel_name s) @ '')''))] @ es1"
        by (auto simp: host_main_def s0 source s bind_eq_Some_conv simp flip: s1_def)
      with run_configured_ledger [OF this(1) assms(1)] led Some show ?thesis by (simp add: ledger_append)
    qed
  qed
qed

section \<open>Nothing is undefined but for a huge buffer\<close>

definition huge_buffer :: "size_t \<Rightarrow> 'f kernel_arg_config \<Rightarrow> bool" where
  "huge_buffer whole arg \<longleftrightarrow> is_buffer (ka_type arg) \<and> 2 ^ 62 \<le> unat (buffer_count whole arg)"

lemma float_room: "unat (n :: size_t) < 2 ^ 62 \<Longrightarrow> unat (float_bytes n) div 4 = unat n"
  using unat_mult_no_wrap [of 4 n] by (simp add: float_bytes_def)

lemma setup_kernel_arg_defined:
  assumes "\<not> huge_buffer whole arg" "length buffers < MAX_KERNEL_ARGS"
  shows "returns (setup_kernel_arg w fl c whole i arg buffers) (\<lambda>r. length (fst (snd r)) \<le> Suc (length buffers))"
  using assms by (auto simp: setup_kernel_arg_def setup_buffer_arg_def init_buffer_data_def huge_buffer_def float_room returns_simps Let_def)

lemma setup_kernel_args_defined:
  "\<forall>a \<in> set args. \<not> huge_buffer whole a \<Longrightarrow> length buffers + length args \<le> MAX_KERNEL_ARGS \<Longrightarrow>
     setup_kernel_args w fl c whole i args buffers \<noteq> None"
proof (induction args arbitrary: i buffers)
  case (Cons a args)
  then have "\<not> huge_buffer whole a" "length buffers < MAX_KERNEL_ARGS" by auto
  from setup_kernel_arg_defined [OF this, of w fl c i] obtain ok buffers1 es where
    "setup_kernel_arg w fl c whole i a buffers = Some (ok, buffers1, es)" "length buffers1 \<le> Suc (length buffers)"
    by (auto simp: returns_def)
  with Cons.IH [of buffers1 "Suc i"] Cons.prems show ?case by auto
qed simp

definition config_args :: "'f runner_config \<Rightarrow> 'f kernel_arg_config list" where
  "config_args c = take (num_args c) (arg_configs c)"

lemma run_configured_defined:
  assumes "config_ok c" "\<forall>a \<in> set (config_args c). \<not> huge_buffer (total_elements c) a"
  shows "run_configured w fl src name c \<noteq> None"
proof -
  have "length (config_args c) \<le> MAX_KERNEL_ARGS" using assms(1) by (simp add: config_args_def config_ok_def)
  with setup_kernel_args_defined [OF assms(2), of "[]" w fl c 0] have "run_generic_kernel w fl name c \<noteq> None"
    by (auto simp: run_generic_kernel_def config_args_def Let_def)
  then have "run_on_device w fl src name c \<noteq> None"
    by (auto simp: run_on_device_def run_and_release_def Let_def split: prod.split)
  then show ?thesis by (auto simp: run_configured_def Let_def split: prod.split)
qed

text \<open>The configuration of a run: from the command line and the source.\<close>

definition read_configuration :: "'f float_ops \<Rightarrow> string list \<Rightarrow> string \<Rightarrow> 'f parse_state option" where
  "read_configuration fl argv src = do {
     s \<leftarrow> parse_arg_tokens fl argv (initial_state fl); complete_from_source fl (c_string src) (default_kernel_file s) }"

lemma host_main_defined:
  assumes "host_main w fl argv = None"
  shows "\<exists>src s. read_configuration fl argv src = Some s \<and> (\<exists>a \<in> set (config_args (config s)). huge_buffer (total_elements (config s)) a)"
proof -
  from parse_arg_tokens_ok [OF initial_state_ok, of fl argv] obtain s0 where s0:
    "parse_arg_tokens fl argv (initial_state fl) = Some s0" "state_ok s0" by (auto simp: returns_def)
  then have s1: "state_ok (default_kernel_file s0)" by (simp add: default_kernel_file_def kernel_file_ok)
  obtain source es where source: "read_file w (text_at (default_kernel_file s0) (kernel_file (default_kernel_file s0))) = (source, es)"
    by fastforce
  from assms obtain src where src: "source = Some src" by (cases source) (auto simp: host_main_def s0(1) source Let_def)
  from complete_from_source_ok [OF s1, of fl "c_string src"] obtain s where s:
    "complete_from_source fl (c_string src) (default_kernel_file s0) = Some s" "state_ok s" by (auto simp: returns_def)
  have "run_configured w fl src (text_at s (kernel_name s)) (config s) = None"
    using assms by (auto simp: host_main_def s0(1) source src s(1) Let_def bind_eq_None_conv split: if_split_asm prod.split_asm)
  moreover have "config_ok (config s)" using s(2) by (simp add: state_ok_def)
  ultimately have "\<exists>a \<in> set (config_args (config s)). huge_buffer (total_elements (config s)) a"
    using run_configured_defined by blast
  with s0(1) s(1) show ?thesis by (auto simp: read_configuration_def)
qed

end
