(* ===== verification/HostLaunch.thy ===== *)
theory HostLaunch
  imports HostRunner StoppedItems
begin

text \<open>
  The host program from its command line to the launch, and the debugger that stops at this launch: what
  \<open>host_main\<close> passes to OpenCL, argument by argument, and what \<open>infer_kernel_launch\<close> reads back from the registers and
  the memory of the call.
\<close>

section \<open>What is launched\<close>

fun is_launch :: "'f event \<Rightarrow> bool" where
  "is_launch (Copy_host_ptr i n xs) = True"
| "is_launch (Set_kernel_arg i n v) = True"
| "is_launch (Enqueue d g l) = True"
| "is_launch _ = False"

definition launch_events :: "'f event list \<Rightarrow> 'f event list" where
  "launch_events es = filter is_launch es"

lemma launch_events_simps [simp]:
  "launch_events [] = []" "launch_events (xs @ ys) = launch_events xs @ launch_events ys"
  "launch_events (e # es) = (if is_launch e then e # launch_events es else launch_events es)"
  by (simp_all add: launch_events_def)

text \<open>The number of work-items, 64 if it is 0, and the number of elements of a buffer.\<close>

definition work_items :: "size_t list \<Rightarrow> size_t" where
  "work_items g = (let n = foldl (*) 1 g in if n = 0 then 64 else n)"

definition count_or :: "size_t \<Rightarrow> size_t \<Rightarrow> size_t" where
  "count_or n d = (if n = 0 then d else n)"

text \<open>
  What is passed to OpenCL for argument \<open>i\<close> of \<open>k\<close>: for a buffer its size and contents and then its handle, for a
  scalar its value, for local memory its size.
\<close>

definition buffer_events :: "nat \<Rightarrow> size_t \<Rightarrow> (nat \<Rightarrow> 'f) \<Rightarrow> 'f event list" where
  "buffer_events i n x = [Copy_host_ptr i (4 * n) (map x [0..<unat n]), Set_kernel_arg i 8 (Val_buffer i)]"

text \<open>The first buffer holds ones, the second twos when a result follows, the others zeros.\<close>

definition plain_value :: "'f float_ops \<Rightarrow> nat \<Rightarrow> nat \<Rightarrow> 'f" where
  "plain_value fl k i = (if i = 0 then fl_one fl else if i = 1 \<and> k > 2 then fl_two fl else fl_zero fl)"

fun arg_events :: "'f float_ops \<Rightarrow> size_t list \<Rightarrow> size_t list \<Rightarrow> nat \<Rightarrow> nat \<Rightarrow> 'f host_arg \<Rightarrow> 'f event list" where
  "arg_events fl g l k i (Host_buffer n) = buffer_events i (count_or n (work_items g)) (\<lambda>j. plain_value fl k i)"
| "arg_events fl g l k i (Host_buffer_val n v) = buffer_events i (count_or n (work_items g)) (\<lambda>j. v)"
| "arg_events fl g l k i (Host_buffer_ramp n v) = buffer_events i (count_or n (work_items g)) (\<lambda>j. fl_times fl (fl_of_size fl (of_nat j)) v)"
| "arg_events fl g l k i (Host_int x) = [Set_kernel_arg i 4 (Val_int x)]"
| "arg_events fl g l k i (Host_float v) = [Set_kernel_arg i 4 (Val_float v)]"
| "arg_events fl g l k i (Host_local n) = [Set_kernel_arg i (4 * count_or n (if l = [] then 4 else hd l)) Val_none]"

text \<open>A buffer's bytes can be counted.\<close>

fun arg_fits :: "size_t list \<Rightarrow> 'f host_arg \<Rightarrow> bool" where
  "arg_fits g (Host_buffer n) \<longleftrightarrow> unat (count_or n (work_items g)) < 2 ^ 62"
| "arg_fits g (Host_buffer_val n v) \<longleftrightarrow> unat (count_or n (work_items g)) < 2 ^ 62"
| "arg_fits g (Host_buffer_ramp n v) \<longleftrightarrow> unat (count_or n (work_items g)) < 2 ^ 62"
| "arg_fits g _ \<longleftrightarrow> True"

fun all_arg_events :: "'f float_ops \<Rightarrow> size_t list \<Rightarrow> size_t list \<Rightarrow> nat \<Rightarrow> nat \<Rightarrow> 'f host_arg list \<Rightarrow> 'f event list" where
  "all_arg_events fl g l k i [] = []"
| "all_arg_events fl g l k i (a # args) = arg_events fl g l k i a @ all_arg_events fl g l k (Suc i) args"

lemma setup_buffer_arg_granted:
  assumes "buffers_granted w" "length buffers < MAX_KERNEL_ARGS" "unat n < 2 ^ 62"
    and "\<And>room. unat n \<le> room \<Longrightarrow> init_buffer_data fl room n arg i second = Some (map x [0..<unat n])"
  shows "\<exists>b es. setup_buffer_arg w fl arg i n second buffers = Some (True, buffers @ [b], es) \<and> launch_events es = buffer_events i n x"
  using assms(1,2) by (simp add: setup_buffer_arg_def float_room [OF assms(3)] assms(4) buffers_granted_def buffer_events_def Let_def)
    (simp add: float_bytes_def)

lemma setup_arg_granted:
  assumes "buffers_granted w" "length buffers < MAX_KERNEL_ARGS" "arg_fits g a" "length l \<le> MAX_DIMS"
    and c: "num_args c = k" "has_local_size c = (l \<noteq> [])" "local_sizes c = padded_to MAX_DIMS 0 l"
  shows "\<exists>bs es. setup_kernel_arg w fl c (work_items g) i (arg_config fl a) buffers = Some (True, buffers @ bs, es)
    \<and> length bs \<le> 1 \<and> launch_events es = arg_events fl g l k i a"
proof -
  have hd_l: "l \<noteq> [] \<Longrightarrow> padded_to MAX_DIMS 0 l ! 0 = hd l" by (cases l) (simp_all add: padded_to_def)
  have buf: ?thesis
    if "setup_kernel_arg w fl c (work_items g) i (arg_config fl a) buffers
        = setup_buffer_arg w fl (arg_config fl a) i (count_or n (work_items g)) (i = 1 \<and> k > 2) buffers"
      and "arg_events fl g l k i a = buffer_events i (count_or n (work_items g)) x" and "unat (count_or n (work_items g)) < 2 ^ 62"
      and "\<And>room m. unat m \<le> room \<Longrightarrow> init_buffer_data fl room m (arg_config fl a) i (i = 1 \<and> k > 2) = Some (map x [0..<unat m])"
    for n x
  proof -
    from setup_buffer_arg_granted [OF assms(1,2) that(3,4)] obtain b es where
      "setup_buffer_arg w fl (arg_config fl a) i (count_or n (work_items g)) (i = 1 \<and> k > 2) buffers = Some (True, buffers @ [b], es)"
      "launch_events es = buffer_events i (count_or n (work_items g)) x" by blast
    with that(1,2) show ?thesis by (intro exI [of _ "[b]"] exI [of _ es]) simp
  qed
  note defs = setup_kernel_arg_def is_buffer_def zero_arg_def buffer_count_def count_or_def local_count_def c
    float_bytes_def init_buffer_data_def
  show ?thesis
  proof (cases a)
    case (Host_buffer n)
    show ?thesis by (rule buf [of n "\<lambda>j. plain_value fl k i"]) (use assms(3) in \<open>simp_all add: Host_buffer defs plain_value_def\<close>)
  next
    case (Host_buffer_val n v)
    show ?thesis by (rule buf [of n "\<lambda>j. v"]) (use assms(3) in \<open>simp_all add: Host_buffer_val defs\<close>)
  next
    case (Host_buffer_ramp n v)
    show ?thesis
      by (rule buf [of n "\<lambda>j. fl_times fl (fl_of_size fl (of_nat j)) v"]) (use assms(3) in \<open>simp_all add: Host_buffer_ramp defs\<close>)
  qed (use hd_l in \<open>auto simp: defs\<close>)
qed

lemma setup_args_granted:
  assumes "buffers_granted w" "length l \<le> MAX_DIMS"
    and c: "num_args c = k" "has_local_size c = (l \<noteq> [])" "local_sizes c = padded_to MAX_DIMS 0 l"
  shows "length buffers + length args \<le> MAX_KERNEL_ARGS \<Longrightarrow> \<forall>a \<in> set args. arg_fits g a \<Longrightarrow>
    \<exists>buffers' es. setup_kernel_args w fl c (work_items g) i (map (arg_config fl) args) buffers = Some (True, buffers', es)
      \<and> launch_events es = all_arg_events fl g l k i args"
proof (induction args arbitrary: i buffers)
  case (Cons a args)
  from Cons.prems have "length buffers < MAX_KERNEL_ARGS" "arg_fits g a" by simp_all
  from setup_arg_granted [OF assms(1) this assms(2) c] obtain bs es where
    one: "setup_kernel_arg w fl c (work_items g) i (arg_config fl a) buffers = Some (True, buffers @ bs, es)"
      "length bs \<le> 1" "launch_events es = arg_events fl g l k i a" by blast
  from Cons.IH [of "buffers @ bs" "Suc i"] Cons.prems one(2) obtain buffers' es' where
    "setup_kernel_args w fl c (work_items g) (Suc i) (map (arg_config fl) args) (buffers @ bs) = Some (True, buffers', es')"
      "launch_events es' = all_arg_events fl g l k (Suc i) args" by auto
  with one show ?case by simp
qed simp

lemma launch_events_quiet [simp]:
  "launch_events (print_enqueue_message name c) = []" "launch_events (read_result w fl buffers) = []"
  "launch_events (release_buffers buffers) = []"
proof -
  show "launch_events (release_buffers buffers) = []" by (induction buffers) (simp_all add: release_buffers_def)
qed (simp_all add: print_enqueue_message_def read_result_def Let_def case_prod_beta)

lemma total_elements_for: "length g \<le> MAX_DIMS \<Longrightarrow> total_elements (config_for fl g l args) = work_items g"
  by (simp add: total_elements_def work_items_def config_for_def padded_to_def)

lemma run_generic_kernel_granted:
  assumes "buffers_granted w" "length g \<le> MAX_DIMS" "length l \<le> MAX_DIMS" "length args \<le> MAX_KERNEL_ARGS"
    and "\<forall>a \<in> set args. arg_fits g a"
  shows "\<exists>es. run_generic_kernel w fl name (config_for fl g l args) = Some (if cl_enqueue w = 0 then 0 else 1, es)
    \<and> launch_events es = all_arg_events fl g l (length args) 0 args
        @ [Enqueue (length g) (padded_to MAX_DIMS 0 g) (if l = [] then None else Some (padded_to MAX_DIMS 0 l))]"
proof -
  let ?c = "config_for fl g l args"
  have c: "num_args ?c = length args" "has_local_size ?c = (l \<noteq> [])" "local_sizes ?c = padded_to MAX_DIMS 0 l"
    "take (length args) (arg_configs ?c) = map (arg_config fl) args" "cfg_work_dim ?c = length g"
    "global_sizes ?c = padded_to MAX_DIMS 0 g"
    by (simp_all add: config_for_def padded_to_def)
  from setup_args_granted [OF assms(1,3) c(1-3), of "[]" args g fl 0] assms(4,5) obtain buffers es where
    "setup_kernel_args w fl ?c (work_items g) 0 (map (arg_config fl) args) [] = Some (True, buffers, es)"
      "launch_events es = all_arg_events fl g l (length args) 0 args" by auto
  then show ?thesis
    by (simp add: run_generic_kernel_def total_elements_for [OF assms(2)] c(2-6) c(1) Let_def)
qed

section \<open>From the command line to the launch\<close>

text \<open>The file can be read, and OpenCL has a platform and a device and creates what is asked for, but may refuse the launch.\<close>

definition device_found :: "'f host_world \<Rightarrow> bool" where
  "device_found w \<longleftrightarrow> fst (find_pocl_or_default_platform w) \<noteq> 0
     \<and> find_cpu_or_any_device w (fst (find_pocl_or_default_platform w)) \<noteq> 0"

definition objects_granted :: "'f host_world \<Rightarrow> string \<Rightarrow> bool" where
  "objects_granted w name \<longleftrightarrow> fst (cl_context w) \<noteq> 0 \<and> snd (cl_context w) = 0 \<and> fst (cl_queue w) \<noteq> 0 \<and> snd (cl_queue w) = 0
     \<and> (\<forall>src. fst (cl_program w src) \<noteq> 0 \<and> snd (cl_program w src) = 0) \<and> (\<forall>b. cl_build w b = 0)
     \<and> fst (cl_kernel w name) \<noteq> 0 \<and> snd (cl_kernel w name) = 0"

definition cooperative :: "'f host_world \<Rightarrow> string \<Rightarrow> string \<Rightarrow> bool" where
  "cooperative w file name \<longleftrightarrow> fst (read_file w file) \<noteq> None \<and> device_found w \<and> objects_granted w name \<and> buffers_granted w"

lemma launch_events_read_file: "read_file w n = (source, es) \<Longrightarrow> launch_events es = []"
  by (auto simp: read_file_def split: sum.split_asm if_split_asm)

text \<open>Then all that happens before and after running the kernel passes nothing to a launch.\<close>

definition around :: "'f event list \<Rightarrow> 'f event list \<Rightarrow> int \<times> 'f event list \<Rightarrow> int \<times> 'f event list" where
  "around pre post r = (0, pre @ snd r @ post)"

definition runs_within :: "(int \<times> 'f event list) option \<Rightarrow> (int \<times> 'f event list) option \<Rightarrow> bool" where
  "runs_within run m \<longleftrightarrow> (\<exists>pre post. launch_events pre = [] \<and> launch_events post = [] \<and> m = map_option (around pre post) run)"

lemma runs_within_result: "runs_within (Some (r, es)) m \<Longrightarrow> \<exists>es'. m = Some (0, es') \<and> launch_events es' = launch_events es"
  by (auto simp: runs_within_def around_def)

lemma runs_within_None: "runs_within None m \<Longrightarrow> m = None"
  by (auto simp: runs_within_def)

lemma runs_within_more:
  "runs_within run (Option.bind m (\<lambda>(status, es). Some (status, pre @ es)))" if "runs_within run m" "launch_events pre = []"
proof -
  from that(1) obtain pre1 post1 where "launch_events pre1 = []" "launch_events post1 = []" "m = map_option (around pre1 post1) run"
    by (auto simp: runs_within_def)
  with that(2) show ?thesis
    unfolding runs_within_def
    by (intro exI [of _ "pre @ pre1"] exI [of _ post1]) (cases run; simp add: around_def)
qed

lemma run_and_release_granted: "runs_within (run_generic_kernel w fl name c) (run_and_release w fl name c)"
  unfolding runs_within_def
proof (intro exI conjI)
  show "run_and_release w fl name c = map_option (around [] [Release Cl_kernel, Release Cl_program, Release Cl_queue,
      Release Cl_context, Release Source_text, Stdout (runner_line ''Kernel execution finished successfully.'')]) (run_generic_kernel w fl name c)"
    by (cases "run_generic_kernel w fl name c") (auto simp: run_and_release_def around_def)
qed simp_all

lemma run_on_device_granted:
  assumes "objects_granted w name"
  shows "runs_within (run_generic_kernel w fl name c) (run_on_device w fl src name c)"
proof -
  obtain h0 h1 h2 h3 where h: "cl_context w = (h0, 0)" "cl_queue w = (h1, 0)" "cl_program w src = (h2, 0)" "cl_kernel w name = (h3, 0)"
      "h0 \<noteq> 0" "h1 \<noteq> 0" "h2 \<noteq> 0" "h3 \<noteq> 0"
    using assms(1) unfolding objects_granted_def by (metis prod.collapse)
  have b: "cl_build w b = 0" for b using assms(1) by (simp add: objects_granted_def)
  show ?thesis
    using runs_within_more [OF run_and_release_granted [of w fl name c], of "[Acquire Cl_context, Acquire Cl_queue]
      @ snd (build_kernel_program w src) @ [Acquire Cl_kernel]"]
    by (simp add: run_on_device_def h build_kernel_program_def b Let_def)
qed

lemma run_configured_granted:
  assumes "device_found w" "objects_granted w name"
  shows "runs_within (run_generic_kernel w fl name c) (run_configured w fl src name c)"
proof -
  obtain p es0 where p: "find_pocl_or_default_platform w = (p, es0)" by fastforce
  then have es0: "launch_events es0 = []"
    by (auto simp: find_pocl_or_default_platform_def Let_def split: if_split_asm prod.split_asm)
  show ?thesis
    using runs_within_more [OF run_on_device_granted [OF assms(2), of fl c src], of "es0
      @ [Stdout (runner_line (''Using platform: '' @ cl_platform_name w p))]
      @ [Stdout (runner_line (''Using device: '' @ cl_device_name w (find_cpu_or_any_device w p)))]"] assms(1) p es0
    by (simp add: run_configured_def device_found_def Let_def)
qed

lemma host_main_granted:
  assumes "cooperative w file name"
    and parsed: "parse_arg_tokens fl argv (initial_state fl) = Some \<lparr>config = c, g_kernel_name = name, g_kernel_file = file,
        kernel_file = At_kernel_file, kernel_name = At_kernel_name\<rparr>"
    and "cfg_work_dim c \<noteq> 0" "num_args c \<noteq> 0"
  shows "runs_within (run_generic_kernel w fl name c) (host_main w fl argv)"
proof -
  let ?s = "\<lparr>config = c, g_kernel_name = name, g_kernel_file = file, kernel_file = At_kernel_file, kernel_name = At_kernel_name\<rparr>"
  from assms(1) obtain src es0 where src: "read_file w file = (Some src, es0)"
    unfolding cooperative_def by (metis not_None_eq prod.collapse)
  have s: "default_kernel_file ?s = ?s" "complete_from_source fl t ?s = Some ?s" "\<not> not_configured ?s"
      "text_at ?s At_kernel_file = file" "text_at ?s At_kernel_name = name" for t
    using assms(3,4) by (simp_all add: default_kernel_file_def complete_from_source_def not_configured_def text_at_def deref_def)
  have "device_found w" "objects_granted w name" using assms(1) by (simp_all add: cooperative_def)
  from runs_within_more [OF run_configured_granted [OF this, of fl c src], of "es0
      @ [Stdout (runner_line (''Loading kernel file: '' @ file @ '' (kernel name: '' @ name @ '')''))]"]
  show ?thesis by (simp add: host_main_def parsed s src launch_events_read_file [OF src] Let_def)
qed

text \<open>What a command line asks to be launched.\<close>

definition asked_launch :: "'f float_ops \<Rightarrow> size_t list \<Rightarrow> size_t list \<Rightarrow> 'f host_arg list \<Rightarrow> 'f event list" where
  "asked_launch fl g l args = all_arg_events fl g l (length args) 0 args
     @ [Enqueue (length g) (padded_to 3 0 g) (if l = [] then None else Some (padded_to 3 0 l))]"

text \<open>A command line within the limits of the host program.\<close>

definition valid_command :: "'f float_ops \<Rightarrow> ('f \<Rightarrow> string) \<Rightarrow> string \<Rightarrow> string \<Rightarrow> size_t list \<Rightarrow> size_t list \<Rightarrow> 'f host_arg list \<Rightarrow> bool" where
  "valid_command fl sh file name g l args \<longleftrightarrow> g \<noteq> [] \<and> length g \<le> 3 \<and> length l \<le> 3 \<and> args \<noteq> [] \<and> length args \<le> 16
     \<and> length file < 512 \<and> length name < 128
     \<and> (\<forall>a \<in> set args. arg_fits g a \<and> (\<forall>v \<in> floats_of a. fl_strtof fl (sh v) = v))"

lemma parse_spelled:
  assumes "valid_command fl sh file name g l args"
  shows "parse_arg_tokens fl (spell_runner sh file name g l args) (initial_state fl)
    = Some \<lparr>config = config_for fl g l args, g_kernel_name = name, g_kernel_file = file,
        kernel_file = At_kernel_file, kernel_name = At_kernel_name\<rparr>"
  using assms by (intro runner_args_roundtrip) (auto simp: valid_command_def)

lemma host_launches:
  assumes "valid_command fl sh file name g l args" "cooperative w file name"
  shows "\<exists>es. host_main w fl (spell_runner sh file name g l args) = Some (0, es) \<and> launch_events es = asked_launch fl g l args"
proof -
  have b: "length g \<le> MAX_DIMS" "length l \<le> MAX_DIMS" "length args \<le> MAX_KERNEL_ARGS" "\<forall>a \<in> set args. arg_fits g a" "g \<noteq> []" "args \<noteq> []"
    using assms(1) by (simp_all add: valid_command_def MAX_DIMS_def MAX_KERNEL_ARGS_def)
  have "buffers_granted w" using assms(2) by (simp add: cooperative_def)
  from run_generic_kernel_granted [OF this b(1-4), of fl name] obtain r es where
    run: "run_generic_kernel w fl name (config_for fl g l args) = Some (r, es)" "launch_events es = asked_launch fl g l args"
    by (auto simp: asked_launch_def MAX_DIMS_def)
  have "cfg_work_dim (config_for fl g l args) \<noteq> 0" "num_args (config_for fl g l args) \<noteq> 0"
    using b(5,6) by (simp_all add: config_for_def)
  from runs_within_result [OF host_main_granted [OF assms(2) parse_spelled [OF assms(1)] this, unfolded run(1)]] run(2)
  show ?thesis by auto
qed

text \<open>
  C29.  The host program launches what its command line asks for: when the file can be read and OpenCL creates what
  is asked for, it passes OpenCL every argument once and in order (a buffer with its size in bytes and the contents
  its flag names, a scalar with its value, local memory with its size), and then enqueues the kernel with the
  dimension, the global sizes and the local sizes of the command line, nothing else, and exits with 0 (whether or
  not the launch is accepted).  No buffer may have \<^verbatim>\<open>2^62\<close> elements or more.
\<close>

theorem host_launches_as_asked:
  assumes "valid_command fl sh file name g l args" and "cooperative w file name"
  shows "\<exists>es. host_main w fl (spell_runner sh file name g l args) = Some (0, es) \<and> launch_events es = asked_launch fl g l args"
  using assms by (rule host_launches)

text \<open>A machine with pocl, on which everything works.\<close>

definition demo_runner_world :: "u64 host_world" where
  "demo_runner_world = \<lparr>hw_file = (\<lambda>n. if n = ''k.cl'' then Inr \<lparr>cf_seek_end = True, cf_tell = 24, cf_seek_set = True,
       cf_contents = ''kernel void vec_add() {}''\<rparr> else Inl ''No such file or directory''),
     hw_alloc = (\<lambda>r. True), hw_build_options = None, cl_platforms = (0, [7, 8]),
     cl_platform_name = (\<lambda>p. if p = 8 then ''Portable Computing Language'' else ''Other''),
     cl_devices = (\<lambda>p cpu. (0, 1, 5)), cl_device_name = (\<lambda>d. ''cpu''), cl_context = (1, 0), cl_queue = (2, 0),
     cl_program = (\<lambda>src. (3, 0)), cl_build = (\<lambda>b. 0), cl_build_log = [], cl_kernel = (\<lambda>n. (4, 0)), cl_buffer = (\<lambda>i. 0),
     cl_enqueue = 0, cl_read_back = (\<lambda>i xs. 3)\<rparr>"

lemma demo_cooperative: "cooperative demo_runner_world ''k.cl'' ''vec_add''"
  by (simp add: cooperative_def demo_runner_world_def read_file_def device_found_def find_pocl_or_default_platform_def
      find_cpu_or_any_device_def objects_granted_def buffers_granted_def Let_def)

lemma demo_valid: "valid_command demo_floats to_string ''k.cl'' ''vec_add'' [64] [16] demo_host_args"
  by (simp add: valid_command_def demo_host_args_def demo_floats_def strtoul_to_string count_or_def work_items_def)

theorem host_launches_as_asked_witness:
  "\<exists>es. host_main demo_runner_world demo_floats (spell_runner to_string ''k.cl'' ''vec_add'' [64] [16] demo_host_args) = Some (0, es)
    \<and> launch_events es = asked_launch demo_floats [64] [16] demo_host_args"
  by (rule host_launches_as_asked [OF demo_valid demo_cooperative])

section \<open>Resources\<close>

text \<open>
  C30.  Whatever is on the command line, in the file and in OpenCL's answers, the host program uses and releases only
  what it holds, never acquires a resource twice (the file, the source text, context, queue, program, kernel, and
  the host and device memory of each argument), and has released everything when it returns, on every path but
  one: what may be left is memory of arguments, and only if a buffer could not be allocated or created.
\<close>

theorem host_releases_everything:
  assumes "lawful_cl w" and "host_main w fl argv = Some (status, es)"
  shows "\<exists>left. ledger {} es = Some (mem_of left) \<and> (buffers_granted w \<longrightarrow> left = {})"
  using assms by (rule host_main_ledger)

lemma demo_runner_lawful: "lawful_cl demo_runner_world"
  by (simp add: lawful_cl_def demo_runner_world_def)

theorem host_releases_everything_witness:
  "\<exists>es. host_main demo_runner_world demo_floats (spell_runner to_string ''k.cl'' ''vec_add'' [64] [16] demo_host_args) = Some (0, es)
    \<and> ledger {} es = Some {}"
proof -
  from host_launches [OF demo_valid demo_cooperative] obtain es where
    es: "host_main demo_runner_world demo_floats (spell_runner to_string ''k.cl'' ''vec_add'' [64] [16] demo_host_args) = Some (0, es)" by blast
  have "buffers_granted demo_runner_world" by (simp add: buffers_granted_def demo_runner_world_def)
  with host_releases_everything [OF demo_runner_lawful es] es show ?thesis by auto
qed

text \<open>
  C31.  The host program does nothing undefined, whatever its input and OpenCL's answers, unless a buffer of its
  configuration has \<^verbatim>\<open>2^62\<close> elements or more: only then is more written to a host buffer than was allocated, because
  \<^verbatim>\<open>sizeof(float) * count\<close> wraps.
\<close>

theorem host_defined_unless_huge:
  assumes "host_main w fl argv = None"
  shows "\<exists>src s. read_configuration fl argv src = Some s
    \<and> (\<exists>a \<in> set (config_args (config s)). huge_buffer (total_elements (config s)) a)"
  using assms by (rule host_main_defined)

definition huge_command :: "string list" where
  "huge_command = spell_runner to_string ''k.cl'' ''vec_add'' [2 ^ 62] [] [Host_buffer 0 :: u64 host_arg]"

lemma huge_command_undefined: "host_main demo_runner_world demo_floats huge_command = None"
proof -
  let ?c = "config_for demo_floats [2 ^ 62] [] [Host_buffer 0]"
  have parsed: "parse_arg_tokens demo_floats huge_command (initial_state demo_floats) = Some \<lparr>config = ?c, g_kernel_name = ''vec_add'',
      g_kernel_file = ''k.cl'', kernel_file = At_kernel_file, kernel_name = At_kernel_name\<rparr>"
    unfolding huge_command_def by (rule runner_args_roundtrip) simp_all
  have whole: "total_elements ?c = 4611686018427387904" by (simp add: total_elements_for MAX_DIMS_def work_items_def)
  have "setup_kernel_args demo_runner_world demo_floats ?c (total_elements ?c) 0 (take (num_args ?c) (arg_configs ?c)) [] = None"
    unfolding whole
    by (simp add: config_for_def padded_to_def zero_arg_def setup_kernel_arg_def is_buffer_def setup_buffer_arg_def buffer_count_def
        init_buffer_data_def float_bytes_def demo_runner_world_def)
  then have run: "run_generic_kernel demo_runner_world demo_floats ''vec_add'' ?c = None" by (simp add: run_generic_kernel_def)
  have "cfg_work_dim ?c \<noteq> 0" "num_args ?c \<noteq> 0" by (simp_all add: config_for_def)
  from host_main_granted [OF demo_cooperative parsed this, unfolded run] show ?thesis by (rule runs_within_None)
qed

theorem host_defined_unless_huge_witness:
  "\<exists>src s. read_configuration demo_floats huge_command src = Some s
    \<and> (\<exists>a \<in> set (config_args (config s)). huge_buffer (total_elements (config s)) a)"
  by (rule host_defined_unless_huge [OF huge_command_undefined])

section \<open>The debugger at the launch\<close>

text \<open>
  The process is stopped at the entry of \<^verbatim>\<open>clEnqueueNDRangeKernel\<close>, called with a dimension and the program's arrays of
  three sizes: the arguments are in the argument registers and the arrays in memory, at addresses that are not 0.
\<close>

definition array_at :: "lldb_process \<Rightarrow> u64 \<Rightarrow> size_t list \<Rightarrow> bool" where
  "array_at pr ptr xs \<longleftrightarrow> ptr \<noteq> 0 \<and> (\<forall>i < length xs. pr_read_u64 pr (ptr + 8 * of_nat i) = xs ! i)"

definition stopped_at_call :: "cpu_abi \<Rightarrow> lldb_process \<Rightarrow> nat \<Rightarrow> size_t list \<Rightarrow> size_t list option \<Rightarrow> bool" where
  "stopped_at_call abi pr d gs ls \<longleftrightarrow> pr_valid pr \<and> pr_state pr = State_stopped
     \<and> (\<exists>queue kern gptr lptr.
          passes abi (selected_or_first_frame (pr_selected pr)) [queue, kern, of_nat d, 0, gptr, lptr]
          \<and> array_at pr gptr gs \<and> (case ls of None \<Rightarrow> lptr = 0 | Some xs \<Rightarrow> array_at pr lptr xs))"

lemma array_at_3:
  "array_at pr ptr [a, b, c] \<longleftrightarrow> ptr \<noteq> 0 \<and> pr_read_u64 pr ptr = a \<and> pr_read_u64 pr (ptr + 8) = b \<and> pr_read_u64 pr (ptr + 16) = c"
proof -
  have three: "(\<forall>i < 3. P i) \<longleftrightarrow> P 0 \<and> P 1 \<and> P 2" for P :: "nat \<Rightarrow> bool"
    by (auto simp: less_Suc_eq numeral_eq_Suc)
  have "length [a, b, c] = 3" by simp
  then show ?thesis by (simp only: array_at_def three) simp
qed

text \<open>Three sizes, of which \<open>d\<close> count.\<close>

definition sizes_of :: "nat \<Rightarrow> size_t list \<Rightarrow> size3" where
  "sizes_of d xs = Size3 (padded_to 3 0 xs ! 0) (if d > 1 then padded_to 3 0 xs ! 1 else 1) (if d > 2 then padded_to 3 0 xs ! 2 else 1)"

lemma array_holds:
  assumes "array_at pr ptr (padded_to 3 0 xs)" "0 < d" "d \<le> 3"
  shows "holds_sizes pr ptr (of_nat d) (sizes_of d xs)"
proof -
  have "length (padded_to 3 0 xs) \<ge> 3" by (simp add: padded_to_def)
  then have "pr_read_u64 pr (ptr + 8 * of_nat i) = padded_to 3 0 xs ! i" if "i < 3" for i
    using assms(1) that by (simp add: array_at_def)
  from this [of 0] this [of 1] this [of 2]
  have m: "pr_read_u64 pr ptr = padded_to 3 0 xs ! 0" "pr_read_u64 pr (ptr + 8) = padded_to 3 0 xs ! 1"
    "pr_read_u64 pr (ptr + 16) = padded_to 3 0 xs ! 2" by simp_all
  consider "d = 1" | "d = 2" | "d = 3" using assms(2,3) by linarith
  then show ?thesis by cases (simp_all add: holds_sizes_def sizes_of_def m word_less_nat_alt)
qed

lemma enqueue_of_launch:
  assumes "Enqueue d gs ls \<in> set es" "launch_events es = asked_launch fl g l args"
  shows "d = length g \<and> gs = padded_to 3 0 g \<and> ls = (if l = [] then None else Some (padded_to 3 0 l))"
proof -
  have no: "Enqueue d gs ls \<notin> set (arg_events fl g l k i a)" for k i and a :: "'a host_arg"
    by (cases a) (simp_all add: buffer_events_def)
  have "Enqueue d gs ls \<notin> set (all_arg_events fl g l k i as)" for k i and as :: "'a host_arg list"
    by (induction as arbitrary: i) (simp_all add: no)
  moreover have "Enqueue d gs ls \<in> set (launch_events es)" using assms(1) by (simp add: launch_events_def)
  ultimately show ?thesis unfolding assms(2) by (auto simp: asked_launch_def split: if_split_asm)
qed


definition call_frame :: lldb_frame where
  "call_frame = blank_frame\<lparr>fr_register := map_of (zip [''rdi'', ''rsi'', ''rdx'', ''rcx'', ''r8'', ''r9''] [11, 12, 1, 0, 4096, 8192])\<rparr>"

definition call_process :: lldb_process where
  "call_process = enqueue_process\<lparr>pr_selected := idle_thread\<lparr>th_selected_frame := call_frame\<rparr>,
     pr_read_u64 := (\<lambda>a. if a = 4096 then 64 else if a = 8192 then 16 else 0)\<rparr>"

lemma call_process_stopped: "stopped_at_call x86_abi call_process 1 [64, 0, 0] (Some [16, 0, 0])"
proof -
  have "selected_or_first_frame (pr_selected call_process) = call_frame"
    by (simp add: call_process_def selected_or_first_frame_def idle_thread_def call_frame_def blank_frame_def)
  moreover have "passes x86_abi call_frame [11, 12, of_nat 1, 0, 4096, 8192]"
    by (auto simp: passes_def x86_abi_def x86_arg_registers_def call_frame_def blank_frame_def less_Suc_eq numeral_eq_Suc)
  moreover have "array_at call_process 4096 [64, 0, 0]" "array_at call_process 8192 [16, 0, 0]"
    by (simp_all add: array_at_3 call_process_def)
  ultimately show ?thesis
    unfolding stopped_at_call_def by (auto simp: call_process_def enqueue_process_def)
qed


end
